(* ===== verification/Go_Prelude.thy ===== *)
theory Go_Prelude
  imports
    Main
    "HOL-Library.Word"
    "HOL-Library.List_Lexorder"
    "HOL-Library.Char_ord"
    "HOL-Library.Product_Lexorder"
    "HOL-Library.Multiset"
    "HOL-Library.AList"
begin

text \<open>
  The part of Go that every component of Podmin uses: byte strings and the functions of
  the standard packages \<open>strings\<close>, \<open>strconv\<close>, \<open>encoding/hex\<close>, \<open>errors\<close> and \<open>sort\<close>
  the sources call, errors as values, loops that return early, and maps.

  \<^item> A Go string or byte slice is a \<^typ>\<open>string\<close>: a list of \<^typ>\<open>char\<close>, and a
    \<^typ>\<open>char\<close> of HOL is a byte. The order on strings is the bytewise lexicographic one.
  \<^item> An \<open>error\<close> is a value. A function that returns only an error is modelled with the
    result type \<open>error option\<close> (\<^term>\<open>None\<close> is \<open>nil\<close>), one that returns a value or an
    error with a sum type (\<^term>\<open>Inl\<close> is the error).
  \<^item> A \<open>for range\<close> loop that may return early is \<open>fold_res\<close> or \<open>first_err\<close>.
  \<^item> A Go map that the code ranges over is an association list with distinct keys; the
    order of the list stands for the order the iteration takes, which Go leaves open.
  \<^item> \<open>sort.Slice\<close> is \<open>sort_slice\<close>, a stable insertion sort by the comparison the code
    passes. Go leaves the order of elements that compare equal open; the lemmas about
    \<open>sort_slice\<close> used by the components are that it permutes and that it sorts.
\<close>

named_theorems go_defs \<open>definitions of the string and map functions, for evaluation\<close>

section \<open>Errors\<close>

text \<open>
  \<open>errors.New\<close> and \<open>fmt.Errorf\<close> without \<open>%w\<close> make an \<open>Errorf\<close>, with the message and
  the values it formats; \<open>fmt.Errorf\<close> with \<open>%w\<close> a \<open>Wrapf\<close>; \<open>errors.Join\<close> a \<open>Joined\<close>;
  a package-level error variable is a \<open>Sentinel\<close>.
\<close>

datatype error =
    Errorf string "string list"
  | Wrapf string "string list" error
  | Joined "error list"
  | Sentinel string

abbreviation errors_New :: "string \<Rightarrow> error" where
  "errors_New message \<equiv> Errorf message []"

fun errors_Is :: "error \<Rightarrow> error \<Rightarrow> bool" where
  "errors_Is (Errorf m as) t = (Errorf m as = t)"
| "errors_Is (Wrapf m as e) t = (Wrapf m as e = t \<or> errors_Is e t)"
| "errors_Is (Joined es) t = (Joined es = t \<or> list_ex (\<lambda>e. errors_Is e t) es)"
| "errors_Is (Sentinel n) t = (Sentinel n = t)"

text \<open>The errors of the storage interface \<open>s3lect\<close> that its clients recognise.\<close>

definition ErrStorageNotFound :: error where
  "ErrStorageNotFound = Sentinel ''storage object not found''"

definition ErrStoragePrecondition :: error where
  "ErrStoragePrecondition = Sentinel ''storage precondition failed''"

lemma errors_Is_refl [simp]: "errors_Is e e"
  by (cases e) simp_all

section \<open>Loops that return early\<close>

text \<open>A loop over a slice whose body may return an error; the state is what the body changes.\<close>

fun fold_res :: "('a \<Rightarrow> 's \<Rightarrow> error + 's) \<Rightarrow> 'a list \<Rightarrow> 's \<Rightarrow> error + 's" where
  "fold_res f [] s = Inr s"
| "fold_res f (x # xs) s = (case f x s of Inl e \<Rightarrow> Inl e | Inr s' \<Rightarrow> fold_res f xs s')"

lemma fold_res_cong [fundef_cong]:
  "xs = ys \<Longrightarrow> s = t \<Longrightarrow> (\<And>x u. x \<in> set ys \<Longrightarrow> f x u = g x u) \<Longrightarrow> fold_res f xs s = fold_res g ys t"
  by (induction xs arbitrary: ys s t) (auto split: sum.split)

lemma fold_res_append:
  "fold_res f (xs @ ys) s =
     (case fold_res f xs s of Inl e \<Rightarrow> Inl e | Inr s' \<Rightarrow> fold_res f ys s')"
  by (induction xs arbitrary: s) (auto split: sum.split)

lemma fold_res_ConsE:
  assumes "fold_res f (x # xs) s = Inr s'"
  obtains t where "f x s = Inr t" and "fold_res f xs t = Inr s'"
  using assms by (cases "f x s") auto

text \<open>Loop invariant over the elements already processed.\<close>

lemma fold_res_inv_prefix:
  assumes "fold_res f xs s = Inr s'"
    and "P [] s"
    and "\<And>ys x zs t t'. xs = ys @ x # zs \<Longrightarrow> P ys t \<Longrightarrow> f x t = Inr t' \<Longrightarrow> P (ys @ [x]) t'"
  shows "P xs s'"
proof -
  have "P (pre @ xs) s'"
    if "fold_res f xs t = Inr s'" and "P pre t"
      and "\<And>ys x zs u u'. pre @ xs = ys @ x # zs \<Longrightarrow> P ys u \<Longrightarrow> f x u = Inr u' \<Longrightarrow> P (ys @ [x]) u'"
    for pre t
    using that
  proof (induction xs arbitrary: pre t)
    case Nil
    then show ?case by simp
  next
    case (Cons x xs)
    from Cons.prems(1) obtain t' where t': "f x t = Inr t'" "fold_res f xs t' = Inr s'"
      by (auto split: sum.splits)
    have "P (pre @ [x]) t'"
      using Cons.prems(3)[of pre x xs t t'] Cons.prems(2) t'(1) by simp
    then have "P ((pre @ [x]) @ xs) s'"
      by (rule Cons.IH[OF t'(2)]) (use Cons.prems(3) in simp)
    then show ?case by simp
  qed
  from this[of s "[]"] assms show ?thesis by simp
qed

lemma fold_res_inv:
  assumes "fold_res f xs s = Inr s'"
    and "P s"
    and "\<And>x t t'. x \<in> set xs \<Longrightarrow> P t \<Longrightarrow> f x t = Inr t' \<Longrightarrow> P t'"
  shows "P s'"
  by (rule fold_res_inv_prefix[OF assms(1), of "\<lambda>_. P"]) (use assms in auto)

text \<open>The error a loop returns is the error of one of its iterations.\<close>

lemma fold_res_Inl:
  "fold_res f xs s = Inl e \<Longrightarrow> \<exists>x \<in> set xs. \<exists>t. f x t = Inl e"
  by (induction xs arbitrary: s) (fastforce split: sum.splits)+

lemma fold_res_total:
  "(\<And>x t. x \<in> set xs \<Longrightarrow> \<exists>t'. f x t = Inr t') \<Longrightarrow> \<exists>s'. fold_res f xs s = Inr s'"
proof (induction xs arbitrary: s)
  case Nil
  then show ?case by simp
next
  case (Cons x xs)
  from Cons.prems[of x s] obtain t where "f x s = Inr t" by auto
  moreover obtain s' where "fold_res f xs t = Inr s'"
    using Cons.IH[of t] Cons.prems by auto
  ultimately show ?case by simp
qed

text \<open>A loop that refuses an element whose key it has seen.\<close>

lemma fold_res_seen:
  assumes ok: "\<And>x s. (\<exists>s'. f x s = Inr s') \<longleftrightarrow> ok x \<and> key x \<notin> seen_of s"
    and seen: "\<And>x s s'. f x s = Inr s' \<Longrightarrow> seen_of s' = insert (key x) (seen_of s)"
  shows "(\<exists>s'. fold_res f xs s = Inr s') \<longleftrightarrow>
    (\<forall>x \<in> set xs. ok x) \<and> distinct (map key xs) \<and> key ` set xs \<inter> seen_of s = {}"
proof (induction xs arbitrary: s)
  case (Cons x xs)
  show ?case
  proof (cases "f x s")
    case (Inl e)
    then show ?thesis using ok[of x s] by auto
  next
    case (Inr t)
    then have "ok x" "key x \<notin> seen_of s" "seen_of t = insert (key x) (seen_of s)"
      using ok[of x s] seen[OF Inr] by auto
    then show ?thesis by (auto simp: Inr Cons.IH)
  qed
qed simp

text \<open>A loop that appends what each element contributes, and one that also refuses repeated keys.\<close>

lemma fold_res_appends:
  assumes "\<And>x s r. f x s = Inr r \<longleftrightarrow> ok x \<and> r = s @ g x"
  shows "fold_res f xs s = Inr r \<longleftrightarrow> (\<forall>x \<in> set xs. ok x) \<and> r = s @ concat (map g xs)"
proof (induction xs arbitrary: s)
  case (Cons x xs)
  show ?case
  proof (cases "f x s")
    case (Inl e)
    then have "\<not> ok x" using assms[of x s "s @ g x"] by simp
    with Inl show ?thesis by simp
  next
    case (Inr t)
    with assms[of x s t] Cons.IH[of t] show ?thesis by auto
  qed
qed auto

lemma fold_res_keyed:
  assumes "\<And>x seen a r. f x (seen, a) = Inr r \<longleftrightarrow> ok x \<and> key x \<notin> seen \<and> r = (insert (key x) seen, h x a)"
  shows "fold_res f xs (seen, a) = Inr r \<longleftrightarrow>
    (\<forall>x \<in> set xs. ok x) \<and> distinct (map key xs) \<and> key ` set xs \<inter> seen = {} \<and>
    r = (key ` set xs \<union> seen, fold h xs a)"
proof (induction xs arbitrary: seen a)
  case (Cons x xs)
  show ?case
  proof (cases "f x (seen, a)")
    case (Inl e)
    then have "\<not> (ok x \<and> key x \<notin> seen)" using assms[of x seen a "(insert (key x) seen, h x a)"] by simp
    with Inl show ?thesis by auto
  next
    case (Inr t)
    then have "ok x" "key x \<notin> seen" "t = (insert (key x) seen, h x a)"
      using assms[of x seen a t] by simp_all
    with Inr show ?thesis by (auto simp: Cons.IH)
  qed
qed auto

text \<open>A loop whose body only checks: the first error found, if any.\<close>

fun first_err :: "('a \<Rightarrow> error option) \<Rightarrow> 'a list \<Rightarrow> error option" where
  "first_err f [] = None"
| "first_err f (x # xs) = (case f x of Some e \<Rightarrow> Some e | None \<Rightarrow> first_err f xs)"

lemma first_err_cong [fundef_cong]:
  "xs = ys \<Longrightarrow> (\<And>x. x \<in> set ys \<Longrightarrow> f x = g x) \<Longrightarrow> first_err f xs = first_err g ys"
  by (induction xs arbitrary: ys) (auto split: option.split)

lemma first_err_None [simp]: "first_err f xs = None \<longleftrightarrow> (\<forall>x \<in> set xs. f x = None)"
  by (induction xs) (auto split: option.split)

lemma or_else_None [simp]:
  "(case x of Some e \<Rightarrow> Some e | None \<Rightarrow> y) = None \<longleftrightarrow> x = None \<and> y = None"
  by (simp split: option.split)

lemma first_err_Some: "first_err f xs = Some e \<Longrightarrow> \<exists>x \<in> set xs. f x = Some e"
  by (induction xs) (auto split: option.splits)

text \<open>Slices of pointers: a loop that rejects \<open>nil\<close> leaves a slice of values.\<close>

lemma no_nil_conv: "(\<forall>x \<in> set xs. x \<noteq> None) \<longleftrightarrow> (\<exists>ys. xs = map Some ys)"
proof
  assume "\<forall>x \<in> set xs. x \<noteq> None"
  then have "xs = map Some (map the xs)" by (induction xs) auto
  then show "\<exists>ys. xs = map Some ys" by blast
qed auto

lemma no_nil_ex: "(\<exists>ys. xs = map Some ys \<and> Q ys) \<longleftrightarrow> (\<forall>x \<in> set xs. x \<noteq> None) \<and> Q (map the xs)"
proof -
  have "(\<forall>x \<in> set xs. x \<noteq> None) \<Longrightarrow> xs = map Some (map the xs)" by (auto intro: map_idI[symmetric])
  then show ?thesis by (auto simp: comp_def intro!: exI[of _ "map the xs"])
qed

lemma sorted_wrt_cong_iff:
  "(\<And>x y. x \<in> set xs \<Longrightarrow> y \<in> set xs \<Longrightarrow> P x y \<longleftrightarrow> Q x y) \<Longrightarrow> sorted_wrt P xs \<longleftrightarrow> sorted_wrt Q xs"
  by (induction xs) auto

lemma distinct_map_cong_iff:
  "(\<And>x y. x \<in> set xs \<Longrightarrow> y \<in> set xs \<Longrightarrow> f x = f y \<longleftrightarrow> g x = g y) \<Longrightarrow>
    distinct (map f xs) \<longleftrightarrow> distinct (map g xs)"
  by (auto simp: distinct_map inj_on_def)

lemma map_the_Some [simp]: "map (the \<circ> Some) xs = xs" "map (\<lambda>x. the (Some x)) xs = xs"
  by (simp_all add: comp_def)

lemma unat_less_2p: "unat (w :: 'a::len word) < 2 ^ LENGTH('a)"
  by (rule unsigned_less)

section \<open>Sorting\<close>

fun insert_slice :: "('a \<Rightarrow> 'a \<Rightarrow> bool) \<Rightarrow> 'a \<Rightarrow> 'a list \<Rightarrow> 'a list" where
  "insert_slice lt x [] = [x]"
| "insert_slice lt x (y # ys) = (if lt y x then y # insert_slice lt x ys else x # y # ys)"

definition sort_slice :: "('a \<Rightarrow> 'a \<Rightarrow> bool) \<Rightarrow> 'a list \<Rightarrow> 'a list" where
  "sort_slice lt xs = foldr (insert_slice lt) xs []"

lemma sort_slice_Nil [simp]: "sort_slice lt [] = []"
  and sort_slice_Cons [simp]: "sort_slice lt (x # xs) = insert_slice lt x (sort_slice lt xs)"
  by (simp_all add: sort_slice_def)

lemma mset_insert_slice [simp]: "mset (insert_slice lt x xs) = add_mset x (mset xs)"
  by (induction xs) auto

lemma mset_sort_slice [simp]: "mset (sort_slice lt xs) = mset xs"
  by (induction xs) simp_all

lemma set_sort_slice [simp]: "set (sort_slice lt xs) = set xs"
  by (metis mset_sort_slice set_mset_mset)

lemma length_sort_slice [simp]: "length (sort_slice lt xs) = length xs"
  by (metis mset_sort_slice size_mset)

lemma distinct_map_sort_slice [simp]:
  "distinct (map f (sort_slice lt xs)) = distinct (map f xs)"
  by (metis mset_map mset_sort_slice mset_eq_imp_distinct_iff)

text \<open>A comparison that compares a key into a linear order sorts as \<open>sort_key\<close> does.\<close>

lemma insert_slice_key:
  fixes f :: "'a \<Rightarrow> 'k::linorder"
  shows "insert_slice (\<lambda>x y. f x < f y) x xs = insort_key f x xs"
  by (induction xs) (auto simp: not_less)

lemma sort_slice_key:
  fixes f :: "'a \<Rightarrow> 'k::linorder"
  shows "sort_slice (\<lambda>x y. f x < f y) xs = sort_key f xs"
  by (simp add: sort_slice_def sort_key_def insert_slice_key cong: foldr_cong)

lemma map_insort_key: "map g (insort_key (f \<circ> g) x xs) = insort_key f (g x) (map g xs)"
  by (induction xs) auto

lemma map_sort_key: "map g (sort_key (f \<circ> g) xs) = sort_key f (map g xs)"
  by (induction xs) (simp_all add: map_insort_key[unfolded comp_def] comp_def)

text \<open>Two permutations of a list whose keys are distinct sort to the same list.\<close>

lemma sort_key_perm:
  fixes f :: "'a \<Rightarrow> 'k::linorder"
  assumes "mset xs = mset ys" and "inj_on f (set xs)"
  shows "sort_key f xs = sort_key f ys"
proof -
  have "sorted (map f (sort_key f xs))" "sorted (map f (sort_key f ys))"
    by simp_all
  moreover have "mset (map f (sort_key f xs)) = mset (map f (sort_key f ys))"
    using assms(1) by simp
  ultimately have "map f (sort_key f xs) = map f (sort_key f ys)"
    by (metis properties_for_sort)
  moreover have "set xs = set ys"
    using assms(1) by (metis set_mset_mset)
  ultimately show ?thesis
    using assms(2) by (auto intro!: map_inj_on[of f])
qed

section \<open>Strings\<close>

definition HasPrefix :: "string \<Rightarrow> string \<Rightarrow> bool" where
  "HasPrefix s p \<longleftrightarrow> length p \<le> length s \<and> take (length p) s = p"

definition HasSuffix :: "string \<Rightarrow> string \<Rightarrow> bool" where
  "HasSuffix s p \<longleftrightarrow> length p \<le> length s \<and> drop (length s - length p) s = p"

definition TrimPrefix :: "string \<Rightarrow> string \<Rightarrow> string" where
  "TrimPrefix s p = (if HasPrefix s p then drop (length p) s else s)"

definition TrimSuffix :: "string \<Rightarrow> string \<Rightarrow> string" where
  "TrimSuffix s p = (if HasSuffix s p then take (length s - length p) s else s)"

fun strings_Contains :: "string \<Rightarrow> string \<Rightarrow> bool" where
  "strings_Contains [] sub \<longleftrightarrow> sub = []"
| "strings_Contains (c # s) sub \<longleftrightarrow> HasPrefix (c # s) sub \<or> strings_Contains s sub"

text \<open>\<open>strings.Split\<close> and \<open>strings.Cut\<close> at a separator of one byte.\<close>

fun Split :: "string \<Rightarrow> char \<Rightarrow> string list" where
  "Split [] sep = [[]]"
| "Split (c # s) sep =
     (if c = sep then [] # Split s sep
      else (case Split s sep of [] \<Rightarrow> [[c]] | p # ps \<Rightarrow> (c # p) # ps))"

fun Cut :: "string \<Rightarrow> char \<Rightarrow> string \<times> string \<times> bool" where
  "Cut [] sep = ([], [], False)"
| "Cut (c # s) sep =
     (if c = sep then ([], s, True)
      else (let (before, after, found) = Cut s sep in (c # before, after, found)))"

fun strings_Join :: "string list \<Rightarrow> string \<Rightarrow> string" where
  "strings_Join [] sep = []"
| "strings_Join [p] sep = p"
| "strings_Join (p # q # ps) sep = p @ sep @ strings_Join (q # ps) sep"

text \<open>\<open>strings.LastIndex\<close> of a one-byte string: the position, or -1.\<close>

fun LastIndex :: "string \<Rightarrow> char \<Rightarrow> int" where
  "LastIndex [] sep = -1"
| "LastIndex (c # s) sep =
     (let i = LastIndex s sep in if 0 \<le> i then i + 1 else if c = sep then 0 else -1)"

text \<open>
  \<open>strings.ToLower\<close> on ASCII; the callers apply it to host names in presentation
  format and to strings that are compared only when they are hexadecimal.
\<close>

definition to_lower_char :: "char \<Rightarrow> char" where
  "to_lower_char c =
     (if CHR ''A'' \<le> c \<and> c \<le> CHR ''Z'' then char_of ((of_char c :: nat) + 32) else c)"

definition ToLower :: "string \<Rightarrow> string" where
  "ToLower = map to_lower_char"

text \<open>
  \<open>strings.TrimSpace\<close>: the UTF-8 encodings of the Unicode white space characters are
  removed from both ends.
\<close>

definition space_encodings :: "string list" where
  "space_encodings =
     [[CHR 0x09], [CHR 0x0A], [CHR 0x0B], [CHR 0x0C], [CHR 0x0D], [CHR 0x20],
      [CHR 0xC2, CHR 0x85], [CHR 0xC2, CHR 0xA0], [CHR 0xE1, CHR 0x9A, CHR 0x80]]
     @ map (\<lambda>c. [CHR 0xE2, CHR 0x80, c])
         [CHR 0x80, CHR 0x81, CHR 0x82, CHR 0x83, CHR 0x84, CHR 0x85, CHR 0x86, CHR 0x87,
          CHR 0x88, CHR 0x89, CHR 0x8A, CHR 0xA8, CHR 0xA9, CHR 0xAF]
     @ [[CHR 0xE2, CHR 0x81, CHR 0x9F], [CHR 0xE3, CHR 0x80, CHR 0x80]]"

fun drop_first_match :: "string list \<Rightarrow> string \<Rightarrow> string option" where
  "drop_first_match [] s = None"
| "drop_first_match (p # ps) s =
     (if p \<noteq> [] \<and> HasPrefix s p then Some (drop (length p) s) else drop_first_match ps s)"

lemma drop_first_match_shorter: "drop_first_match ps s = Some t \<Longrightarrow> length t < length s"
  by (induction ps)
    (auto simp: HasPrefix_def length_greater_0_conv[symmetric] simp del: length_greater_0_conv
       split: if_splits)

function trim_left :: "string list \<Rightarrow> string \<Rightarrow> string" where
  "trim_left ps s = (case drop_first_match ps s of None \<Rightarrow> s | Some t \<Rightarrow> trim_left ps t)"
  by pat_completeness auto
termination
  by (relation "measure (\<lambda>(ps, s). length s)") (auto dest: drop_first_match_shorter)

declare trim_left.simps [simp del]

definition TrimSpace :: "string \<Rightarrow> string" where
  "TrimSpace s =
     rev (trim_left (map rev space_encodings) (rev (trim_left space_encodings s)))"

subsection \<open>Numbers in decimal and bytes in hexadecimal\<close>

definition digit_char :: "nat \<Rightarrow> char" where
  "digit_char d = ''0123456789abcdef'' ! d"

fun dec_nat :: "nat \<Rightarrow> string" where
  "dec_nat n = (if n < 10 then [digit_char n] else dec_nat (n div 10) @ [digit_char (n mod 10)])"

declare dec_nat.simps [simp del]

definition dec_int :: "int \<Rightarrow> string" where
  "dec_int i = (if i < 0 then CHR ''-'' # dec_nat (nat (- i)) else dec_nat (nat i))"

definition hex_digit :: "char \<Rightarrow> nat option" where
  "hex_digit c =
     (if CHR ''0'' \<le> c \<and> c \<le> CHR ''9'' then Some (of_char c - 48)
      else if CHR ''a'' \<le> c \<and> c \<le> CHR ''f'' then Some (of_char c - 87)
      else if CHR ''A'' \<le> c \<and> c \<le> CHR ''F'' then Some (of_char c - 55)
      else None)"

definition hex_byte :: "char \<Rightarrow> string" where
  "hex_byte c = [digit_char (of_char c div 16), digit_char (of_char c mod 16)]"

definition hex_EncodeToString :: "string \<Rightarrow> string" where
  "hex_EncodeToString bs = concat (map hex_byte bs)"

fun hex_DecodeString :: "string \<Rightarrow> string option" where
  "hex_DecodeString [] = Some []"
| "hex_DecodeString [c] = None"
| "hex_DecodeString (c # d # s) =
     (case (hex_digit c, hex_digit d, hex_DecodeString s) of
        (Some h, Some l, Some bs) \<Rightarrow> Some (char_of (h * 16 + l) # bs)
      | _ \<Rightarrow> None)"

lemmas [go_defs] = HasPrefix_def HasSuffix_def TrimPrefix_def TrimSuffix_def ToLower_def

subsection \<open>Facts about strings\<close>

lemma HasPrefix_append [simp]: "HasPrefix (p @ s) p"
  by (simp add: HasPrefix_def)

lemma HasPrefix_iff: "HasPrefix s p \<longleftrightarrow> (\<exists>t. s = p @ t)"
  by (metis HasPrefix_append HasPrefix_def append_take_drop_id)

lemma TrimPrefix_append [simp]: "TrimPrefix (p @ s) p = s"
  by (simp add: TrimPrefix_def)

lemma HasSuffix_append [simp]: "HasSuffix (s @ p) p"
  by (simp add: HasSuffix_def)

lemma HasSuffix_iff: "HasSuffix s p \<longleftrightarrow> (\<exists>t. s = t @ p)"
  by (metis HasSuffix_append HasSuffix_def append_take_drop_id)

lemma TrimSuffix_append [simp]: "TrimSuffix (s @ p) p = s"
  by (simp add: TrimSuffix_def)

lemma strings_Contains_char [simp]: "strings_Contains s [c] \<longleftrightarrow> c \<in> set s"
  by (induction s) (auto simp: HasPrefix_def)

lemma Split_not_Nil [simp]: "Split s sep \<noteq> []"
  by (cases s) (auto split: list.split)

lemma Split_no_sep [simp]: "sep \<notin> set s \<Longrightarrow> Split s sep = [s]"
  by (induction s) auto

lemma Split_append_sep: "sep \<notin> set s \<Longrightarrow> Split (s @ sep # t) sep = s # Split t sep"
  by (induction s) auto

lemma Split_append: "Split (s @ sep # t) sep = Split s sep @ Split t sep"
  by (induction s) (auto split: list.split)

lemma Split_parts: "p \<in> set (Split s sep) \<Longrightarrow> sep \<notin> set p"
  by (induction s arbitrary: p) (auto split: if_splits list.splits)

lemma Join_Split: "strings_Join (Split s sep) [sep] = s"
proof (induction s)
  case (Cons c s)
  then show ?case by (cases "Split s sep" rule: list.exhaust[case_product list.exhaust])
      (auto split: list.split, (metis Split_not_Nil strings_Join.simps(2,3) append_Cons list.exhaust)+)
qed simp

lemma Cut_no_sep: "sep \<notin> set s \<Longrightarrow> Cut s sep = (s, [], False)"
  by (induction s) auto

lemma Cut_append: "sep \<notin> set s \<Longrightarrow> Cut (s @ sep # t) sep = (s, t, True)"
  by (induction s) auto

lemma LastIndex_no_sep: "sep \<notin> set s \<Longrightarrow> LastIndex s sep = -1"
  by (induction s) auto

lemma LastIndex_ge: "-1 \<le> LastIndex s sep"
  by (induction s) (auto simp: Let_def)

lemma LastIndex_append: "sep \<notin> set t \<Longrightarrow> LastIndex (s @ sep # t) sep = int (length s)"
  by (induction s) (auto simp: LastIndex_no_sep)

lemma Split_single: "Split s sep = [p] \<Longrightarrow> p = s \<and> sep \<notin> set s"
  by (induction s arbitrary: p) (auto split: if_splits list.splits)

lemma LastIndex_nonneg: "0 \<le> LastIndex s sep \<longleftrightarrow> sep \<in> set s"
  by (induction s) (auto simp: Let_def)

lemma last_Split_Cons: "sep \<in> set s \<Longrightarrow> last (Split (c # s) sep) = last (Split s sep)"
proof (cases "Split s sep")
  case (Cons p ps)
  assume "sep \<in> set s"
  with Cons have "ps \<noteq> []" by (metis Split_single)
  with Cons show ?thesis by simp
qed simp

lemma drop_LastIndex: "drop (nat (LastIndex s sep + 1)) s = last (Split s sep)"
proof (induction s)
  case (Cons c s)
  show ?case
  proof (cases "sep \<in> set s")
    case True
    then have "0 \<le> LastIndex s sep" by (simp add: LastIndex_nonneg)
    then have "drop (nat (LastIndex (c # s) sep + 1)) (c # s) = drop (nat (LastIndex s sep + 1)) s"
      by (simp add: nat_add_distrib)
    with Cons True show ?thesis by (simp only: last_Split_Cons)
  next
    case False
    then show ?thesis by (simp add: LastIndex_no_sep)
  qed
qed simp

lemma digit_char_table:
  "list_all (\<lambda>d. hex_digit (digit_char d) = Some d \<and> digit_char d \<notin> {CHR ''/'', CHR ''.'', CHR '':''}
     \<and> to_lower_char (digit_char d) = digit_char d) [0..<16]"
  by code_simp

lemma digit_char_facts:
  assumes "d < 16"
  shows "hex_digit (digit_char d) = Some d"
    and "digit_char d \<noteq> CHR ''/''" and "digit_char d \<noteq> CHR ''.''" and "digit_char d \<noteq> CHR '':''"
    and "to_lower_char (digit_char d) = digit_char d"
  using digit_char_table assms by (auto simp: list_all_iff)

lemma of_char_div_16 [simp]: "(of_char c :: nat) div 16 < 16" "(of_char c :: nat) mod 16 < 16"
proof -
  have "(of_char c :: nat) < 256" by simp
  then show "(of_char c :: nat) div 16 < 16" by (simp add: less_mult_imp_div_less)
qed simp

lemma length_hex_EncodeToString [simp]: "length (hex_EncodeToString bs) = 2 * length bs"
  by (induction bs) (simp_all add: hex_EncodeToString_def hex_byte_def)

lemma hex_roundtrip [simp]: "hex_DecodeString (hex_EncodeToString bs) = Some bs"
  by (induction bs) (simp_all add: hex_EncodeToString_def hex_byte_def digit_char_facts)

lemma set_hex_EncodeToString: "set (hex_EncodeToString bs) \<subseteq> digit_char ` {..<16}"
  by (induction bs) (auto simp: hex_EncodeToString_def hex_byte_def)

lemma hex_EncodeToString_no_sep [simp]:
  "CHR ''/'' \<notin> set (hex_EncodeToString bs)" "CHR ''.'' \<notin> set (hex_EncodeToString bs)"
  using set_hex_EncodeToString[of bs] by (auto dest!: subsetD[where B = "_ ` _"] simp: image_iff) (metis lessThan_iff digit_char_facts(2,3))+

lemma ToLower_hex [simp]: "ToLower (hex_EncodeToString bs) = hex_EncodeToString bs"
  unfolding ToLower_def
  by (rule map_idI) (use set_hex_EncodeToString[of bs] in \<open>auto simp: digit_char_facts\<close>)

lemma length_hex_DecodeString: "hex_DecodeString s = Some bs \<Longrightarrow> length s = 2 * length bs"
  by (induction s arbitrary: bs rule: hex_DecodeString.induct) (auto split: option.splits)

subsection \<open>Decimal numbers are determined by their digits\<close>

definition dec_value :: "string \<Rightarrow> nat" where
  "dec_value = foldl (\<lambda>a c. 10 * a + (of_char c - 48)) 0"

lemma dec_digit_table:
  "list_all (\<lambda>d. (of_char (digit_char d) :: nat) - 48 = d \<and>
     digit_char d \<notin> {CHR 0x00, CHR ''-'', CHR ''/'', CHR ''=''}) [0..<10]"
  by code_simp

lemma dec_value_dec_nat: "dec_value (dec_nat n) = n"
proof (induction n rule: dec_nat.induct)
  case (1 n)
  have digit: "d < 10 \<Longrightarrow> (of_char (digit_char d) :: nat) - 48 = d" for d
    using dec_digit_table by (auto simp: list_all_iff)
  show ?case
  proof (cases "n < 10")
    case False
    with 1 have "dec_value (dec_nat (n div 10) @ [digit_char (n mod 10)]) = n"
      by (simp add: dec_value_def digit)
    with False show ?thesis by (subst dec_nat.simps) simp
  qed (simp add: dec_nat.simps dec_value_def digit)
qed

lemma dec_nat_inj [simp]: "dec_nat m = dec_nat n \<longleftrightarrow> m = n"
  by (metis dec_value_dec_nat)

lemma set_dec_nat: "set (dec_nat n) \<subseteq> digit_char ` {..<10}"
  by (induction n rule: dec_nat.induct) (subst dec_nat.simps, auto)

text \<open>A string of bytes up to NUL orders like the pair of what is before and after it.\<close>

lemma dec_nat_no_sep [simp]:
  "CHR 0x00 \<notin> set (dec_nat n)" "CHR ''-'' \<notin> set (dec_nat n)" "CHR ''/'' \<notin> set (dec_nat n)"
  "CHR ''='' \<notin> set (dec_nat n)"
  using set_dec_nat[of n] dec_digit_table by (fastforce simp: list_all_iff)+

lemma nul_not_less: "\<not> c < CHR 0x00" "c \<noteq> CHR 0x00 \<Longrightarrow> CHR 0x00 < c" for c :: char
proof -
  have "(of_char c :: nat) = 0 \<longleftrightarrow> c = CHR 0x00"
    using of_char_eq_iff[of c "CHR 0x00", where 'a = nat] by simp
  then show "\<not> c < CHR 0x00" "c \<noteq> CHR 0x00 \<Longrightarrow> CHR 0x00 < c" by (auto simp: less_char_def)
qed

lemma nul_join_less:
  fixes a a' b b' :: string
  assumes "CHR 0x00 \<notin> set a" and "CHR 0x00 \<notin> set a'"
  shows "a @ CHR 0x00 # b < a' @ CHR 0x00 # b' \<longleftrightarrow> (a, b) < (a', b')"
  using assms
proof (induction a arbitrary: a')
  case Nil
  then show ?case by (cases a') (auto simp: nul_not_less)
next
  case (Cons c a)
  then show ?case by (cases a') (auto simp: nul_not_less)
qed

end
