(* ===== verification/Coordination_Api.thy ===== *)
theory Coordination_Api
  imports Go_Prelude
begin

text \<open>
  The wire types of \<open>src/internal/agent/api/coordination.pb.go\<close> and the stream adapter of
  \<open>src/internal/agent/api/grpc.go\<close>.

  A repeated message field is a slice of pointers; its elements are options, since the code
  checks them for nil before it uses them. The message of a \<open>oneof\<close> is a constructor,
  \<open>CM_Empty\<close> when it is not set.
\<close>

section \<open>Messages\<close>

record TargetPort =
  tp_Name :: string
  tp_Protocol :: string
  tp_ServicePort :: "32 word"
  tp_TargetPort :: "32 word"

record Endpoint =
  ep_Service :: string
  ep_PodUid :: string
  ep_Address :: string
  ep_Ports :: "TargetPort option list"
  ep_NodeGroup :: string
  ep_Namespace :: string

record api_Service =
  svc_Name :: string
  svc_Fqdn :: string
  svc_Vip :: string
  svc_Ports :: "TargetPort option list"
  svc_Backends :: "Endpoint option list"
  svc_NodeGroup :: string
  svc_Namespace :: string

record NodeState =
  ns_SessionId :: string
  ns_Sequence :: "64 word"
  ns_ConfigDigest :: string
  ns_Endpoints :: "Endpoint option list"

record Hello =
  hello_NodeId :: string
  hello_Cluster :: string
  hello_NodeGroup :: string
  hello_SessionId :: string
  hello_ConfigDigest :: string
  hello_Services :: "api_Service option list"
  hello_Ipv6Prefix :: string

record Drain =
  drain_SessionId :: string

record Ack =
  ack_Sequence :: "64 word"

record Snapshot =
  sn_Generation :: "64 word"
  sn_Revision :: "64 word"
  sn_LeaderId :: string
  sn_ConfigDigest :: string
  sn_Services :: "api_Service option list"

datatype ClientMessage = CM_Hello Hello | CM_NodeState NodeState | CM_Drain Drain | CM_Empty

datatype ServerMessage = SM_Ack Ack | SM_Snapshot Snapshot

text \<open>The empty message \<open>new(api.Snapshot)\<close>.\<close>

definition SnapshotZero :: Snapshot where
  "SnapshotZero = \<lparr>sn_Generation = 0, sn_Revision = 0, sn_LeaderId = [], sn_ConfigDigest = [],
     sn_Services = []\<rparr>"

section \<open>The server side of a stream\<close>

text \<open>
  \<open>Sync\<close> selects among a receive error, an update of its subscription and a received
  message; a run is the list of what it selects, in order. \<open>handle\<close> is the backend, with its
  state, and \<open>send\<close> says whether sending a message fails, given what was sent before.
\<close>

datatype sync_event = ReceiveError error | Update ServerMessage | Incoming ClientMessage

record 'b sync_state =
  sync_session :: string
  sync_backend :: 'b
  sync_sent :: "ServerMessage list"

definition io_EOF :: error where
  "io_EOF = Sentinel ''EOF''"

definition sync_send ::
  "(ServerMessage list \<Rightarrow> ServerMessage \<Rightarrow> error option) \<Rightarrow> ServerMessage \<Rightarrow> ServerMessage list
     \<Rightarrow> error + ServerMessage list" where
  "sync_send send message sent =
     (case send sent message of Some e \<Rightarrow> Inl e | None \<Rightarrow> Inr (sent @ [message]))"

text \<open>The guard of a received message: the session of the stream after it, or an error.\<close>

definition sync_admit :: "string \<Rightarrow> ClientMessage \<Rightarrow> error + string" where
  "sync_admit session message =
     (case message of
        CM_Hello h \<Rightarrow>
          if session \<noteq> [] \<or> hello_SessionId h = []
          then Inl (errors_New ''coordination stream must contain exactly one initial hello'')
          else Inr (hello_SessionId h)
      | CM_NodeState s \<Rightarrow>
          if session = [] \<or> ns_SessionId s \<noteq> session
          then Inl (errors_New ''node state does not belong to this coordination stream'')
          else Inr session
      | CM_Drain d \<Rightarrow>
          if session = [] \<or> drain_SessionId d \<noteq> session
          then Inl (errors_New ''drain does not belong to this coordination stream'')
          else Inr session
      | CM_Empty \<Rightarrow> Inl (errors_New ''empty coordination stream message''))"

text \<open>
  One selected event. The first component is \<^term>\<open>None\<close> when the loop goes on and
  \<^term>\<open>Some r\<close> when \<open>Sync\<close> returns \<open>r\<close>, an error or nil. What was sent before a failing
  send is kept.
\<close>

fun sync_send_all ::
  "(ServerMessage list \<Rightarrow> ServerMessage \<Rightarrow> error option) \<Rightarrow> ServerMessage list \<Rightarrow> ServerMessage list
     \<Rightarrow> error option \<times> ServerMessage list" where
  "sync_send_all send [] sent = (None, sent)"
| "sync_send_all send (m # ms) sent =
     (case sync_send send m sent of
        Inl e \<Rightarrow> (Some e, sent)
      | Inr sent' \<Rightarrow> sync_send_all send ms sent')"

definition sync_step ::
  "(ClientMessage \<Rightarrow> 'b \<Rightarrow> (error + ServerMessage list) \<times> 'b)
     \<Rightarrow> (ServerMessage list \<Rightarrow> ServerMessage \<Rightarrow> error option)
     \<Rightarrow> sync_event \<Rightarrow> 'b sync_state \<Rightarrow> error option option \<times> 'b sync_state" where
  "sync_step handle send event st =
     (case event of
        ReceiveError e \<Rightarrow> (Some (if e = io_EOF then None else Some e), st)
      | Update m \<Rightarrow>
          if sync_session st = [] then (None, st)
          else (case sync_send send m (sync_sent st) of
                  Inl e \<Rightarrow> (Some (Some e), st)
                | Inr sent' \<Rightarrow> (None, st\<lparr>sync_sent := sent'\<rparr>))
      | Incoming message \<Rightarrow>
          (case sync_admit (sync_session st) message of
             Inl e \<Rightarrow> (Some (Some e), st)
           | Inr session' \<Rightarrow>
               (case handle message (sync_backend st) of
                  (Inl e, b) \<Rightarrow> (Some (Some e), st\<lparr>sync_session := session', sync_backend := b\<rparr>)
                | (Inr responses, b) \<Rightarrow>
                    (let (r, sent') = sync_send_all send responses (sync_sent st)
                     in (map_option Some r,
                         st\<lparr>sync_session := session', sync_backend := b, sync_sent := sent'\<rparr>)))))"

fun Sync_loop ::
  "(ClientMessage \<Rightarrow> 'b \<Rightarrow> (error + ServerMessage list) \<times> 'b)
     \<Rightarrow> (ServerMessage list \<Rightarrow> ServerMessage \<Rightarrow> error option)
     \<Rightarrow> sync_event list \<Rightarrow> 'b sync_state \<Rightarrow> error option option \<times> 'b sync_state" where
  "Sync_loop handle send [] st = (None, st)"
| "Sync_loop handle send (e # es) st =
     (case sync_step handle send e st of
        (Some r, st') \<Rightarrow> (Some r, st')
      | (None, st') \<Rightarrow> Sync_loop handle send es st')"

definition Sync ::
  "(ClientMessage \<Rightarrow> 'b \<Rightarrow> (error + ServerMessage list) \<times> 'b)
     \<Rightarrow> (ServerMessage list \<Rightarrow> ServerMessage \<Rightarrow> error option)
     \<Rightarrow> sync_event list \<Rightarrow> 'b \<Rightarrow> error option option \<times> 'b sync_state" where
  "Sync handle send events backend =
     Sync_loop handle send events \<lparr>sync_session = [], sync_backend = backend, sync_sent = []\<rparr>"

section \<open>The client side of a stream\<close>

text \<open>
  The receiving loop of \<open>Follow\<close>: messages are applied in order until the stream ends, fails,
  or an application fails. When it ends, an error that the sending goroutine has reported
  takes precedence; \<open>reported\<close> is what that goroutine has put in its channel, if anything.
\<close>

fun Follow_loop ::
  "(ServerMessage \<Rightarrow> 'b \<Rightarrow> error option \<times> 'b) \<Rightarrow> error option option
     \<Rightarrow> (error + ServerMessage) list \<Rightarrow> 'b \<Rightarrow> error option option \<times> 'b" where
  "Follow_loop apply reported [] b = (None, b)"
| "Follow_loop apply reported (Inl e # rest) b =
     (Some (case reported of Some r \<Rightarrow> r | None \<Rightarrow> if e = io_EOF then None else Some e), b)"
| "Follow_loop apply reported (Inr m # rest) b =
     (case apply m b of
        (Some e, b') \<Rightarrow> (Some (Some e), b')
      | (None, b') \<Rightarrow> Follow_loop apply reported rest b')"

section \<open>What the backend sees\<close>

text \<open>A backend that records the messages it is given.\<close>

definition recorded ::
  "(ClientMessage \<Rightarrow> 'b \<Rightarrow> (error + ServerMessage list) \<times> 'b)
     \<Rightarrow> ClientMessage \<Rightarrow> 'b \<times> ClientMessage list \<Rightarrow> (error + ServerMessage list) \<times> 'b \<times> ClientMessage list" where
  "recorded handle m = (\<lambda>(b, log). let (r, b') = handle m b in (r, b', log @ [m]))"

definition of_session :: "string \<Rightarrow> ClientMessage \<Rightarrow> bool" where
  "of_session session m =
     (case m of
        CM_NodeState s \<Rightarrow> ns_SessionId s = session
      | CM_Drain d \<Rightarrow> drain_SessionId d = session
      | _ \<Rightarrow> False)"

text \<open>The messages a stream has passed to its backend and sent, its session being \<open>session\<close>.\<close>

definition session_log :: "string \<Rightarrow> ClientMessage list \<Rightarrow> ServerMessage list \<Rightarrow> bool" where
  "session_log session log sent =
     (case log of
        [] \<Rightarrow> session = [] \<and> sent = []
      | CM_Hello h # rest \<Rightarrow>
          session \<noteq> [] \<and> hello_SessionId h = session \<and> list_all (of_session session) rest
      | _ \<Rightarrow> False)"

lemma session_log_admit:
  assumes "session_log session log sent" and "sync_admit session m = Inr session'"
  shows "session_log session' (log @ [m]) sent'"
  using assms
  by (cases m; cases log rule: list.exhaust; cases "hd log")
    (auto simp: session_log_def sync_admit_def of_session_def split: if_splits)

lemma session_log_sent:
  "session_log session log sent \<Longrightarrow> session \<noteq> [] \<Longrightarrow> session_log session log sent'"
  by (auto simp: session_log_def split: list.splits ClientMessage.splits)

definition stream_inv :: "('b \<times> ClientMessage list) sync_state \<Rightarrow> bool" where
  "stream_inv st \<longleftrightarrow> session_log (sync_session st) (snd (sync_backend st)) (sync_sent st)"

lemma sync_step_inv:
  assumes "stream_inv st"
  shows "stream_inv (snd (sync_step (recorded handle) send event st))"
proof (cases event)
  case (Incoming m)
  show ?thesis
  proof (cases "sync_admit (sync_session st) m")
    case (Inr session')
    obtain b log where b: "sync_backend st = (b, log)" by fastforce
    from assms have "session_log (sync_session st) log (sync_sent st)" by (simp add: stream_inv_def b)
    from session_log_admit[OF this Inr] show ?thesis
      by (auto simp: sync_step_def Incoming Inr b recorded_def stream_inv_def
          split: prod.splits sum.splits)
  qed (use assms in \<open>simp add: sync_step_def Incoming\<close>)
qed (use assms in \<open>auto simp: sync_step_def stream_inv_def split: sum.splits intro: session_log_sent\<close>)

lemma Sync_loop_inv:
  "stream_inv st \<Longrightarrow> stream_inv (snd (Sync_loop (recorded handle) send events st))"
proof (induction events arbitrary: st)
  case (Cons e es)
  obtain r st' where step: "sync_step (recorded handle) send e st = (r, st')" by fastforce
  with sync_step_inv[OF Cons.prems, of handle send e] have "stream_inv st'" by simp
  with Cons.IH step show ?case by (simp split: option.splits)
qed simp

text \<open>
  C22: on every coordination stream, whatever the client sends and however the events
  interleave, the backend is handed nothing at all or one Hello with a session first, and
  after it only node states and drains of that session; and as long as no Hello has been
  accepted nothing is sent on the stream.
\<close>

theorem sync_session_protocol:
  fixes handle :: "ClientMessage \<Rightarrow> 'b \<Rightarrow> (error + ServerMessage list) \<times> 'b"
  shows "let (r, st) = Sync (recorded handle) send events (b, [])
     in session_log (sync_session st) (snd (sync_backend st)) (sync_sent st)"
  using Sync_loop_inv[of "\<lparr>sync_session = [], sync_backend = (b, []), sync_sent = []\<rparr>" handle send events]
  by (simp add: Sync_def stream_inv_def session_log_def case_prod_beta)

end
