(* ===== verification/Netip.thy ===== *)
theory Netip
  imports Go_Prelude
begin

text \<open>
  The part of the standard package \<open>net/netip\<close> that Podmin uses: addresses, prefixes,
  their classification, and their textual form. An IPv6 address, and an array of sixteen
  bytes, is a 128-bit word in network order, so that the unsigned order of the words is
  the lexicographic order of the bytes.

  The main fact is \<open>ParseAddr_String\<close>: \<open>netip.ParseAddr\<close> inverts \<open>Addr.String\<close> on
  every IPv6 address that is not IPv4-mapped and has no zone, zero compression included.
\<close>

unbundle bit_operations_syntax

section \<open>Addresses and prefixes\<close>

datatype addr =
    AddrZero
  | Addr4 "32 word"
  | Addr6 "128 word" string

type_synonym ip16 = "128 word"

record prefix =
  prefix_Addr :: addr
  prefix_Bits :: "nat option"

definition Is4 :: "addr \<Rightarrow> bool" where
  "Is4 a = (case a of Addr4 _ \<Rightarrow> True | _ \<Rightarrow> False)"

definition Is6 :: "addr \<Rightarrow> bool" where
  "Is6 a = (case a of Addr6 _ _ \<Rightarrow> True | _ \<Rightarrow> False)"

definition Is4In6 :: "addr \<Rightarrow> bool" where
  "Is4In6 a = (case a of Addr6 w _ \<Rightarrow> drop_bit 32 w = 0xffff | _ \<Rightarrow> False)"

definition addr_IsValid :: "addr \<Rightarrow> bool" where
  "addr_IsValid a \<longleftrightarrow> a \<noteq> AddrZero"

definition Unmap :: "addr \<Rightarrow> addr" where
  "Unmap a = (case a of Addr6 w _ \<Rightarrow> if Is4In6 a then Addr4 (ucast w) else a | _ \<Rightarrow> a)"

definition IsLoopback :: "addr \<Rightarrow> bool" where
  "IsLoopback a =
     (case Unmap a of AddrZero \<Rightarrow> False | Addr4 w \<Rightarrow> drop_bit 24 w = 127 | Addr6 w _ \<Rightarrow> w = 1)"

definition IsMulticast :: "addr \<Rightarrow> bool" where
  "IsMulticast a =
     (case Unmap a of AddrZero \<Rightarrow> False | Addr4 w \<Rightarrow> drop_bit 28 w = 0xe
      | Addr6 w _ \<Rightarrow> drop_bit 120 w = 0xff)"

definition IsLinkLocalUnicast :: "addr \<Rightarrow> bool" where
  "IsLinkLocalUnicast a =
     (case Unmap a of AddrZero \<Rightarrow> False | Addr4 w \<Rightarrow> drop_bit 16 w = 0xa9fe
      | Addr6 w _ \<Rightarrow> drop_bit 118 w = 0x3fa)"

definition IsGlobalUnicast :: "addr \<Rightarrow> bool" where
  "IsGlobalUnicast a \<longleftrightarrow>
     a \<noteq> AddrZero \<and> a \<noteq> Addr4 0 \<and> a \<noteq> Addr4 0xffffffff \<and> a \<noteq> Addr6 0 [] \<and>
     \<not> IsLoopback a \<and> \<not> IsMulticast a \<and> \<not> IsLinkLocalUnicast a"

definition As16 :: "addr \<Rightarrow> ip16" where
  "As16 a = (case a of AddrZero \<Rightarrow> 0 | Addr4 w \<Rightarrow> 0xffff00000000 OR ucast w | Addr6 w _ \<Rightarrow> w)"

definition AddrFrom16 :: "ip16 \<Rightarrow> addr" where
  "AddrFrom16 w = Addr6 w []"

definition mask6 :: "nat \<Rightarrow> 128 word" where
  "mask6 n = push_bit (128 - n) (mask n)"

definition mask4 :: "nat \<Rightarrow> 32 word" where
  "mask4 n = push_bit (32 - n) (mask n)"

definition prefix_IsValid :: "prefix \<Rightarrow> bool" where
  "prefix_IsValid p \<longleftrightarrow> prefix_Bits p \<noteq> None"

definition PrefixZero :: prefix where
  "PrefixZero = \<lparr>prefix_Addr = AddrZero, prefix_Bits = None\<rparr>"

text \<open>\<open>Prefix.Bits\<close> returns -1 for an invalid prefix.\<close>

definition bits_of :: "prefix \<Rightarrow> int" where
  "bits_of p = (case prefix_Bits p of None \<Rightarrow> -1 | Some n \<Rightarrow> int n)"

definition Masked :: "prefix \<Rightarrow> prefix" where
  "Masked p =
     (case prefix_Bits p of
        None \<Rightarrow> PrefixZero
      | Some n \<Rightarrow>
          (case prefix_Addr p of
             AddrZero \<Rightarrow> PrefixZero
           | Addr4 w \<Rightarrow> \<lparr>prefix_Addr = Addr4 (w AND mask4 n), prefix_Bits = Some n\<rparr>
           | Addr6 w z \<Rightarrow> \<lparr>prefix_Addr = Addr6 (w AND mask6 n) [], prefix_Bits = Some n\<rparr>))"

definition prefix_Contains :: "prefix \<Rightarrow> addr \<Rightarrow> bool" where
  "prefix_Contains p a =
     (case (prefix_Bits p, prefix_Addr p, a) of
        (Some n, Addr4 w, Addr4 v) \<Rightarrow> (w XOR v) AND mask4 n = 0
      | (Some n, Addr6 w _, Addr6 v z) \<Rightarrow> z = [] \<and> (w XOR v) AND mask6 n = 0
      | _ \<Rightarrow> False)"

section \<open>Textual form\<close>

fun hex_nat :: "nat \<Rightarrow> string" where
  "hex_nat n = (if n < 16 then [digit_char n] else hex_nat (n div 16) @ [digit_char (n mod 16)])"

declare hex_nat.simps [simp del]

definition hex_group :: "16 word \<Rightarrow> string" where
  "hex_group g = hex_nat (unat g)"

definition groups_of :: "128 word \<Rightarrow> 16 word list" where
  "groups_of w = map (\<lambda>i. ucast (drop_bit (16 * i) w)) [7, 6, 5, 4, 3, 2, 1, 0]"

fun word_of_groups :: "16 word list \<Rightarrow> 128 word" where
  "word_of_groups [] = 0"
| "word_of_groups (g # gs) = push_bit (16 * length gs) (ucast g) OR word_of_groups gs"

text \<open>The first of the longest runs of at least two zero groups; none is \<open>(255, 255)\<close>.\<close>

definition run_step :: "16 word list \<Rightarrow> nat \<times> nat \<Rightarrow> nat \<Rightarrow> nat \<times> nat" where
  "run_step gs = (\<lambda>(st, en) i.
     let j = i + length (takeWhile (\<lambda>g. g = 0) (drop i gs))
     in if 2 \<le> j - i \<and> en - st < j - i then (i, j) else (st, en))"

definition zero_run :: "16 word list \<Rightarrow> nat \<times> nat" where
  "zero_run gs = foldl (run_step gs) (255, 255) [0..<length gs]"

definition join_groups :: "16 word list \<Rightarrow> string" where
  "join_groups gs = strings_Join (map hex_group gs) '':''"

definition string6 :: "128 word \<Rightarrow> string" where
  "string6 w =
     (let gs = groups_of w; (st, en) = zero_run gs
      in if st = 255 then join_groups gs
         else join_groups (take st gs) @ ''::'' @ join_groups (drop en gs))"

definition string4 :: "32 word \<Rightarrow> string" where
  "string4 w =
     strings_Join (map (\<lambda>i. dec_nat (unat (drop_bit (8 * i) w AND 0xff))) [3, 2, 1, 0]) ''.''"

definition addr_String :: "addr \<Rightarrow> string" where
  "addr_String a =
     (case a of
        AddrZero \<Rightarrow> ''invalid IP''
      | Addr4 w \<Rightarrow> string4 w
      | Addr6 w z \<Rightarrow>
          (if Is4In6 a then ''::ffff:'' @ string4 (ucast w) else string6 w)
          @ (if z = [] then [] else CHR ''%'' # z))"

definition prefix_String :: "prefix \<Rightarrow> string" where
  "prefix_String p =
     (case prefix_Bits p of
        None \<Rightarrow> ''invalid Prefix''
      | Some n \<Rightarrow> addr_String (prefix_Addr p) @ ''/'' @ dec_nat n)"

definition dec_digit :: "char \<Rightarrow> nat option" where
  "dec_digit c = (if CHR ''0'' \<le> c \<and> c \<le> CHR ''9'' then Some (of_char c - 48) else None)"

fun dec_value :: "nat \<Rightarrow> string \<Rightarrow> nat option" where
  "dec_value acc [] = Some acc"
| "dec_value acc (c # s) = (case dec_digit c of None \<Rightarrow> None | Some d \<Rightarrow> dec_value (acc * 10 + d) s)"

text \<open>A field of a dotted IPv4 address: no leading zero, at most 255.\<close>

definition parse_octet :: "string \<Rightarrow> nat option" where
  "parse_octet s =
     (if s = [] \<or> (hd s = CHR ''0'' \<and> 1 < length s) then None
      else case dec_value 0 s of None \<Rightarrow> None | Some v \<Rightarrow> if v \<le> 255 then Some v else None)"

definition parse4 :: "string \<Rightarrow> 32 word option" where
  "parse4 s =
     (case map parse_octet (Split s CHR ''.'') of
        [Some a, Some b, Some c, Some d] \<Rightarrow> Some (((of_nat a * 256 + of_nat b) * 256 + of_nat c) * 256 + of_nat d)
      | _ \<Rightarrow> None)"

definition is_hex :: "char \<Rightarrow> bool" where
  "is_hex c \<longleftrightarrow> hex_digit c \<noteq> None"

definition hex_value :: "string \<Rightarrow> nat" where
  "hex_value ds = foldl (\<lambda>acc c. acc * 16 + the (hex_digit c)) 0 ds"

text \<open>
  The loop of \<open>parseIPv6\<close>: at most \<open>n\<close> more groups, the groups read, the position of the
  ellipsis, and the text that remains.
\<close>

fun parse6_loop ::
  "nat \<Rightarrow> 16 word list \<Rightarrow> nat option \<Rightarrow> string \<Rightarrow> (16 word list \<times> nat option \<times> string) option"
where
  "parse6_loop 0 gs e s = Some (gs, e, s)"
| "parse6_loop (Suc n) gs e s =
     (let ds = takeWhile is_hex s;
          rest = dropWhile is_hex s;
          gs' = gs @ [of_nat (hex_value ds)]
      in if ds = [] \<or> 4 < length ds then None
         else if rest = [] then Some (gs', e, [])
         else if hd rest = CHR ''.'' then
           (if (e = None \<and> length gs \<noteq> 6) \<or> 6 < length gs then None
            else case parse4 s of
                   None \<Rightarrow> None
                 | Some v \<Rightarrow> Some (gs @ [ucast (drop_bit 16 v), ucast v], e, []))
         else if hd rest \<noteq> CHR '':'' \<or> tl rest = [] then None
         else if hd (tl rest) = CHR '':'' then
           (if e \<noteq> None then None
            else if tl (tl rest) = [] then Some (gs', Some (length gs'), [])
            else parse6_loop n gs' (Some (length gs')) (tl (tl rest)))
         else parse6_loop n gs' e (tl rest))"

definition expand6 :: "16 word list \<Rightarrow> nat option \<Rightarrow> 128 word option" where
  "expand6 gs e =
     (case e of
        None \<Rightarrow> if length gs = 8 then Some (word_of_groups gs) else None
      | Some k \<Rightarrow>
          if length gs < 8
          then Some (word_of_groups (take k gs @ replicate (8 - length gs) 0 @ drop k gs))
          else None)"

definition parse6_body :: "string \<Rightarrow> 128 word option" where
  "parse6_body s =
     (if s = ''::'' then Some 0
      else case (if HasPrefix s ''::'' then parse6_loop 8 [] (Some 0) (drop 2 s)
                 else parse6_loop 8 [] None s) of
             Some (gs, e, []) \<Rightarrow> expand6 gs e
           | _ \<Rightarrow> None)"

definition parse6 :: "string \<Rightarrow> addr option" where
  "parse6 s =
     (case Cut s CHR ''%'' of
        (body, zone, found) \<Rightarrow>
          if found \<and> zone = [] then None
          else map_option (\<lambda>w. Addr6 w zone) (parse6_body body))"

definition ParseAddr :: "string \<Rightarrow> addr option" where
  "ParseAddr s =
     (case filter (\<lambda>c. c \<in> {CHR ''.'', CHR '':'', CHR ''%''}) s of
        [] \<Rightarrow> None
      | c # _ \<Rightarrow>
          if c = CHR ''.'' then map_option Addr4 (parse4 s)
          else if c = CHR '':'' then parse6 s else None)"

text \<open>\<open>netip.ParsePrefix\<close>: an address without a zone, a slash, and a canonical length.\<close>

definition ParsePrefix :: "string \<Rightarrow> prefix option" where
  "ParsePrefix s =
     (let i = LastIndex s CHR ''/'' in
      if i < 0 then None
      else case ParseAddr (take (nat i) s) of
             None \<Rightarrow> None
           | Some a \<Rightarrow>
               let b = drop (nat i + 1) s
               in if (case a of Addr6 _ z \<Rightarrow> z \<noteq> [] | _ \<Rightarrow> False) \<or> b = []
                     \<or> (1 < length b \<and> (hd b < CHR ''1'' \<or> CHR ''9'' < hd b)) then None
                  else case dec_value 0 b of
                         None \<Rightarrow> None
                       | Some n \<Rightarrow>
                           if n \<le> (if Is6 a then 128 else 32)
                           then Some \<lparr>prefix_Addr = a, prefix_Bits = Some n\<rparr> else None)"

section \<open>Parsing inverts printing\<close>

subsection \<open>Groups\<close>

lemma word_of_low_groups:
  "word_of_groups (map (\<lambda>i. ucast (drop_bit (16 * i) w)) (rev [0..<k])) = take_bit (16 * k) w"
proof (induction k)
  case (Suc k)
  have "push_bit (16 * k) (ucast (ucast (drop_bit (16 * k) w) :: 16 word)) OR take_bit (16 * k) w
      = take_bit (16 * Suc k) w"
    by (rule bit_word_eqI) (auto simp: bit_simps)
  with Suc show ?case by simp
qed simp

lemma word_of_groups_of: "word_of_groups (groups_of w) = w"
proof -
  have "groups_of w = map (\<lambda>i. ucast (drop_bit (16 * i) w)) (rev [0..<8])"
    by (simp add: groups_of_def upt_rec)
  moreover have "take_bit 128 w = w" by (rule bit_word_eqI) (simp add: bit_simps)
  ultimately show ?thesis using word_of_low_groups[where w = w and k = 8] by simp
qed

lemma length_groups_of [simp]: "length (groups_of w) = 8"
  by (simp add: groups_of_def)

lemma hex_nat_not_Nil [simp]: "hex_nat n \<noteq> []"
  by (subst hex_nat.simps) simp

lemma length_hex_nat: "n < 16 ^ Suc k \<Longrightarrow> length (hex_nat n) \<le> Suc k"
proof (induction k arbitrary: n)
  case 0
  then show ?case by (simp add: hex_nat.simps)
next
  case (Suc k)
  then have "n div 16 < 16 ^ Suc k" by (simp add: less_mult_imp_div_less mult.commute)
  with Suc.IH[of "n div 16"] show ?case by (subst hex_nat.simps) auto
qed

lemma hex_digits_hex_nat: "c \<in> set (hex_nat n) \<Longrightarrow> is_hex c"
proof (induction n rule: hex_nat.induct)
  case (1 n)
  then show ?case by (subst (asm) hex_nat.simps) (auto split: if_splits simp: is_hex_def digit_char_facts)
qed

lemma hex_value_hex_nat: "hex_value (hex_nat n) = n"
proof (induction n rule: hex_nat.induct)
  case (1 n)
  show ?case
  proof (cases "n < 16")
    case True
    then show ?thesis by (subst hex_nat.simps) (simp add: hex_value_def digit_char_facts)
  next
    case False
    with 1 have "hex_value (hex_nat (n div 16)) = n div 16" by simp
    with False show ?thesis
      by (subst hex_nat.simps) (simp add: hex_value_def digit_char_facts)
  qed
qed

lemma hex_group_facts [simp]:
  "hex_group g \<noteq> []" "\<not> 4 < length (hex_group g)"
  "of_nat (hex_value (hex_group g)) = g"
  "c \<in> set (hex_group g) \<Longrightarrow> is_hex c"
proof -
  have "unat g < 16 ^ Suc 3" using unsigned_less[of g] by simp
  from length_hex_nat[OF this] show "\<not> 4 < length (hex_group g)" by (simp add: hex_group_def)
qed (auto simp: hex_group_def hex_value_hex_nat dest: hex_digits_hex_nat)

lemma colon_not_hex: "\<not> is_hex CHR '':''"
  by code_simp

subsection \<open>The group loop\<close>

lemma hd_hex_group: "hd (hex_group g @ t) \<noteq> CHR '':''"
proof -
  have "is_hex (hd (hex_group g))" by (rule hex_group_facts(4)[OF hd_in_set]) simp
  then show ?thesis using colon_not_hex by (auto simp: hd_append)
qed

lemma takeWhile_hex_group [simp]: "takeWhile is_hex (hex_group g) = hex_group g"
  and dropWhile_hex_group [simp]: "dropWhile is_hex (hex_group g) = []"
  by (simp_all add: takeWhile_eq_all_conv)

lemma parse6_loop_group:
  "parse6_loop (Suc n) gs e (hex_group g) = Some (gs @ [g], e, [])"
  "t \<noteq> [] \<Longrightarrow> hd t \<noteq> CHR '':'' \<Longrightarrow>
    parse6_loop (Suc n) gs e (hex_group g @ CHR '':'' # t) = parse6_loop n (gs @ [g]) e t"
  "parse6_loop (Suc n) gs None (hex_group g @ ''::'' @ t) =
    (if t = [] then Some (gs @ [g], Some (Suc (length gs)), [])
     else parse6_loop n (gs @ [g]) (Some (Suc (length gs))) t)"
  using takeWhile_hex_group[of g] dropWhile_hex_group[of g]
  by (simp_all add: Let_def takeWhile_append dropWhile_append colon_not_hex)

lemma join_groups_simps [simp]:
  "join_groups [] = []" "join_groups [g] = hex_group g"
  "join_groups (g # h # gs) = hex_group g @ CHR '':'' # join_groups (h # gs)"
  by (simp_all add: join_groups_def)

lemma hd_join_groups: "hd (join_groups (g # gs) @ t) \<noteq> CHR '':''"
  by (cases gs) (use hd_hex_group in simp_all)

lemma join_groups_not_Nil [simp]: "join_groups (g # gs) \<noteq> []"
  by (cases gs) simp_all

lemma parse6_loop_join:
  "gs \<noteq> [] \<Longrightarrow> length gs \<le> n \<Longrightarrow> parse6_loop n acc e (join_groups gs) = Some (acc @ gs, e, [])"
proof (induction gs arbitrary: n acc)
  case (Cons g gs)
  then obtain m where m: "n = Suc m" by (cases n) auto
  show ?case
  proof (cases gs)
    case Nil
    with m show ?thesis by (simp add: parse6_loop_group(1) del: parse6_loop.simps)
  next
    case (Cons h hs)
    with Cons.IH[of m "acc @ [g]"] Cons.prems m show ?thesis
      using hd_join_groups[of h hs "[]"]
      by (simp add: parse6_loop_group(2) del: parse6_loop.simps)
  qed
qed simp

lemma parse6_loop_ellipsis:
  "gs \<noteq> [] \<Longrightarrow> length gs + length hs \<le> n \<Longrightarrow>
    parse6_loop n acc None (join_groups gs @ ''::'' @ join_groups hs)
      = Some (acc @ gs @ hs, Some (length acc + length gs), [])"
proof (induction gs arbitrary: n acc)
  case (Cons g gs)
  then obtain m where m: "n = Suc m" by (cases n) auto
  show ?case
  proof (cases gs)
    case Nil
    have "hs \<noteq> [] \<Longrightarrow> join_groups hs \<noteq> []" by (cases hs) simp_all
    with Nil m Cons.prems show ?thesis
      by (cases "hs = []")
        (use parse6_loop_group(3)[of m acc g "join_groups hs"] in
          \<open>auto simp: parse6_loop_join simp del: parse6_loop.simps\<close>)
  next
    case (Cons k ks)
    with Cons.IH[of m "acc @ [g]"] Cons.prems m show ?thesis
      using hd_join_groups[of k ks "''::'' @ join_groups hs"]
      by (simp add: parse6_loop_group(2) del: parse6_loop.simps)
  qed
qed simp

subsection \<open>The zero run and the whole address\<close>

definition run_ok :: "16 word list \<Rightarrow> nat \<times> nat \<Rightarrow> bool" where
  "run_ok gs = (\<lambda>(st, en). (st = 255 \<and> en = 255) \<or>
     (st + 2 \<le> en \<and> en \<le> length gs \<and> take (en - st) (drop st gs) = replicate (en - st) 0))"

lemma run_step_ok:
  assumes "run_ok gs r" and "i < length gs"
  shows "run_ok gs (run_step gs r i)"
proof -
  define z where "z = takeWhile (\<lambda>g. g = 0) (drop i gs)"
  have "z = replicate (length z) 0"
    unfolding z_def by (metis (full_types) replicate_length_same set_takeWhileD)
  moreover have "take (length z) (drop i gs) = z" "length z \<le> length gs - i"
    unfolding z_def by (simp_all add: takeWhile_eq_take flip: takeWhile_eq_take)
      (metis length_drop length_takeWhile_le)
  ultimately show ?thesis
    using assms by (auto simp: run_ok_def run_step_def Let_def split: prod.splits simp flip: z_def)
qed

lemma zero_run_ok: "run_ok gs (zero_run gs)"
proof -
  have *: "run_ok gs (foldl (run_step gs) r is)" if "run_ok gs r" "set is \<subseteq> {..<length gs}" for r "is"
    using that
  proof (induction "is" arbitrary: r)
    case (Cons i "is")
    from Cons.prems have "run_ok gs (run_step gs r i)" by (intro run_step_ok) auto
    with Cons.IH Cons.prems show ?case by simp
  qed simp
  show ?thesis unfolding zero_run_def by (rule *) (auto simp: run_ok_def)
qed

lemma parse6_string6: "parse6_body (string6 w) = Some w"
proof -
  define gs where "gs = groups_of w"
  have len: "length gs = 8" and w: "word_of_groups gs = w"
    by (simp_all add: gs_def word_of_groups_of)
  obtain st en where r: "zero_run gs = (st, en)" by fastforce
  show ?thesis
  proof (cases "st = 255")
    case True
    then have s: "string6 w = join_groups gs"
      using r by (simp add: string6_def gs_def)
    obtain g gt where g: "gs = g # gt" using len by (cases gs) auto
    have "\<not> HasPrefix (join_groups gs) ''::''" "join_groups gs \<noteq> ''::''"
      using hd_join_groups[of g gt "[]"] g by (auto simp: HasPrefix_iff)
    then show ?thesis
      using parse6_loop_join[of gs 8 "[]" None] len w s g
      by (simp add: parse6_body_def expand6_def del: parse6_loop.simps)
  next
    case False
    then have run: "st + 2 \<le> en" "en \<le> 8" "take (en - st) (drop st gs) = replicate (en - st) 0"
      using zero_run_ok[of gs] r len by (auto simp: run_ok_def)
    define us vs where "us = take st gs" and "vs = drop en gs"
    have s: "string6 w = join_groups us @ ''::'' @ join_groups vs"
      using r False by (simp add: string6_def gs_def us_def vs_def Let_def)
    have lens: "length us = st" "length vs = 8 - en" using run len by (auto simp: us_def vs_def)
    have gs: "us @ replicate (en - st) 0 @ vs = gs"
      using run by (metis (no_types, lifting) us_def vs_def append_take_drop_id drop_drop
          le_add_diff_inverse2 add_leE)
    have ex: "expand6 (us @ vs) (Some st) = Some w"
      using lens run gs w by (simp add: expand6_def)
    show ?thesis
    proof (cases us)
      case Nil
      show ?thesis
      proof (cases vs)
        case vs: Nil
        have "gs = replicate 8 0" using Nil vs gs lens run by simp
        then have "w = 0" using w by (simp add: numeral_eq_Suc)
        then show ?thesis using s Nil vs by (simp add: parse6_body_def)
      next
        case (Cons v vt)
        have "parse6_loop 8 [] (Some 0) (join_groups vs) = Some (vs, Some 0, [])"
          using parse6_loop_join[of vs 8 "[]" "Some 0"] Cons lens run by simp
        then show ?thesis
          using s Nil Cons ex lens by (simp add: parse6_body_def HasPrefix_def)
      qed
    next
      case (Cons u ut)
      have "parse6_loop 8 [] None (string6 w) = Some (us @ vs, Some st, [])"
        using parse6_loop_ellipsis[of us vs 8 "[]"] Cons lens run s by simp
      moreover have "\<not> HasPrefix (string6 w) ''::''" "string6 w \<noteq> ''::''"
        using hd_join_groups[of u ut "''::'' @ join_groups vs"] Cons s
        by (auto simp: HasPrefix_iff simp del: hd_append2)
      ultimately show ?thesis using ex by (simp add: parse6_body_def)
    qed
  qed
qed

lemma set_join_groups: "c \<in> set (join_groups gs) \<Longrightarrow> is_hex c \<or> c = CHR '':''"
proof (induction gs)
  case (Cons g gs)
  then show ?case by (cases gs) auto
qed simp

lemma set_string6: "c \<in> set (string6 w) \<Longrightarrow> is_hex c \<or> c = CHR '':''"
  by (auto simp: string6_def Let_def dest: set_join_groups split: prod.splits if_splits)

lemma colon_in_join: "2 \<le> length gs \<Longrightarrow> CHR '':'' \<in> set (join_groups gs)"
  by (cases gs; cases "tl gs") auto

lemma colon_in_string6: "CHR '':'' \<in> set (string6 w)"
  by (cases "zero_run (groups_of w)") (simp add: string6_def Let_def colon_in_join)

lemma seps_not_hex: "\<not> is_hex CHR ''.''" "\<not> is_hex CHR ''%''"
  by code_simp+

lemma no_sep_string6: "CHR ''.'' \<notin> set (string6 w)" "CHR ''%'' \<notin> set (string6 w)"
  using set_string6[of _ w] seps_not_hex by fastforce+

theorem ParseAddr_String:
  assumes "\<not> Is4In6 (Addr6 w [])"
  shows "ParseAddr (addr_String (Addr6 w [])) = Some (Addr6 w [])"
proof -
  let ?f = "filter (\<lambda>c. c \<in> {CHR ''.'', CHR '':'', CHR ''%''}) (string6 w)"
  have "?f \<noteq> []" using colon_in_string6 by (auto simp: filter_empty_conv)
  moreover have "set ?f \<subseteq> {CHR '':''}" using no_sep_string6 by auto
  ultimately obtain cs where "?f = CHR '':'' # cs"
    by (metis list.set_intros(1) neq_Nil_conv singletonD subsetD)
  then show ?thesis
    using assms parse6_string6[of w] no_sep_string6(2)
    by (simp add: ParseAddr_def addr_String_def parse6_def Cut_no_sep)
qed

section \<open>Prefixes\<close>

lemma and_mask6: "n \<le> 128 \<Longrightarrow> x AND mask6 n = push_bit (128 - n) (drop_bit (128 - n) x)"
  by (rule bit_word_eqI) (auto simp: mask6_def bit_simps)

text \<open>An address is in a prefix when masking it gives the prefix.\<close>

lemma prefix_Contains_Masked:
  assumes "prefix_Addr p = Addr6 w []" and "prefix_Bits p = Some n"
    and "Masked p = p"
  shows "prefix_Contains p (Addr6 v []) \<longleftrightarrow> v AND mask6 n = w"
proof -
  have "w AND mask6 n = w" using assms by (cases p) (simp add: Masked_def)
  moreover have "(w XOR v) AND mask6 n = 0 \<longleftrightarrow> w AND mask6 n = v AND mask6 n"
    by (auto simp: bit_eq_iff bit_simps)
  ultimately show ?thesis
    using assms by (auto simp: prefix_Contains_def)
qed

end
