(* ===== verification/Sha512.thy ===== *)
theory Sha512
  imports Go_Prelude
begin

text \<open>
  \<open>crypto/sha512\<close>: \<open>sha512.Sum512\<close> on byte strings, as FIPS 180-4 defines it. The digests
  of manifests, Service contracts and certificates, and the virtual addresses of Services,
  are computed from it. The components rely only on its being a function with results of
  64 bytes.
\<close>

unbundle bit_operations_syntax

text \<open>
  The constants of the standard are not tabulated but computed from their description: the
  first 64 bits of the fractional parts of the square roots of the first eight primes, and
  of the cube roots of the first eighty. \<open>root_floor k n b r\<close> adds to \<open>r\<close> the bits below \<open>b\<close>
  of the integer part of the \<open>k\<close>-th root of \<open>n\<close>.
\<close>

fun root_floor :: "nat \<Rightarrow> int \<Rightarrow> nat \<Rightarrow> int \<Rightarrow> int" where
  "root_floor k n 0 r = r"
| "root_floor k n (Suc b) r =
     (let c = r + 2 ^ b in root_floor k n b (if c ^ k \<le> n then c else r))"

definition root_fraction :: "nat \<Rightarrow> nat \<Rightarrow> 64 word" where
  "root_fraction k p = word_of_int (root_floor k (int p * 2 ^ (64 * k)) 72 0)"

definition sha512_K :: "64 word list" where
  "sha512_K =
     map (root_fraction 3) (filter (\<lambda>p. list_all (\<lambda>d. p mod d \<noteq> 0) [2..<p]) [2..<410])"

definition sha512_H0 :: "64 word list" where
  "sha512_H0 = map (root_fraction 2) [2, 3, 5, 7, 11, 13, 17, 19]"

text \<open>The \<open>n\<close> low bytes of a number, the most significant first.\<close>

definition be_bytes :: "nat \<Rightarrow> int \<Rightarrow> string" where
  "be_bytes n x = map (\<lambda>i. char_of (x div 256 ^ i)) (rev [0..<n])"

fun be_word :: "string \<Rightarrow> 'w::len word" where
  "be_word [] = 0"
| "be_word (c # s) = push_bit (8 * length s) (of_char c) + be_word s"

definition sha512_pad :: "string \<Rightarrow> string" where
  "sha512_pad m =
     m @ [CHR 0x80] @ replicate ((128 - (length m + 17) mod 128) mod 128) (CHR 0x00)
       @ be_bytes 16 (8 * int (length m))"

definition Sigma0 :: "64 word \<Rightarrow> 64 word" where
  "Sigma0 x = word_rotr 28 x XOR word_rotr 34 x XOR word_rotr 39 x"

definition Sigma1 :: "64 word \<Rightarrow> 64 word" where
  "Sigma1 x = word_rotr 14 x XOR word_rotr 18 x XOR word_rotr 41 x"

definition sigma0 :: "64 word \<Rightarrow> 64 word" where
  "sigma0 x = word_rotr 1 x XOR word_rotr 8 x XOR drop_bit 7 x"

definition sigma1 :: "64 word \<Rightarrow> 64 word" where
  "sigma1 x = word_rotr 19 x XOR word_rotr 61 x XOR drop_bit 6 x"

text \<open>The message schedule, kept in reverse: the latest word is the head of the list.\<close>

fun sha512_schedule :: "nat \<Rightarrow> 64 word list \<Rightarrow> 64 word list" where
  "sha512_schedule 0 ws = rev ws"
| "sha512_schedule (Suc n) ws =
     sha512_schedule n ((sigma1 (ws ! 1) + ws ! 6 + sigma0 (ws ! 14) + ws ! 15) # ws)"

fun sha512_round :: "64 word \<times> 64 word \<Rightarrow> 64 word list \<Rightarrow> 64 word list" where
  "sha512_round (k, w) [a, b, c, d, e, f, g, h] =
     (let t1 = h + Sigma1 e + ((e AND f) XOR (NOT e AND g)) + k + w;
          t2 = Sigma0 a + ((a AND b) XOR (a AND c) XOR (b AND c))
      in [t1 + t2, a, b, c, d + t1, e, f, g])"
| "sha512_round kw s = s"

fun words_of_block :: "nat \<Rightarrow> string \<Rightarrow> 64 word list" where
  "words_of_block 0 s = []"
| "words_of_block (Suc n) s = be_word (take 8 s) # words_of_block n (drop 8 s)"

definition sha512_block :: "string \<Rightarrow> 64 word list \<Rightarrow> 64 word list" where
  "sha512_block s st =
     map2 (+) st (fold sha512_round (zip sha512_K (sha512_schedule 64 (rev (words_of_block 16 s)))) st)"

fun sha512_blocks :: "nat \<Rightarrow> string \<Rightarrow> 64 word list \<Rightarrow> 64 word list" where
  "sha512_blocks 0 s st = st"
| "sha512_blocks (Suc n) s st = sha512_blocks n (drop 128 s) (sha512_block (take 128 s) st)"

definition sha512 :: "string \<Rightarrow> string" where
  "sha512 m =
     (let p = sha512_pad m
      in concat (map (\<lambda>w. be_bytes 8 (uint w)) (sha512_blocks (length p div 128) p sha512_H0)))"

lemma length_be_bytes [simp]: "length (be_bytes n x) = n"
  by (simp add: be_bytes_def)

lemma length_sha512_round [simp]: "length (sha512_round kw st) = length st"
  by (cases "(kw, st)" rule: sha512_round.cases) (simp_all add: Let_def)

lemma length_fold_sha512_round [simp]: "length (fold sha512_round xs st) = length st"
  by (induction xs arbitrary: st) simp_all

lemma length_sha512_blocks [simp]: "length (sha512_blocks n s st) = length st"
  by (induction n arbitrary: s st) (simp_all add: sha512_block_def)

lemma length_concat_const: "(\<And>x. x \<in> set xs \<Longrightarrow> length (f x) = n) \<Longrightarrow>
    length (concat (map f xs)) = n * length xs"
  by (induction xs) auto

lemma length_sha512 [simp]: "length (sha512 m) = 64"
  by (simp add: sha512_def Let_def length_concat_const[where n = 8] sha512_H0_def)

text \<open>The padded message is a whole number of blocks, so no byte of it is left unread.\<close>

lemma sha512_pad_blocks: "length (sha512_pad m) mod 128 = 0"
proof -
  define k where "k = length m + 17"
  have "k mod 128 < 128" by simp
  then have "(k mod 128 + (128 - k mod 128) mod 128) mod 128 = 0"
    by (cases "k mod 128 = 0") simp_all
  then have "(k + (128 - k mod 128) mod 128) mod 128 = 0"
    by (simp only: mod_add_left_eq)
  moreover have "length (sha512_pad m) = k + (128 - k mod 128) mod 128"
    by (simp add: sha512_pad_def k_def)
  ultimately show ?thesis by (simp only:)
qed

subsection \<open>Numbers read from bytes\<close>

fun be_nat :: "string \<Rightarrow> nat" where
  "be_nat [] = 0"
| "be_nat (c # s) = of_char c * 256 ^ length s + be_nat s"

lemma be_nat_less: "be_nat s < 256 ^ length s"
proof (induction s)
  case (Cons c s)
  have "of_char c * 256 ^ length s + be_nat s < Suc (of_char c) * 256 ^ length s"
    using Cons by simp
  also have "\<dots> \<le> 256 * 256 ^ length s"
    using nat_of_char_less_256[of c] by (intro mult_le_mono1) linarith
  finally show ?case by simp
qed simp

lemma be_nat_append: "be_nat (s @ t) = be_nat s * 256 ^ length t + be_nat t"
  by (induction s) (simp_all add: algebra_simps power_add)

lemma be_word_eq: "be_word s = (of_nat (be_nat s) :: 'w::len word)"
proof (induction s)
  case (Cons c s)
  have "push_bit (8 * length s) (of_char c :: 'w word) = of_nat (of_char c * 256 ^ length s)"
    by (simp add: push_bit_eq_mult of_nat_of_char power_mult)
  with Cons show ?case by simp
qed simp

lemma unat_be_word:
  "8 * length s \<le> LENGTH('w) \<Longrightarrow> unat (be_word s :: 'w::len word) = be_nat s"
proof -
  assume "8 * length s \<le> LENGTH('w)"
  then have "(2::nat) ^ (8 * length s) \<le> 2 ^ LENGTH('w)" by (simp add: power_increasing)
  then have "be_nat s < 2 ^ LENGTH('w)"
    using be_nat_less[of s] by (simp add: power_mult)
  then show ?thesis by (simp add: be_word_eq unat_of_nat)
qed

end
