(* ===== verification/Dataplane.thy ===== *)
theory Dataplane
  imports Netip Sha512
begin

text \<open>
  The service dataplane of \<open>src/internal/agent/dataplane/dataplane.go\<close>: virtual addresses,
  the compilation of a complete snapshot of Services into the tables that the kernel
  program looks up, backend selection, and the reconciler that owns the tables.

  The activation of tables in the kernel (\<open>activate\<close>, \<open>refresh\<close> and \<open>close\<close> of the
  platform state, which call the eBPF library) is a parameter of \<open>dataplane_Reconcile\<close>.
\<close>

section \<open>Data\<close>

definition maxTableEntries :: nat where
  "maxTableEntries = 65536"

definition ProtocolTCP :: "8 word" where
  "ProtocolTCP = 6"

definition ProtocolUDP :: "8 word" where
  "ProtocolUDP = 17"

definition ErrInvalidSnapshot :: error where
  "ErrInvalidSnapshot = Sentinel ''invalid dataplane snapshot''"

record Backend =
  be_Address :: addr
  be_Port :: "16 word"

record Port =
  port_Protocol :: "8 word"
  port_Port :: "16 word"
  port_Backends :: "Backend list"

record dataplane_Service =
  VIP :: addr
  Ports :: "Port list"

record dataplane_Snapshot =
  NodeIPv6 :: addr
  Services :: "dataplane_Service list"

record ServiceKey =
  key_VIP :: ip16
  key_Port :: "16 word"
  key_Protocol :: "8 word"

record ServiceValue =
  BackendOffset :: "32 word"
  BackendCount :: "32 word"

record BackendValue =
  bv_Address :: ip16
  bv_Port :: "16 word"

text \<open>
  The map of services is \<^term>\<open>None\<close> when it is nil (as in the zero value \<open>Tables{}\<close>). The
  compiler inserts into it in key order, which is the order of the association list.
\<close>

record Tables =
  t_NodeIPv6 :: ip16
  t_Services :: "(ServiceKey \<times> ServiceValue) list option"
  t_Backends :: "BackendValue list"

definition TablesZero :: Tables where
  "TablesZero = \<lparr>t_NodeIPv6 = 0, t_Services = None, t_Backends = []\<rparr>"

section \<open>Virtual addresses\<close>

definition DeriveVIP :: "string \<Rightarrow> string \<Rightarrow> string \<Rightarrow> addr" where
  "DeriveVIP cluster namespace name =
     (let sum = sha512 (cluster @ [CHR 0x00] @ namespace @ [CHR 0x00] @ name);
          address = [CHR 0xfd, CHR 0x50, CHR 0x6f, CHR 0x64, CHR 0x6d, CHR 0x69, CHR 0x00, CHR 0x00]
                      @ take 8 sum
      in AddrFrom16 (be_word address))"

section \<open>Compilation\<close>

record entry =
  entry_key :: ServiceKey
  entry_backends :: "BackendValue list"

definition keyLess :: "ServiceKey \<Rightarrow> ServiceKey \<Rightarrow> bool" where
  "keyLess left right =
     (if key_VIP left \<noteq> key_VIP right then key_VIP left < key_VIP right
      else if key_Protocol left \<noteq> key_Protocol right then key_Protocol left < key_Protocol right
      else key_Port left < key_Port right)"

definition backendLess :: "BackendValue \<Rightarrow> BackendValue \<Rightarrow> bool" where
  "backendLess left right =
     (if bv_Address left \<noteq> bv_Address right then bv_Address left < bv_Address right
      else bv_Port left < bv_Port right)"

definition invalid_snapshot :: "string \<Rightarrow> error" where
  "invalid_snapshot message = Wrapf message [] ErrInvalidSnapshot"

definition compile_backend :: "Backend \<Rightarrow> BackendValue list \<Rightarrow> error + BackendValue list" where
  "compile_backend backend acc =
     (if \<not> Is6 (be_Address backend) \<or> Is4In6 (be_Address backend) \<or> be_Port backend = 0
      then Inl (invalid_snapshot ''backend address or port'')
      else Inr (acc @ [\<lparr>bv_Address = As16 (be_Address backend), bv_Port = be_Port backend\<rparr>]))"

text \<open>The state of the loops: the entries, the keys seen, and the number of backends.\<close>

type_synonym compile_state = "entry list \<times> ServiceKey set \<times> nat"

definition compile_port :: "addr \<Rightarrow> Port \<Rightarrow> compile_state \<Rightarrow> error + compile_state" where
  "compile_port vip port = (\<lambda>(entries, seenKeys, backendCount).
     let key = \<lparr>key_VIP = As16 vip, key_Port = port_Port port, key_Protocol = port_Protocol port\<rparr>
     in if port_Port port = 0
           \<or> (port_Protocol port \<noteq> ProtocolTCP \<and> port_Protocol port \<noteq> ProtocolUDP)
        then Inl (invalid_snapshot ''service protocol or port'')
        else if key \<in> seenKeys then Inl (invalid_snapshot ''duplicate service port'')
        else if length entries = maxTableEntries
        then Inl (invalid_snapshot ''too many service ports'')
        else if int (length (port_Backends port)) > int maxTableEntries - int backendCount
        then Inl (invalid_snapshot ''too many backends'')
        else case fold_res compile_backend (port_Backends port) [] of
               Inl e \<Rightarrow> Inl e
             | Inr bs \<Rightarrow>
                 Inr (entries @ [\<lparr>entry_key = key, entry_backends = sort_slice backendLess bs\<rparr>],
                      insert key seenKeys, backendCount + length (port_Backends port)))"

definition compile_service :: "dataplane_Service \<Rightarrow> compile_state \<Rightarrow> error + compile_state" where
  "compile_service service st =
     (if \<not> Is6 (VIP service) \<or> Is4In6 (VIP service)
      then Inl (invalid_snapshot ''service VIP must be IPv6'')
      else fold_res (compile_port (VIP service)) (Ports service) st)"

definition install_entry ::
  "entry \<Rightarrow> (ServiceKey \<times> ServiceValue) list \<times> BackendValue list
     \<Rightarrow> (ServiceKey \<times> ServiceValue) list \<times> BackendValue list" where
  "install_entry item = (\<lambda>(services, backends).
     (AList.update (entry_key item)
        \<lparr>BackendOffset = of_nat (length backends),
         BackendCount = of_nat (length (entry_backends item))\<rparr> services,
      backends @ entry_backends item))"

definition Compile :: "dataplane_Snapshot \<Rightarrow> error + Tables" where
  "Compile snapshot =
     (if Services snapshot = []
      then Inr \<lparr>t_NodeIPv6 = 0, t_Services = Some [], t_Backends = []\<rparr>
      else if \<not> Is6 (NodeIPv6 snapshot) \<or> Is4In6 (NodeIPv6 snapshot)
      then Inl (invalid_snapshot ''node address must be IPv6'')
      else case fold_res compile_service (Services snapshot) ([], {}, 0) of
             Inl e \<Rightarrow> Inl e
           | Inr (entries, _, _) \<Rightarrow>
               let sorted = sort_slice (\<lambda>a b. keyLess (entry_key a) (entry_key b)) entries;
                   (services, backends) = fold install_entry sorted ([], [])
               in Inr \<lparr>t_NodeIPv6 = As16 (NodeIPv6 snapshot), t_Services = Some services,
                       t_Backends = backends\<rparr>)"

section \<open>Backend selection\<close>

definition lookup_service :: "Tables \<Rightarrow> ServiceKey \<Rightarrow> ServiceValue option" where
  "lookup_service t key = (case t_Services t of None \<Rightarrow> None | Some m \<Rightarrow> map_of m key)"

definition SelectBackend :: "Tables \<Rightarrow> ServiceKey \<Rightarrow> string \<Rightarrow> BackendValue option" where
  "SelectBackend t key flow =
     (case lookup_service t key of
        None \<Rightarrow> None
      | Some service \<Rightarrow>
          if BackendCount service = 0 then None
          else
            let sum = (be_word (take 8 (sha512 flow)) :: 64 word);
                index = BackendOffset service + ucast (sum mod ucast (BackendCount service))
            in if length (t_Backends t) \<le> unat index then None
               else Some (t_Backends t ! unat index))"

section \<open>The reconciler\<close>

text \<open>
  \<open>'p\<close> is the platform state: loaded kernel objects and attached links. \<open>activate\<close> loads
  tables, given the previous state; \<open>refresh\<close> and \<open>close\<close> act on a loaded state.
\<close>

record 'p dataplane_Reconciler =
  podPrefix :: prefix
  tables :: Tables
  platform :: "'p option"

record 'p platform_ops =
  activate :: "Tables \<Rightarrow> prefix \<Rightarrow> 'p option \<Rightarrow> error + 'p"
  refresh :: "'p \<Rightarrow> error option \<times> 'p"
  close :: "'p \<Rightarrow> error option"

definition dataplane_New :: "prefix \<Rightarrow> 'p dataplane_Reconciler" where
  "dataplane_New prefix = \<lparr>podPrefix = prefix, tables = TablesZero, platform = None\<rparr>"

definition cloneTables :: "Tables \<Rightarrow> Tables" where
  "cloneTables input =
     \<lparr>t_NodeIPv6 = t_NodeIPv6 input,
      t_Services = Some (case t_Services input of None \<Rightarrow> [] | Some m \<Rightarrow> m),
      t_Backends = t_Backends input\<rparr>"

definition dataplane_Reconcile ::
  "'p platform_ops \<Rightarrow> error option \<Rightarrow> dataplane_Snapshot \<Rightarrow> 'p dataplane_Reconciler
     \<Rightarrow> error option \<times> 'p dataplane_Reconciler" where
  "dataplane_Reconcile ops ctx_err snapshot r =
     (case ctx_err of
        Some e \<Rightarrow> (Some e, r)
      | None \<Rightarrow>
        (case Compile snapshot of
           Inl e \<Rightarrow> (Some e, r)
         | Inr new \<Rightarrow>
           let old = platform r; unchanged = (tables r = new)
           in if unchanged \<and> (old \<noteq> None \<or> Services snapshot = [])
              then (case old of
                      Some p \<Rightarrow> (let (e, p') = refresh ops p in (e, r\<lparr>platform := Some p'\<rparr>))
                    | None \<Rightarrow> (None, r))
              else if Services snapshot \<noteq> []
              then (if \<not> prefix_IsValid (podPrefix r) \<or> \<not> Is6 (prefix_Addr (podPrefix r))
                       \<or> Is4In6 (prefix_Addr (podPrefix r)) \<or> podPrefix r \<noteq> Masked (podPrefix r)
                    then (Some (invalid_snapshot ''Pod prefix must be an exact IPv6 prefix''), r)
                    else case activate ops new (podPrefix r) old of
                           Inl e \<Rightarrow> (Some e, r)
                         | Inr p \<Rightarrow> (None, r\<lparr>platform := Some p, tables := cloneTables new\<rparr>))
              else (case (case old of Some p \<Rightarrow> close ops p | None \<Rightarrow> None) of
                      Some e \<Rightarrow> (Some e, r)
                    | None \<Rightarrow> (None, r\<lparr>platform := None, tables := cloneTables new\<rparr>))))"

definition reconciler_Tables :: "'p dataplane_Reconciler \<Rightarrow> Tables" where
  "reconciler_Tables r = cloneTables (tables r)"

definition dataplane_Close ::
  "'p platform_ops \<Rightarrow> 'p dataplane_Reconciler \<Rightarrow> error option \<times> 'p dataplane_Reconciler" where
  "dataplane_Close ops r =
     (case (case platform r of Some p \<Rightarrow> close ops p | None \<Rightarrow> None) of
        Some e \<Rightarrow> (Some e, r)
      | None \<Rightarrow> (None, r\<lparr>platform := None, tables := TablesZero\<rparr>))"

section \<open>What the tables contain\<close>

text \<open>
  The abstract view of a snapshot: for every port of every Service, the lookup key and the
  backends. A table implements it when looking a key up yields the slice of its backends.
\<close>

definition service_key :: "dataplane_Service \<Rightarrow> Port \<Rightarrow> ServiceKey" where
  "service_key s p =
     \<lparr>key_VIP = As16 (VIP s), key_Port = port_Port p, key_Protocol = port_Protocol p\<rparr>"

definition backend_value :: "Backend \<Rightarrow> BackendValue" where
  "backend_value b = \<lparr>bv_Address = As16 (be_Address b), bv_Port = be_Port b\<rparr>"

definition spec_ports :: "dataplane_Snapshot \<Rightarrow> (ServiceKey \<times> BackendValue list) list" where
  "spec_ports snapshot =
     concat (map (\<lambda>s. map (\<lambda>p. (service_key s p, map backend_value (port_Backends p))) (Ports s))
       (Services snapshot))"

definition table_slice :: "Tables \<Rightarrow> ServiceValue \<Rightarrow> BackendValue list" where
  "table_slice t v = take (unat (BackendCount v)) (drop (unat (BackendOffset v)) (t_Backends t))"

definition entry_of :: "ServiceKey \<times> BackendValue list \<Rightarrow> entry" where
  "entry_of = (\<lambda>(k, bs). \<lparr>entry_key = k, entry_backends = sort_slice backendLess bs\<rparr>)"

subsection \<open>The orders\<close>

lemma keyLess_key:
  "keyLess a b \<longleftrightarrow> (key_VIP a, key_Protocol a, key_Port a) < (key_VIP b, key_Protocol b, key_Port b)"
  by (auto simp: keyLess_def)

lemma backendLess_key:
  "backendLess a b \<longleftrightarrow> (bv_Address a, bv_Port a) < (bv_Address b, bv_Port b)"
  by (auto simp: backendLess_def)

abbreviation key_rank :: "ServiceKey \<Rightarrow> ip16 \<times> 8 word \<times> 16 word" where
  "key_rank \<equiv> (\<lambda>k. (key_VIP k, key_Protocol k, key_Port k))"

abbreviation backend_rank :: "BackendValue \<Rightarrow> ip16 \<times> 16 word" where
  "backend_rank \<equiv> (\<lambda>b. (bv_Address b, bv_Port b))"

lemma inj_key_rank: "inj key_rank" and inj_backend_rank: "inj backend_rank"
  by (auto intro!: injI ServiceKey.equality BackendValue.equality)

lemma sort_backends: "sort_slice backendLess bs = sort_key backend_rank bs"
  using sort_slice_key[of backend_rank bs] by (simp add: backendLess_key[abs_def])

lemma sort_entries:
  "sort_slice (\<lambda>a b. keyLess (entry_key a) (entry_key b)) es = sort_key (key_rank \<circ> entry_key) es"
  using sort_slice_key[of "key_rank \<circ> entry_key" es] by (simp add: keyLess_key comp_def)

subsection \<open>The loops\<close>

lemma compile_backends:
  "fold_res compile_backend bs acc = Inr r \<Longrightarrow> r = acc @ map backend_value bs"
proof (induction bs arbitrary: acc)
  case (Cons b bs)
  from Cons.prems have "fold_res compile_backend bs (acc @ [backend_value b]) = Inr r"
    by (auto simp: compile_backend_def[of b] backend_value_def split: if_splits)
  from Cons.IH[OF this] show ?case by simp
qed simp

text \<open>The state after the ports \<open>done\<close> of the abstract view.\<close>

definition compile_inv :: "(ServiceKey \<times> BackendValue list) list \<Rightarrow> compile_state \<Rightarrow> bool" where
  "compile_inv done = (\<lambda>(entries, seen, n).
     entries = map entry_of done \<and> seen = set (map fst done) \<and> distinct (map fst done) \<and>
     n = sum_list (map (length \<circ> snd) done) \<and> n \<le> maxTableEntries \<and> length entries \<le> maxTableEntries)"

lemma compile_port_inv:
  assumes "compile_port (VIP s) p st = Inr st'" and "compile_inv done st"
  shows "compile_inv (done @ [(service_key s p, map backend_value (port_Backends p))]) st'"
  using assms
  by (cases st)
    (auto simp: compile_inv_def compile_port_def Let_def service_key_def entry_of_def
       split: if_splits sum.splits dest!: compile_backends)

lemma compile_ports_inv:
  "fold_res (compile_port (VIP s)) ps st = Inr st' \<Longrightarrow> compile_inv done st \<Longrightarrow>
    compile_inv (done @ map (\<lambda>p. (service_key s p, map backend_value (port_Backends p))) ps) st'"
proof (induction ps arbitrary: st "done")
  case (Cons p ps)
  from Cons.prems(1) obtain t where "compile_port (VIP s) p st = Inr t"
    and rest: "fold_res (compile_port (VIP s)) ps t = Inr st'" by (rule fold_res_ConsE)
  from Cons.IH[OF rest compile_port_inv[OF this(1) Cons.prems(2)]] show ?case by simp
qed simp

lemma compile_services_inv:
  "fold_res compile_service ss st = Inr st' \<Longrightarrow> compile_inv done st \<Longrightarrow>
    compile_inv (done @ concat (map (\<lambda>s. map (\<lambda>p. (service_key s p,
      map backend_value (port_Backends p))) (Ports s)) ss)) st'"
proof (induction ss arbitrary: st "done")
  case (Cons s ss)
  from Cons.prems(1) obtain t where t: "compile_service s st = Inr t"
    and rest: "fold_res compile_service ss t = Inr st'" by (rule fold_res_ConsE)
  from t have "fold_res (compile_port (VIP s)) (Ports s) st = Inr t"
    by (auto simp: compile_service_def split: if_splits)
  from Cons.IH[OF rest compile_ports_inv[OF this Cons.prems(2)]] show ?case by simp
qed simp

text \<open>A successful compilation lays out the sorted entries of the abstract view one after another.\<close>

lemma install_entries:
  "distinct (map entry_key es) \<Longrightarrow> set (map entry_key es) \<inter> set (map fst kvs) = {} \<Longrightarrow>
    fold install_entry es (kvs, bs) = (kvs', bs') \<Longrightarrow>
    bs' = bs @ concat (map entry_backends es) \<and> map fst kvs' = map fst kvs @ map entry_key es \<and>
    (\<forall>k v. map_of kvs k = Some v \<longrightarrow> map_of kvs' k = Some v) \<and>
    (\<forall>us e vs. es = us @ e # vs \<longrightarrow> map_of kvs' (entry_key e) =
       Some \<lparr>BackendOffset = of_nat (length (bs @ concat (map entry_backends us))),
             BackendCount = of_nat (length (entry_backends e))\<rparr>)"
proof (induction es arbitrary: kvs bs)
  case (Cons e es)
  define kvs1 where "kvs1 = AList.update (entry_key e)
     \<lparr>BackendOffset = of_nat (length bs), BackendCount = of_nat (length (entry_backends e))\<rparr> kvs"
  have fresh: "entry_key e \<notin> set (map fst kvs)" using Cons.prems(2) by auto
  then have keys1: "map fst kvs1 = map fst kvs @ [entry_key e]"
    by (simp add: kvs1_def update_keys)
  have "fold install_entry es (kvs1, bs @ entry_backends e) = (kvs', bs')"
    using Cons.prems(3) by (simp add: install_entry_def[of e] kvs1_def)
  from Cons.IH[OF _ _ this] Cons.prems(1,2) keys1
  have IH: "bs' = (bs @ entry_backends e) @ concat (map entry_backends es)"
      "map fst kvs' = map fst kvs1 @ map entry_key es"
      "\<And>k v. map_of kvs1 k = Some v \<Longrightarrow> map_of kvs' k = Some v"
      "\<And>us e' vs. es = us @ e' # vs \<Longrightarrow> map_of kvs' (entry_key e') =
         Some \<lparr>BackendOffset = of_nat (length ((bs @ entry_backends e) @ concat (map entry_backends us))),
               BackendCount = of_nat (length (entry_backends e'))\<rparr>"
    by auto
  have upd: "map_of kvs1 = (map_of kvs)(entry_key e \<mapsto>
      \<lparr>BackendOffset = of_nat (length bs), BackendCount = of_nat (length (entry_backends e))\<rparr>)"
    by (simp add: kvs1_def update_conv')
  show ?case
  proof (intro conjI allI impI)
    fix k v assume "map_of kvs k = Some v"
    moreover from this have "k \<noteq> entry_key e"
      using fresh by (auto dest!: map_of_SomeD intro: rev_image_eqI)
    ultimately show "map_of kvs' k = Some v" by (intro IH(3)) (simp add: upd)
  next
    fix us e' vs assume "e # es = us @ e' # vs"
    then show "map_of kvs' (entry_key e') =
       Some \<lparr>BackendOffset = of_nat (length (bs @ concat (map entry_backends us))),
             BackendCount = of_nat (length (entry_backends e'))\<rparr>"
      using IH(3)[of "entry_key e"] IH(4) upd by (cases us) auto
  qed (use IH keys1 in auto)
qed auto

lemma Compile_layout:
  assumes "Compile snapshot = Inr t"
  obtains kvs where "t_Services t = Some kvs"
    and "map fst kvs = sort_key key_rank (map fst (spec_ports snapshot))"
    and "t_Backends t = concat (map entry_backends
           (sort_key (key_rank \<circ> entry_key) (map entry_of (spec_ports snapshot))))"
    and "\<And>us e vs. sort_key (key_rank \<circ> entry_key) (map entry_of (spec_ports snapshot)) = us @ e # vs \<Longrightarrow>
       map_of kvs (entry_key e) =
         Some \<lparr>BackendOffset = of_nat (length (concat (map entry_backends us))),
               BackendCount = of_nat (length (entry_backends e))\<rparr>"
    and "distinct (map fst (spec_ports snapshot))"
    and "length (t_Backends t) \<le> maxTableEntries" and "length kvs \<le> maxTableEntries"
proof (cases "Services snapshot = []")
  case True
  then have "t = \<lparr>t_NodeIPv6 = 0, t_Services = Some [], t_Backends = []\<rparr>" "spec_ports snapshot = []"
    using assms by (simp_all add: Compile_def spec_ports_def)
  then show ?thesis by (intro that[of "[]"]) simp_all
next
  case False
  define es where "es = sort_key (key_rank \<circ> entry_key) (map entry_of (spec_ports snapshot))"
  have fst_entry: "entry_key \<circ> entry_of = fst"
    and len_entry: "length \<circ> (entry_backends \<circ> entry_of) = length \<circ> snd"
    by (auto simp: entry_of_def)
  obtain entries seen n
    where loop: "fold_res compile_service (Services snapshot) ([], {}, 0) = Inr (entries, seen, n)"
    using assms False
    by (cases "fold_res compile_service (Services snapshot) ([], {}, 0)")
      (auto simp: Compile_def split: if_splits)
  obtain kvs bs
    where inst: "fold install_entry (sort_key (key_rank \<circ> entry_key) entries) ([], []) = (kvs, bs)"
    by fastforce
  have t: "t_Services t = Some kvs" "t_Backends t = bs"
    using assms False loop inst by (auto simp: Compile_def sort_entries split: if_splits)
  have "compile_inv [] ([], {}, 0)" by (simp add: compile_inv_def)
  from compile_services_inv[OF loop this]
  have inv: "compile_inv (spec_ports snapshot) (entries, seen, n)" by (simp add: spec_ports_def)
  then have entries: "entries = map entry_of (spec_ports snapshot)"
    and dist: "distinct (map fst (spec_ports snapshot))"
    and n: "sum_list (map (length \<circ> snd) (spec_ports snapshot)) \<le> maxTableEntries"
    and len: "length (spec_ports snapshot) \<le> maxTableEntries"
    by (auto simp: compile_inv_def)
  have keys: "map entry_key es = sort_key key_rank (map fst (spec_ports snapshot))"
    by (simp add: es_def map_sort_key fst_entry)
  have inst': "fold install_entry es ([], []) = (kvs, bs)"
    using inst by (simp add: es_def entries)
  have "distinct (map entry_key es)" by (simp add: keys dist)
  from install_entries[OF this _ inst']
  have bs: "bs = concat (map entry_backends es)" and kvs: "map fst kvs = map entry_key es"
    and lay: "\<And>us e vs. es = us @ e # vs \<Longrightarrow> map_of kvs (entry_key e) =
       Some \<lparr>BackendOffset = of_nat (length (concat (map entry_backends us))),
             BackendCount = of_nat (length (entry_backends e))\<rparr>"
    by simp_all
  have "length bs = sum_list (map (length \<circ> entry_backends) es)"
    by (simp add: bs length_concat comp_def)
  also have "\<dots> = sum_mset (image_mset (length \<circ> entry_backends) (mset es))"
    by (simp flip: sum_mset_sum_list)
  also have "\<dots> = sum_list (map (length \<circ> snd) (spec_ports snapshot))"
    by (simp add: es_def image_mset.compositionality comp_assoc len_entry flip: sum_mset_sum_list)
  finally have "length (t_Backends t) \<le> maxTableEntries" using n t by simp
  moreover have "length kvs \<le> maxTableEntries"
    using len arg_cong[OF kvs, of length] by (simp add: es_def)
  moreover have "t_Backends t = concat (map entry_backends es)" using t bs by simp
  moreover have "map fst kvs = sort_key key_rank (map fst (spec_ports snapshot))"
    using kvs keys by simp
  ultimately show ?thesis
    using that[OF t(1)] lay dist unfolding es_def by blast
qed

text \<open>Looking up the key of any port yields exactly its backends, sorted.\<close>

lemma Compile_lookup:
  assumes "Compile snapshot = Inr t" and "(k, bs) \<in> set (spec_ports snapshot)"
  obtains v where "lookup_service t k = Some v"
    and "table_slice t v = sort_slice backendLess bs"
    and "unat (BackendOffset v) + unat (BackendCount v) \<le> length (t_Backends t)"
    and "unat (BackendCount v) = length bs"
proof -
  from assms(1) obtain kvs where kvs: "t_Services t = Some kvs"
    and lay: "t_Backends t = concat (map entry_backends
           (sort_key (key_rank \<circ> entry_key) (map entry_of (spec_ports snapshot))))"
    and at: "\<And>us e vs. sort_key (key_rank \<circ> entry_key) (map entry_of (spec_ports snapshot)) = us @ e # vs \<Longrightarrow>
       map_of kvs (entry_key e) =
         Some \<lparr>BackendOffset = of_nat (length (concat (map entry_backends us))),
               BackendCount = of_nat (length (entry_backends e))\<rparr>"
    and max: "length (t_Backends t) \<le> maxTableEntries"
    by (rule Compile_layout) blast
  have "entry_of (k, bs) \<in> set (sort_key (key_rank \<circ> entry_key) (map entry_of (spec_ports snapshot)))"
    using assms(2) by auto
  then obtain us vs
    where split: "sort_key (key_rank \<circ> entry_key) (map entry_of (spec_ports snapshot)) = us @ entry_of (k, bs) # vs"
    by (meson split_list)
  let ?off = "length (concat (map entry_backends us))"
  have lay': "t_Backends t = concat (map entry_backends us) @ sort_slice backendLess bs
      @ concat (map entry_backends vs)"
    unfolding lay split by (simp add: entry_of_def)
  have len: "?off + length bs \<le> length (t_Backends t)"
    by (simp add: lay')
  then have "?off + length bs \<le> 65536" using max by (simp add: maxTableEntries_def)
  then have u: "unat (of_nat ?off :: 32 word) = ?off" "unat (of_nat (length bs) :: 32 word) = length bs"
    by (simp_all add: unat_of_nat)
  show ?thesis
  proof (rule that)
    show "lookup_service t k = Some \<lparr>BackendOffset = of_nat ?off, BackendCount = of_nat (length bs)\<rparr>"
      using at[OF split] kvs by (simp add: lookup_service_def entry_of_def)
  qed (use len u in \<open>simp_all add: table_slice_def lay'\<close>)
qed

subsection \<open>Keys that are looked up belong to the snapshot\<close>

lemma Compile_keys:
  assumes "Compile snapshot = Inr t" and "lookup_service t k = Some v"
  shows "k \<in> fst ` set (spec_ports snapshot)"
proof -
  obtain kvs where kvs: "t_Services t = Some kvs"
    and keys: "map fst kvs = sort_key key_rank (map fst (spec_ports snapshot))"
    using assms(1) by (rule Compile_layout) blast
  from assms(2) kvs have "k \<in> set (map fst kvs)"
    by (auto simp: lookup_service_def dest!: map_of_SomeD intro: rev_image_eqI)
  then show ?thesis by (simp add: keys)
qed

subsection \<open>The index of a selected backend\<close>

lemma select_index:
  fixes c :: "32 word" and h :: "64 word"
  assumes "c \<noteq> 0"
  shows "unat (ucast (h mod ucast c) :: 32 word) < unat c"
proof -
  have c: "unat (ucast c :: 64 word) = unat c" by (simp add: unsigned_ucast_eq take_bit_nat_eq_self_iff
        order_less_trans[OF unsigned_less])
  have "unat (h mod ucast c) < unat c"
    using assms by (simp add: unat_mod c unat_gt_0)
  moreover have "unat (h mod ucast c) < 2 ^ 32"
    using calculation unat_less_2p[of c] by simp
  ultimately show ?thesis
    by (simp add: unsigned_ucast_eq take_bit_nat_eq_self)
qed

lemma SelectBackend_nth:
  assumes "lookup_service t k = Some v" and "BackendCount v \<noteq> 0"
    and "unat (BackendOffset v) + unat (BackendCount v) \<le> length (t_Backends t)"
    and "length (t_Backends t) \<le> maxTableEntries"
  obtains i where "i < unat (BackendCount v)"
    and "SelectBackend t k flow = Some (t_Backends t ! (unat (BackendOffset v) + i))"
proof -
  let ?h = "be_word (take 8 (sha512 flow)) :: 64 word"
  let ?d = "ucast (?h mod ucast (BackendCount v)) :: 32 word"
  have d: "unat ?d < unat (BackendCount v)" by (rule select_index[OF assms(2)])
  then have "unat (BackendOffset v) + unat ?d < 2 ^ 32"
    using assms(3,4) by (simp add: maxTableEntries_def)
  then have "unat (BackendOffset v + ?d) = unat (BackendOffset v) + unat ?d"
    by (simp add: unat_word_ariths)
  with d assms(1,2,3) that[of "unat ?d"] show ?thesis
    by (simp add: SelectBackend_def Let_def)
qed

section \<open>Which snapshots compile\<close>

definition valid_backend :: "Backend \<Rightarrow> bool" where
  "valid_backend b \<longleftrightarrow> Is6 (be_Address b) \<and> \<not> Is4In6 (be_Address b) \<and> be_Port b \<noteq> 0"

definition valid_port :: "Port \<Rightarrow> bool" where
  "valid_port p \<longleftrightarrow> port_Port p \<noteq> 0 \<and> port_Protocol p \<in> {ProtocolTCP, ProtocolUDP} \<and>
     (\<forall>b \<in> set (port_Backends p). valid_backend b)"

text \<open>The ports fit: no key twice, and at most 65536 entries in each table.\<close>

definition ports_fit :: "(ServiceKey \<times> BackendValue list) list \<Rightarrow> bool" where
  "ports_fit l \<longleftrightarrow> distinct (map fst l) \<and> length l \<le> maxTableEntries \<and>
     sum_list (map (length \<circ> snd) l) \<le> maxTableEntries"

definition valid_snapshot :: "dataplane_Snapshot \<Rightarrow> bool" where
  "valid_snapshot s \<longleftrightarrow> Services s = [] \<or>
     (Is6 (NodeIPv6 s) \<and> \<not> Is4In6 (NodeIPv6 s) \<and>
      (\<forall>v \<in> set (Services s). Is6 (VIP v) \<and> \<not> Is4In6 (VIP v) \<and> (\<forall>p \<in> set (Ports v). valid_port p)) \<and>
      ports_fit (spec_ports s))"

lemma compile_backends_ok:
  "(\<exists>r. fold_res compile_backend bs acc = Inr r) \<longleftrightarrow> (\<forall>b \<in> set bs. valid_backend b)"
proof (induction bs arbitrary: acc)
  case (Cons b bs)
  then show ?case by (auto simp: compile_backend_def[of b] valid_backend_def)
qed simp

text \<open>A port compiles exactly when it is valid, its key is new, and there is room.\<close>

lemma compile_port_ok:
  assumes "compile_inv done st"
  shows "(\<exists>st'. compile_port (VIP s) p st = Inr st') \<longleftrightarrow>
    valid_port p \<and> ports_fit (done @ [(service_key s p, map backend_value (port_Backends p))])"
proof -
  obtain r where r: "fold_res compile_backend (port_Backends p) [] = r" by blast
  show ?thesis
    using assms compile_backends_ok[of "port_Backends p" "[]"] r
    by (cases st; cases r)
      (auto simp: compile_inv_def compile_port_def valid_port_def ports_fit_def service_key_def Let_def)
qed

lemma ports_fit_append: "ports_fit (a @ b) \<Longrightarrow> ports_fit a"
  by (simp add: ports_fit_def)

lemma compile_inv_fit: "compile_inv done st \<Longrightarrow> ports_fit done"
  by (cases st) (auto simp: compile_inv_def ports_fit_def)

lemma compile_ports_ok:
  "compile_inv done st \<Longrightarrow> (\<exists>st'. fold_res (compile_port (VIP s)) ps st = Inr st') \<longleftrightarrow>
    (\<forall>p \<in> set ps. valid_port p) \<and>
    ports_fit (done @ map (\<lambda>p. (service_key s p, map backend_value (port_Backends p))) ps)"
proof (induction ps arbitrary: st "done")
  case Nil
  then show ?case by (cases st) (auto dest: compile_inv_fit)
next
  case (Cons p ps)
  let ?x = "(service_key s p, map backend_value (port_Backends p))"
  show ?case
  proof (cases "compile_port (VIP s) p st")
    case (Inl e)
    with compile_port_ok[OF Cons.prems, of s p] show ?thesis
      by (auto dest: ports_fit_append[of "done @ [?x]", simplified])
  next
    case (Inr st1)
    have "valid_port p" using compile_port_ok[OF Cons.prems, of s p] Inr by blast
    with Inr Cons.IH[OF compile_port_inv[OF Inr Cons.prems]] show ?thesis by simp
  qed
qed

lemma compile_services_ok:
  "compile_inv done st \<Longrightarrow> (\<exists>st'. fold_res compile_service ss st = Inr st') \<longleftrightarrow>
    (\<forall>v \<in> set ss. Is6 (VIP v) \<and> \<not> Is4In6 (VIP v) \<and> (\<forall>p \<in> set (Ports v). valid_port p)) \<and>
    ports_fit (done @ concat (map (\<lambda>s. map (\<lambda>p. (service_key s p,
      map backend_value (port_Backends p))) (Ports s)) ss))"
proof (induction ss arbitrary: st "done")
  case Nil
  then show ?case by (cases st) (auto dest: compile_inv_fit)
next
  case (Cons s ss)
  let ?x = "map (\<lambda>p. (service_key s p, map backend_value (port_Backends p))) (Ports s)"
  note ok = compile_ports_ok[OF Cons.prems, of s "Ports s"]
  show ?case
  proof (cases "compile_service s st")
    case (Inl e)
    with ok show ?thesis
      by (auto simp: compile_service_def[of s] split: if_splits
          dest: ports_fit_append[of "done @ ?x", simplified])
  next
    case (Inr st1)
    then have loop: "fold_res (compile_port (VIP s)) (Ports s) st = Inr st1"
      and vip: "Is6 (VIP s)" "\<not> Is4In6 (VIP s)"
      by (auto simp: compile_service_def split: if_splits)
    have "\<forall>p \<in> set (Ports s). valid_port p" using ok loop by blast
    with vip Inr Cons.IH[OF compile_ports_inv[OF loop Cons.prems]] show ?thesis by simp
  qed
qed

lemma Compile_ok: "(\<exists>t. Compile s = Inr t) \<longleftrightarrow> valid_snapshot s"
proof -
  have init: "compile_inv [] ([], {}, 0)" by (simp add: compile_inv_def)
  show ?thesis
    using compile_services_ok[OF init, of "Services s"]
    by (auto simp: Compile_def valid_snapshot_def spec_ports_def Let_def
        split: sum.split prod.split)
qed

section \<open>Tables depend only on the content of a snapshot\<close>

definition tables_of :: "ip16 \<Rightarrow> entry list \<Rightarrow> Tables" where
  "tables_of node es =
     (let (services, backends) = fold install_entry es ([], [])
      in \<lparr>t_NodeIPv6 = node, t_Services = Some services, t_Backends = backends\<rparr>)"

text \<open>The content of a snapshot: for each lookup key, the bag of its backends.\<close>

definition snapshot_content :: "dataplane_Snapshot \<Rightarrow> (ServiceKey \<times> BackendValue multiset) set" where
  "snapshot_content s = (\<lambda>(k, bs). (k, mset bs)) ` set (spec_ports s)"

lemma Compile_tables_of:
  assumes "Compile s = Inr t" and "Services s \<noteq> []"
  shows "t = tables_of (As16 (NodeIPv6 s))
             (sort_key (key_rank \<circ> entry_key) (map entry_of (spec_ports s)))"
proof -
  obtain entries seen n
    where loop: "fold_res compile_service (Services s) ([], {}, 0) = Inr (entries, seen, n)"
    using assms
    by (cases "fold_res compile_service (Services s) ([], {}, 0)")
      (auto simp: Compile_def split: if_splits)
  have "compile_inv [] ([], {}, 0)" by (simp add: compile_inv_def)
  from compile_services_inv[OF loop this] have "entries = map entry_of (spec_ports s)"
    by (simp add: compile_inv_def spec_ports_def)
  with assms loop show ?thesis
    by (auto simp: Compile_def tables_of_def sort_entries split: if_splits prod.splits)
qed

lemma sort_backends_mset: "mset xs = mset ys \<Longrightarrow> sort_slice backendLess xs = sort_slice backendLess ys"
  unfolding sort_backends by (rule sort_key_perm) (auto intro: inj_on_subset[OF inj_backend_rank])

lemma content_entries:
  assumes "snapshot_content s1 = snapshot_content s2"
  shows "entry_of ` set (spec_ports s1) \<subseteq> entry_of ` set (spec_ports s2)"
proof
  fix e assume "e \<in> entry_of ` set (spec_ports s1)"
  then obtain k bs where e: "e = entry_of (k, bs)" and "(k, bs) \<in> set (spec_ports s1)" by auto
  then have "(k, mset bs) \<in> snapshot_content s1"
    unfolding snapshot_content_def by (intro image_eqI[of _ _ "(k, bs)"]) simp_all
  then have "(k, mset bs) \<in> snapshot_content s2" by (simp only: assms)
  then obtain bs' where "(k, bs') \<in> set (spec_ports s2)" and "mset bs' = mset bs"
    by (auto simp: snapshot_content_def)
  moreover from this have "entry_of (k, bs') = e"
    using sort_backends_mset[of bs' bs] by (simp add: e entry_of_def)
  ultimately show "e \<in> entry_of ` set (spec_ports s2)" by (metis image_eqI)
qed

lemma sorted_entries_content:
  assumes "snapshot_content s1 = snapshot_content s2"
    and "distinct (map fst (spec_ports s1))" and "distinct (map fst (spec_ports s2))"
  shows "sort_key (key_rank \<circ> entry_key) (map entry_of (spec_ports s1)) =
         sort_key (key_rank \<circ> entry_key) (map entry_of (spec_ports s2))"
proof (rule sort_key_perm)
  have keys: "map entry_key (map entry_of l) = map fst l" for l
    by (auto simp: entry_of_def)
  have "distinct (map entry_of (spec_ports s1))" "distinct (map entry_of (spec_ports s2))"
    using assms(2,3) keys by (metis distinct_map)+
  moreover have "entry_of ` set (spec_ports s1) = entry_of ` set (spec_ports s2)"
    using assms(1) content_entries[of s1 s2] content_entries[of s2 s1] by blast
  ultimately show "mset (map entry_of (spec_ports s1)) = mset (map entry_of (spec_ports s2))"
    by (metis set_eq_iff_mset_eq_distinct set_map)
  have "inj_on entry_key (set (map entry_of (spec_ports s1)))"
    using assms(2) keys by (metis distinct_map)
  then show "inj_on (key_rank \<circ> entry_key) (set (map entry_of (spec_ports s1)))"
    by (rule comp_inj_on) (auto intro: inj_on_subset[OF inj_key_rank])
qed

section \<open>Properties\<close>

text \<open>
  C4: a snapshot compiles exactly when it is valid: no Services at all, or an IPv6 node
  address, IPv6 virtual addresses, TCP or UDP ports and IPv6 backends with non-zero ports,
  no lookup key twice, and at most 65536 service ports and 65536 backends in total.
\<close>

theorem compile_accepts_valid: "(\<exists>t. Compile s = Inr t) \<longleftrightarrow> valid_snapshot s"
  by (rule Compile_ok)

text \<open>
  C1: the compiled tables implement the snapshot. Looking up the key of any port of any
  Service finds the slice of the backend table that holds exactly the backends of that port,
  in sorted order; and no other key is found.
\<close>

theorem compile_refines_snapshot:
  assumes "Compile s = Inr t"
  shows "(\<forall>(k, bs) \<in> set (spec_ports s). \<exists>v. lookup_service t k = Some v \<and>
            table_slice t v = sort_slice backendLess bs)
       \<and> (\<forall>k v. lookup_service t k = Some v \<longrightarrow> k \<in> fst ` set (spec_ports s))"
  using Compile_lookup[OF assms] Compile_keys[OF assms] by blast

definition example_snapshot :: dataplane_Snapshot where
  "example_snapshot =
     \<lparr>NodeIPv6 = Addr6 0x26000000000000000000000000000001 [],
      Services = [\<lparr>VIP = Addr6 0xfd506f646d6900000000000000000001 [],
        Ports = [\<lparr>port_Protocol = 6, port_Port = 443,
          port_Backends = [\<lparr>be_Address = Addr6 0x26000000000000000000000000000020 [], be_Port = 8443\<rparr>,
                           \<lparr>be_Address = Addr6 0x26000000000000000000000000000010 [], be_Port = 8443\<rparr>]\<rparr>]\<rparr>]\<rparr>"

definition example_tables :: Tables where
  "example_tables =
     \<lparr>t_NodeIPv6 = 0x26000000000000000000000000000001,
      t_Services = Some [(\<lparr>key_VIP = 0xfd506f646d6900000000000000000001, key_Port = 443, key_Protocol = 6\<rparr>,
                          \<lparr>BackendOffset = 0, BackendCount = 2\<rparr>)],
      t_Backends = [\<lparr>bv_Address = 0x26000000000000000000000000000010, bv_Port = 8443\<rparr>,
                    \<lparr>bv_Address = 0x26000000000000000000000000000020, bv_Port = 8443\<rparr>]\<rparr>"

lemma example_compiles: "Compile example_snapshot = Inr example_tables"
  by (simp add: example_snapshot_def example_tables_def Compile_def compile_service_def
      compile_port_def compile_backend_def install_entry_def backendLess_def Is6_def Is4In6_def
      As16_def ProtocolTCP_def ProtocolUDP_def maxTableEntries_def Let_def)

theorem compile_refines_snapshot_witness:
  "Compile example_snapshot = Inr example_tables \<and>
   (\<exists>v. lookup_service example_tables
           \<lparr>key_VIP = 0xfd506f646d6900000000000000000001, key_Port = 443, key_Protocol = 6\<rparr> = Some v \<and>
        table_slice example_tables v = t_Backends example_tables)"
  using compile_refines_snapshot[OF example_compiles] example_compiles
  by (simp add: example_snapshot_def spec_ports_def service_key_def backend_value_def As16_def
      backendLess_def) (simp add: example_tables_def)

text \<open>
  C6: the tables fit the kernel maps and the 32-bit offsets are exact: at most 65536 backends
  and 65536 services, and the range of every service lies inside the backend table.
\<close>

theorem compile_bounds:
  assumes "Compile s = Inr t"
  shows "length (t_Backends t) \<le> 65536 \<and> (\<exists>kvs. t_Services t = Some kvs \<and> length kvs \<le> 65536) \<and>
    (\<forall>k v. lookup_service t k = Some v \<longrightarrow>
       unat (BackendOffset v) + unat (BackendCount v) \<le> length (t_Backends t))"
proof -
  obtain kvs where "t_Services t = Some kvs" "length (t_Backends t) \<le> maxTableEntries"
      "length kvs \<le> maxTableEntries"
    using assms by (rule Compile_layout) blast
  moreover have "unat (BackendOffset v) + unat (BackendCount v) \<le> length (t_Backends t)"
    if v: "lookup_service t k = Some v" for k v
  proof -
    obtain bs where "(k, bs) \<in> set (spec_ports s)" using Compile_keys[OF assms v] by auto
    from Compile_lookup[OF assms this] v show ?thesis by (metis option.inject)
  qed
  ultimately show ?thesis by (simp add: maxTableEntries_def)
qed

theorem compile_bounds_witness:
  "Compile example_snapshot = Inr example_tables \<and> length (t_Backends example_tables) \<le> 65536"
  using compile_bounds[OF example_compiles] example_compiles by simp

text \<open>
  C2: backend selection is total and correct on compiled tables. For a port with backends,
  every flow selects one of them; for a port without backends, or a key that is not in the
  snapshot, no backend is selected.
\<close>

theorem select_backend_correct:
  assumes "Compile s = Inr t"
  shows "(\<forall>(k, bs) \<in> set (spec_ports s).
            if bs = [] then SelectBackend t k flow = None
            else \<exists>b \<in> set bs. SelectBackend t k flow = Some b)
       \<and> (\<forall>k. k \<notin> fst ` set (spec_ports s) \<longrightarrow> SelectBackend t k flow = None)"
proof (intro conjI ballI allI impI)
  fix x assume x: "x \<in> set (spec_ports s)"
  obtain k bs where k: "x = (k, bs)" by fastforce
  from Compile_lookup[OF assms x[unfolded k]] obtain v where v: "lookup_service t k = Some v"
    and slice: "table_slice t v = sort_slice backendLess bs"
    and range: "unat (BackendOffset v) + unat (BackendCount v) \<le> length (t_Backends t)"
    and count: "unat (BackendCount v) = length bs" .
  have max: "length (t_Backends t) \<le> maxTableEntries"
    using assms by (rule Compile_layout)
  show "case x of (k, bs) \<Rightarrow> if bs = [] then SelectBackend t k flow = None
            else \<exists>b \<in> set bs. SelectBackend t k flow = Some b"
  proof (cases "bs = []")
    case True
    with count v show ?thesis by (simp add: k SelectBackend_def unat_eq_0)
  next
    case False
    with count have "BackendCount v \<noteq> 0" by auto
    from SelectBackend_nth[OF v this range max, of flow] obtain i where i: "i < unat (BackendCount v)"
      and sel: "SelectBackend t k flow = Some (t_Backends t ! (unat (BackendOffset v) + i))" .
    have "table_slice t v ! i = t_Backends t ! (unat (BackendOffset v) + i)"
      using i range by (simp add: table_slice_def)
    moreover have "table_slice t v ! i \<in> set bs"
      using i count slice by (metis length_sort_slice nth_mem set_sort_slice)
    ultimately show ?thesis using False sel k by auto
  qed
next
  fix k assume "k \<notin> fst ` set (spec_ports s)"
  then show "SelectBackend t k flow = None"
    using Compile_keys[OF assms] by (auto simp: SelectBackend_def split: option.split)
qed

theorem select_backend_correct_witness:
  "Compile example_snapshot = Inr example_tables \<and>
   SelectBackend example_tables \<lparr>key_VIP = 0, key_Port = 443, key_Protocol = 6\<rparr> ''flow'' = None"
  using select_backend_correct[OF example_compiles, of "''flow''"] example_compiles
  by (simp add: example_snapshot_def spec_ports_def service_key_def As16_def)

text \<open>
  C3: compilation is deterministic in the content: two snapshots with the same node address
  that offer the same backends under the same keys, in whatever order their Services, ports
  and backends are listed, compile to the same tables.
\<close>

theorem compile_order_independent:
  assumes "Compile s1 = Inr t1" and "Compile s2 = Inr t2"
    and "NodeIPv6 s1 = NodeIPv6 s2" and "snapshot_content s1 = snapshot_content s2"
    and "Services s1 \<noteq> []" and "Services s2 \<noteq> []"
  shows "t1 = t2"
proof -
  have "distinct (map fst (spec_ports s1))" "distinct (map fst (spec_ports s2))"
    using Compile_layout[OF assms(1)] Compile_layout[OF assms(2)] by blast+
  from sorted_entries_content[OF assms(4) this] show ?thesis
    using assms(3) Compile_tables_of[OF assms(1,5)] Compile_tables_of[OF assms(2,6)] by simp
qed

definition example_snapshot' :: dataplane_Snapshot where
  "example_snapshot' = example_snapshot\<lparr>Services := map (\<lambda>s. s\<lparr>Ports := map (\<lambda>p.
     p\<lparr>port_Backends := rev (port_Backends p)\<rparr>) (Ports s)\<rparr>) (Services example_snapshot)\<rparr>"

theorem compile_order_independent_witness: "Compile example_snapshot' = Inr example_tables"
proof -
  have "valid_snapshot example_snapshot" using Compile_ok example_compiles by blast
  then have "valid_snapshot example_snapshot'"
    by (simp add: valid_snapshot_def ports_fit_def spec_ports_def example_snapshot_def
        example_snapshot'_def valid_port_def service_key_def valid_backend_def)
  then obtain t where t: "Compile example_snapshot' = Inr t" using Compile_ok by blast
  have "t = example_tables"
    by (rule compile_order_independent[OF t example_compiles])
      (simp_all add: example_snapshot_def example_snapshot'_def snapshot_content_def spec_ports_def
        service_key_def add_mset_commute)
  with t show ?thesis by simp
qed

subsection \<open>Virtual addresses\<close>

lemma DeriveVIP_word:
  obtains w where "DeriveVIP c ns n = Addr6 w []" and "drop_bit 64 w = 0xfd506f646d690000"
proof -
  define p where "p = [CHR 0xfd, CHR 0x50, CHR 0x6f, CHR 0x64, CHR 0x6d, CHR 0x69, CHR 0x00, CHR 0x00]"
  define q where "q = take 8 (sha512 (c @ [CHR 0x00] @ ns @ [CHR 0x00] @ n))"
  have len: "length p = 8" "length q = 8" by (simp_all add: p_def q_def)
  let ?w = "be_word (p @ q) :: 128 word"
  have "unat ?w = be_nat p * 256 ^ 8 + be_nat q"
    using unat_be_word[of "p @ q", where 'w = 128] len by (simp add: be_nat_append)
  moreover have "be_nat q < 256 ^ 8" using be_nat_less[of q] len by simp
  moreover have "unat (drop_bit 64 ?w) = unat ?w div 2 ^ 64"
    by (subst unat_drop_bit_eq) (simp only: drop_bit_eq_div)
  ultimately have "unat (drop_bit 64 ?w) = be_nat p" by simp
  also have "be_nat p = unat (0xfd506f646d690000 :: 128 word)" by (simp add: p_def)
  finally have "drop_bit 64 ?w = 0xfd506f646d690000" by (rule unsigned_word_eqI)
  then show ?thesis
    by (intro that[of ?w]) (simp_all add: DeriveVIP_def AddrFrom16_def p_def q_def Let_def)
qed

text \<open>
  Every derived virtual address lies in \<open>fd50:6f64:6d69::/64\<close>, is IPv6, not IPv4-mapped
  and global unicast, and survives printing and parsing, so that the textual address in a
  contract can be compared with the derived one.
\<close>

lemma derive_vip_in_prefix:
  "Is6 (DeriveVIP c ns n) \<and> \<not> Is4In6 (DeriveVIP c ns n) \<and> IsGlobalUnicast (DeriveVIP c ns n) \<and>
   ParseAddr (addr_String (DeriveVIP c ns n)) = Some (DeriveVIP c ns n) \<and>
   prefix_Contains \<lparr>prefix_Addr = Addr6 0xfd506f646d6900000000000000000000 [], prefix_Bits = Some 64\<rparr>
     (DeriveVIP c ns n)"
proof -
  obtain w where w: "DeriveVIP c ns n = Addr6 w []" and hi: "drop_bit 64 w = 0xfd506f646d690000"
    by (rule DeriveVIP_word)
  have d: "drop_bit (64 + k) w = drop_bit k 0xfd506f646d690000" for k
    by (simp add: hi flip: drop_bit_drop_bit add: add.commute)
  have "drop_bit 32 w \<noteq> 0xffff"
  proof
    assume "drop_bit 32 w = 0xffff"
    then have "drop_bit 32 (drop_bit 32 w) = drop_bit 32 0xffff" by simp
    then show False using hi by simp
  qed
  then have m: "\<not> Is4In6 (Addr6 w [])" by (simp add: Is4In6_def)
  have "drop_bit 120 w = 0xfd" "drop_bit 118 w = 0x3f5" using d[of 56] d[of 54] by simp_all
  moreover have "w \<noteq> 0" "w \<noteq> 1" using hi by auto
  ultimately have "IsGlobalUnicast (Addr6 w [])"
    using m by (simp add: IsGlobalUnicast_def IsLoopback_def IsMulticast_def IsLinkLocalUnicast_def
        Unmap_def)
  moreover have "(0xfd506f646d6900000000000000000000 XOR w) AND mask6 64 = 0"
    by (simp add: and_mask6 drop_bit_xor hi)
  ultimately show ?thesis
    using m ParseAddr_String[OF m] by (simp add: w Is6_def prefix_Contains_def)
qed

section \<open>The contract of a dataplane\<close>

text \<open>
  The interface \<open>Dataplane\<close> of the service controller: reconciling a snapshot either
  succeeds, and then the active tables are the compiled snapshot, or fails, and then the
  active tables are the ones that were active before. Only compiled tables are ever active.
\<close>

locale dataplane_contract =
  fixes reconcile :: "dataplane_Snapshot \<Rightarrow> 'd \<Rightarrow> error option \<times> 'd"
    and active :: "'d \<Rightarrow> Tables"
  assumes reconcile_ok: "reconcile s d = (None, d') \<Longrightarrow> Compile s = Inr (active d')"
    and reconcile_err: "reconcile s d = (Some e, d') \<Longrightarrow> active d' = active d"
begin

text \<open>A sequence of reconciliations, and the last snapshot that was accepted.\<close>

fun reconcile_all :: "dataplane_Snapshot list \<Rightarrow> 'd \<Rightarrow> 'd" where
  "reconcile_all [] d = d"
| "reconcile_all (s # ss) d = reconcile_all ss (snd (reconcile s d))"

fun last_accepted :: "dataplane_Snapshot list \<Rightarrow> 'd \<Rightarrow> dataplane_Snapshot option" where
  "last_accepted [] d = None"
| "last_accepted (s # ss) d =
     (case last_accepted ss (snd (reconcile s d)) of
        Some s' \<Rightarrow> Some s'
      | None \<Rightarrow> if fst (reconcile s d) = None then Some s else None)"

lemma active_after:
  "(case last_accepted ss d of
      Some s \<Rightarrow> Compile s = Inr (active (reconcile_all ss d))
    | None \<Rightarrow> active (reconcile_all ss d) = active d)"
proof (induction ss arbitrary: d)
  case (Cons s ss)
  obtain e d' where r: "reconcile s d = (e, d')" by fastforce
  with Cons[of d'] show ?case
    using reconcile_ok[of s d d'] reconcile_err[of s d _ d']
    by (cases e) (auto split: option.splits)
qed simp

lemma flows_reach_backends:
  assumes "reconcile s d = (None, d')" and "(k, bs) \<in> set (spec_ports s)" and "bs \<noteq> []"
  obtains v where "lookup_service (active d') k = Some v" and "set (table_slice (active d') v) = set bs"
proof -
  obtain v where "lookup_service (active d') k = Some v"
      "table_slice (active d') v = sort_slice backendLess bs"
    using reconcile_ok[OF assms(1)] assms(2) by (rule Compile_lookup)
  then show ?thesis using that[of v] by simp
qed

end

lemma cloneTables_Some [simp]: "t_Services t = Some m \<Longrightarrow> cloneTables t = t"
  by (simp add: cloneTables_def)

lemma Compile_Services_Some: "Compile s = Inr t \<Longrightarrow> \<exists>m. t_Services t = Some m"
  by (erule Compile_layout) blast

lemma Reconcile_cases:
  assumes "dataplane_Reconcile ops ctx s r = (err, r')"
  shows "case err of
     None \<Rightarrow> Compile s = Inr (tables r') \<and>
       (platform r' \<noteq> None \<longleftrightarrow> Services s \<noteq> [] \<or> (platform r \<noteq> None \<and> Compile s = Inr (tables r)))
   | Some e \<Rightarrow> tables r' = tables r \<and> (platform r' = None \<longleftrightarrow> platform r = None)"
proof (cases "Compile s")
  case (Inl e)
  then show ?thesis
    using assms by (auto simp: dataplane_Reconcile_def split: option.splits)
next
  case (Inr t)
  then have c: "cloneTables t = t" using Compile_Services_Some[OF Inr] by auto
  show ?thesis
    using assms Inr
    by (auto simp: dataplane_Reconcile_def Let_def c split: option.splits if_splits sum.splits prod.splits)
      metis
qed

interpretation reconciler: dataplane_contract "dataplane_Reconcile ops ctx" tables for ops ctx
  by unfold_locales (auto dest!: Reconcile_cases)

text \<open>
  The invariant of the reconciler when the node has a non-zero address: a platform state is
  loaded exactly when the tables carry a node address, that is, when there are Services.
\<close>

definition reconciler_inv :: "'p dataplane_Reconciler \<Rightarrow> bool" where
  "reconciler_inv r \<longleftrightarrow> (platform r \<noteq> None \<longleftrightarrow> t_NodeIPv6 (tables r) \<noteq> 0)"

lemma Compile_node:
  "Compile s = Inr t \<Longrightarrow> t_NodeIPv6 t = (if Services s = [] then 0 else As16 (NodeIPv6 s))"
  by (auto simp: Compile_def split: if_splits sum.splits prod.splits)

lemma reconciler_inv_New: "reconciler_inv (dataplane_New p)"
  by (simp add: reconciler_inv_def dataplane_New_def TablesZero_def)

lemma reconciler_inv_Close:
  "dataplane_Close ops r = (err, r') \<Longrightarrow> reconciler_inv r \<Longrightarrow> reconciler_inv r'"
  by (auto simp: dataplane_Close_def reconciler_inv_def TablesZero_def split: option.splits)

text \<open>
  C5: reconciling is atomic in the tables and tracks activation. On success the active tables
  are exactly the compiled snapshot and the kernel state is loaded exactly when the snapshot
  has Services; on an error the tables, and whether a kernel state is loaded, are unchanged.
  The invariant that relates the two is kept, whatever the kernel operations return.
\<close>

theorem dataplane_reconcile_atomic:
  assumes "dataplane_Reconcile ops ctx s r = (err, r')"
    and "reconciler_inv r" and "As16 (NodeIPv6 s) \<noteq> 0"
  shows "reconciler_inv r' \<and>
    (case err of
       None \<Rightarrow> Compile s = Inr (tables r') \<and> (platform r' \<noteq> None \<longleftrightarrow> Services s \<noteq> [])
     | Some e \<Rightarrow> tables r' = tables r \<and> (platform r' \<noteq> None \<longleftrightarrow> platform r \<noteq> None))"
  using Reconcile_cases[OF assms(1)] assms(2,3)
  by (auto simp: reconciler_inv_def split: option.splits dest: Compile_node)

definition example_ops :: "nat platform_ops" where
  "example_ops = \<lparr>activate = (\<lambda>t p old. Inr 1), refresh = (\<lambda>p. (None, p)), close = (\<lambda>p. None)\<rparr>"

definition example_prefix :: prefix where
  "example_prefix = \<lparr>prefix_Addr = Addr6 0x26000000000000010000000000000000 [], prefix_Bits = Some 80\<rparr>"

theorem dataplane_reconcile_atomic_witness:
  "dataplane_Reconcile example_ops None example_snapshot (dataplane_New example_prefix)
     = (None, \<lparr>podPrefix = example_prefix, tables = example_tables, platform = Some 1\<rparr>) \<and>
   reconciler_inv \<lparr>podPrefix = example_prefix, tables = example_tables, platform = Some (1::nat)\<rparr>"
proof -
  have node: "As16 (NodeIPv6 example_snapshot) \<noteq> 0" by (simp add: example_snapshot_def As16_def)
  have sv: "Services example_snapshot \<noteq> []" by (simp add: example_snapshot_def)
  have pf: "prefix_IsValid example_prefix" "Is6 (prefix_Addr example_prefix)"
      "\<not> Is4In6 (prefix_Addr example_prefix)" "Masked example_prefix = example_prefix"
    by (simp_all add: example_prefix_def prefix_IsValid_def Is6_def Is4In6_def Masked_def and_mask6)
  have cl: "cloneTables example_tables = example_tables" "example_tables \<noteq> TablesZero"
    by (simp_all add: example_tables_def cloneTables_def TablesZero_def)
  have run: "dataplane_Reconcile example_ops None example_snapshot (dataplane_New example_prefix)
     = (None, \<lparr>podPrefix = example_prefix, tables = example_tables, platform = Some 1\<rparr>)"
    using sv pf cl by (simp add: dataplane_Reconcile_def example_compiles dataplane_New_def example_ops_def)
  with dataplane_reconcile_atomic[OF run reconciler_inv_New node] show ?thesis by simp
qed

end
