(* ===== verification/Manifest_Ids.thy ===== *)
theory Manifest_Ids
  imports Go_Prelude
begin

text \<open>
  Identifiers and the Service desired state of \<open>src/internal/manifest/manifest.go\<close>: the
  two regular expressions that every cluster, NodeGroup, workload, container, Service and
  namespace name goes through, and the provider-neutral Service type that the manifest
  parser hands to the agent. The lemmas say which bytes an identifier cannot contain; every
  key that joins identifiers with a separator relies on them.
\<close>

definition lower_char :: "char \<Rightarrow> bool" where
  "lower_char c \<longleftrightarrow> CHR ''a'' \<le> c \<and> c \<le> CHR ''z''"

definition digit_byte :: "char \<Rightarrow> bool" where
  "digit_byte c \<longleftrightarrow> CHR ''0'' \<le> c \<and> c \<le> CHR ''9''"

definition alnum_char :: "char \<Rightarrow> bool" where
  "alnum_char c \<longleftrightarrow> lower_char c \<or> digit_byte c"

definition label_char :: "char \<Rightarrow> bool" where
  "label_char c \<longleftrightarrow> alnum_char c \<or> c = CHR ''-''"

text \<open>\<open>([a-z0-9-]{0,n}[a-z0-9])?\<close> up to the end of the text.\<close>

definition label_rest :: "nat \<Rightarrow> string \<Rightarrow> bool" where
  "label_rest n s \<longleftrightarrow>
     s = [] \<or> (length s \<le> Suc n \<and> list_all label_char (butlast s) \<and> alnum_char (last s))"

text \<open>\<open>^[a-z]([a-z0-9-]{0,30}[a-z0-9])?$\<close>\<close>

definition ValidID :: "string \<Rightarrow> bool" where
  "ValidID value = (case value of [] \<Rightarrow> False | c # s \<Rightarrow> lower_char c \<and> label_rest 30 s)"

text \<open>\<open>^[a-z0-9]([a-z0-9-]{0,61}[a-z0-9])?$\<close>\<close>

definition ValidNamespace :: "string \<Rightarrow> bool" where
  "ValidNamespace value = (case value of [] \<Rightarrow> False | c # s \<Rightarrow> alnum_char c \<and> label_rest 61 s)"

text \<open>The Service desired state; a selector is a map that the digest ranges over.\<close>

record ServicePort =
  sp_Name :: string
  sp_Protocol :: string
  sp_Port :: int
  sp_TargetPort :: int

record manifest_Service =
  ms_Name :: string
  ms_Namespace :: string
  ms_Selector :: "(string \<times> string) list"
  ms_Ports :: "ServicePort list"

section \<open>Which bytes an identifier contains\<close>

lemma label_rest_chars: "label_rest n s \<Longrightarrow> c \<in> set s \<Longrightarrow> label_char c"
proof -
  assume "label_rest n s" and c: "c \<in> set s"
  then have "list_all label_char (butlast s)" and "alnum_char (last s)" and "s \<noteq> []"
    by (auto simp: label_rest_def)
  moreover have "set s = insert (last s) (set (butlast s))"
    using \<open>s \<noteq> []\<close> by (metis append_butlast_last_id list.set(2) rotate1.simps(2) set_rotate1)
  ultimately show ?thesis using c by (auto simp: list_all_iff label_char_def)
qed

lemma ValidID_chars: "ValidID v \<Longrightarrow> c \<in> set v \<Longrightarrow> label_char c"
  by (auto simp: ValidID_def label_char_def alnum_char_def dest: label_rest_chars split: list.splits)

lemma ValidNamespace_chars: "ValidNamespace v \<Longrightarrow> c \<in> set v \<Longrightarrow> label_char c"
  by (auto simp: ValidNamespace_def label_char_def dest: label_rest_chars split: list.splits)

lemma ValidID_Namespace: "ValidID v \<Longrightarrow> ValidNamespace v"
  by (auto simp: ValidID_def ValidNamespace_def alnum_char_def label_rest_def split: list.splits)

lemma not_label_char:
  "\<not> label_char CHR 0x00" "\<not> label_char CHR ''/''" "\<not> label_char CHR ''.''"
  "\<not> label_char CHR ''_''" "\<not> label_char CHR '',''" "\<not> label_char CHR ''=''" "\<not> label_char CHR ''\"''"
  "\<not> label_char CHR '':''" "\<not> label_char CHR 0x5C"
  by code_simp+

lemma ValidNamespace_no_sep:
  assumes "ValidNamespace v"
  shows "CHR 0x00 \<notin> set v" "CHR ''/'' \<notin> set v" "CHR ''.'' \<notin> set v" "CHR ''_'' \<notin> set v"
    "CHR '','' \<notin> set v" "CHR ''='' \<notin> set v"
  using assms ValidNamespace_chars not_label_char by blast+

lemmas ValidID_no_sep = ValidNamespace_no_sep[OF ValidID_Namespace]

lemma ValidID_not_Nil: "ValidID v \<Longrightarrow> v \<noteq> []"
  by (auto simp: ValidID_def)

lemma ValidNamespace_not_Nil: "ValidNamespace v \<Longrightarrow> v \<noteq> []"
  by (auto simp: ValidNamespace_def)

lemma ValidID_length: "ValidID v \<Longrightarrow> length v \<le> 32"
  by (cases v) (simp_all add: ValidID_def label_rest_def, force)

lemma ValidNamespace_length: "ValidNamespace v \<Longrightarrow> length v \<le> 63"
  by (cases v) (simp_all add: ValidNamespace_def label_rest_def, force)

text \<open>Joining with a separator that neither part contains is injective.\<close>

lemma join_sep_inj:
  fixes c :: char
  assumes "c \<notin> set a" and "c \<notin> set a'" and "a @ c # b = a' @ c # b'"
  shows "a = a' \<and> b = b'"
proof -
  from assms(3) have "Cut (a @ c # b) c = Cut (a' @ c # b') c" by (rule arg_cong)
  then show ?thesis unfolding Cut_append[OF assms(1)] Cut_append[OF assms(2)] by simp
qed

lemma join_sep_pair_inj:
  fixes c :: char
  assumes "c \<notin> set a" and "c \<notin> set b" and "a @ c # b = a' @ c # b'"
  shows "a = a' \<and> b = b'"
proof -
  from assms(3) have "count_list (a @ c # b) c = count_list (a' @ c # b') c" by (rule arg_cong)
  with assms(1,2) have "c \<notin> set a'" by (simp add: count_list_0_iff[symmetric])
  with assms show ?thesis by (blast dest: join_sep_inj)
qed

end
