(* ===== verification/Service_Dns.thy ===== *)
theory Service_Dns
  imports Manifest_Ids
begin

text \<open>
  The authoritative DNS handler of \<open>src/internal/agent/service/server.go\<close>.

  A \<open>net.IP\<close> is a byte slice, so an address is a \<open>string\<close> of bytes. The header fields that
  the DNS library fills in a reply (\<open>SetReply\<close>) are not represented: a reply is the
  authoritative flag, the response code and the answers, which is all the handler sets.
\<close>

section \<open>The handler\<close>

type_synonym net_IP = string

record Server =
  endpoints :: "string \<rightharpoonup> net_IP list"

record Question =
  q_Name :: string
  q_Qtype :: nat

record AAAA =
  rr_Name :: string
  rr_Rrtype :: nat
  rr_Class :: nat
  rr_Ttl :: nat
  rr_AAAA :: net_IP

record dns_Msg =
  msg_Authoritative :: bool
  msg_Rcode :: nat
  msg_Answer :: "AAAA list"

definition TypeAAAA :: nat where "TypeAAAA = 28"
definition TypeANY :: nat where "TypeANY = 255"
definition ClassINET :: nat where "ClassINET = 1"
definition RcodeSuccess :: nat where "RcodeSuccess = 0"
definition RcodeNameError :: nat where "RcodeNameError = 3"

lemmas [go_defs] = TypeAAAA_def TypeANY_def ClassINET_def RcodeSuccess_def RcodeNameError_def

text \<open>\<open>net.IP.To4\<close> and \<open>net.IP.To16\<close>.\<close>

definition v4InV6Prefix :: string where
  "v4InV6Prefix = replicate 10 (CHR 0x00) @ [CHR 0xff, CHR 0xff]"

definition To4 :: "net_IP \<Rightarrow> net_IP option" where
  "To4 ip =
     (if length ip = 4 then Some ip
      else if length ip = 16 \<and> take 12 ip = v4InV6Prefix then Some (drop 12 ip)
      else None)"

definition To16 :: "net_IP \<Rightarrow> net_IP option" where
  "To16 ip =
     (if length ip = 4 then Some (v4InV6Prefix @ ip)
      else if length ip = 16 then Some ip
      else None)"

definition NewServer :: Server where
  "NewServer = \<lparr>endpoints = Map.empty\<rparr>"

text \<open>The stored map owns copies of the slices, which is the identity on values.\<close>

definition Replace :: "(string \<rightharpoonup> net_IP list) \<Rightarrow> Server \<Rightarrow> Server" where
  "Replace values d = d\<lparr>endpoints := (\<lambda>name. map_option (map (\<lambda>address. [] @ address)) (values name))\<rparr>"

definition dns_name :: "string \<Rightarrow> string" where
  "dns_name qname =
     (let name = TrimSuffix (ToLower qname) ''.'';
          labels = Split name CHR ''.''
      in if length labels = 1 then labels ! 0 @ ''.default.svc.cluster.local''
         else if length labels = 2 then labels ! 0 @ ''.'' @ labels ! 1 @ ''.svc.cluster.local''
         else name)"

definition dns_answer :: "Question \<Rightarrow> net_IP \<Rightarrow> AAAA list" where
  "dns_answer question address =
     (case To16 address of
        Some ipv6 \<Rightarrow>
          if To4 address = None
          then [\<lparr>rr_Name = q_Name question, rr_Rrtype = TypeAAAA, rr_Class = ClassINET, rr_Ttl = 5,
                 rr_AAAA = ipv6\<rparr>]
          else []
      | None \<Rightarrow> [])"

definition ServeDNS :: "Server \<Rightarrow> Question list \<Rightarrow> dns_Msg" where
  "ServeDNS d questions =
     (let response = \<lparr>msg_Authoritative = True, msg_Rcode = RcodeSuccess, msg_Answer = []\<rparr>
      in case questions of
           [] \<Rightarrow> response
         | question # _ \<Rightarrow>
             (case endpoints d (dns_name (q_Name question)) of
                None \<Rightarrow> response\<lparr>msg_Rcode := RcodeNameError\<rparr>
              | Some addresses \<Rightarrow>
                  if q_Qtype question = TypeAAAA \<or> q_Qtype question = TypeANY
                  then response\<lparr>msg_Answer := concat (map (dns_answer question) addresses)\<rparr>
                  else response))"

section \<open>Names\<close>

text \<open>The name under which a Service is published, and the forms a query may use.\<close>

definition fqdn :: "string \<Rightarrow> string \<Rightarrow> string" where
  "fqdn name namespace = name @ ''.'' @ namespace @ ''.svc.cluster.local''"

definition query_forms :: "string \<Rightarrow> string \<Rightarrow> string list" where
  "query_forms name namespace =
     [fqdn name namespace, name @ ''.'' @ namespace] @ (if namespace = ''default'' then [name] else [])"

lemma ToLower_append [simp]: "ToLower (a @ b) = ToLower a @ ToLower b"
  by (simp add: ToLower_def)

lemma TrimSuffix_dot:
  "last s \<noteq> CHR ''.'' \<Longrightarrow> TrimSuffix s ''.'' = s"
  by (auto simp: TrimSuffix_def HasSuffix_iff)

lemma Split_dot:
  assumes "CHR ''.'' \<notin> set a"
  shows "Split (a @ CHR ''.'' # b) CHR ''.'' = a # Split b CHR ''.''"
  by (rule Split_append_sep[OF assms])

lemma dns_name_form:
  assumes "ValidID name" and "ValidNamespace namespace" and "form \<in> set (query_forms name namespace)"
    and "ToLower qname = form \<or> ToLower qname = form @ ''.''"
  shows "dns_name qname = fqdn name namespace"
proof -
  have nodot: "CHR ''.'' \<notin> set name" "CHR ''.'' \<notin> set namespace"
    using assms(1,2) ValidID_no_sep ValidNamespace_no_sep by auto
  have ne: "name \<noteq> []" "namespace \<noteq> []"
    using assms(1,2) ValidID_not_Nil ValidNamespace_not_Nil by auto
  have "form \<noteq> [] \<and> last form \<noteq> CHR ''.''"
    using assms(3) ne nodot last_in_set
    by (fastforce simp: query_forms_def fqdn_def split: if_splits)
  with assms(4) have "TrimSuffix (ToLower qname) ''.'' = form"
    by (auto simp: TrimSuffix_dot)
  then have dns: "dns_name qname =
      (let labels = Split form CHR ''.''
       in if length labels = 1 then labels ! 0 @ ''.default.svc.cluster.local''
          else if length labels = 2 then labels ! 0 @ ''.'' @ labels ! 1 @ ''.svc.cluster.local''
          else form)" by (simp add: dns_name_def Let_def)
  have three: "Split (fqdn name namespace) CHR ''.'' = [name, namespace, ''svc'', ''cluster'', ''local'']"
    using nodot by (simp add: fqdn_def Split_dot)
  have two: "Split (name @ ''.'' @ namespace) CHR ''.'' = [name, namespace]"
    using nodot by (simp add: Split_dot)
  have one: "Split name CHR ''.'' = [name]" using nodot by simp
  from assms(3) consider "form = fqdn name namespace" | "form = name @ ''.'' @ namespace"
    | "form = name" "namespace = ''default''" by (auto simp: query_forms_def split: if_splits)
  then show ?thesis
    by cases (use dns three two one in \<open>simp_all add: fqdn_def\<close>)
qed

definition plain_v6 :: "net_IP \<Rightarrow> bool" where
  "plain_v6 ip \<longleftrightarrow> length ip = 16 \<and> take 12 ip \<noteq> v4InV6Prefix"

lemma dns_answer_rr:
  "rr \<in> set (dns_answer q ip) \<Longrightarrow> rr_Name rr = q_Name q \<and> rr_Rrtype rr = TypeAAAA"
  by (auto simp: dns_answer_def split: option.splits if_splits)

lemma dns_answer_v6: "map rr_AAAA (dns_answer q ip) = (if plain_v6 ip then [ip] else [])"
  by (simp add: dns_answer_def plain_v6_def To4_def To16_def)

lemma dns_answers: "map rr_AAAA (concat (map (dns_answer q) ips)) = filter plain_v6 ips"
  by (induction ips) (simp_all add: dns_answer_v6)

text \<open>
  C23: after the records are replaced, an AAAA query for a Service by its full name, by
  \<open>name.namespace\<close> or, in the default namespace, by its name alone, in any letter case and
  with or without the final dot, is answered with exactly the IPv6 addresses stored for it,
  in order and under the name that was asked; when nothing is stored the answer is a name
  error; in both cases it is authoritative.
\<close>

theorem serve_dns_forms:
  assumes "ValidID name" and "ValidNamespace namespace" and "form \<in> set (query_forms name namespace)"
    and "ToLower qname = form \<or> ToLower qname = form @ ''.''"
  shows "let m = ServeDNS (Replace values d) [\<lparr>q_Name = qname, q_Qtype = TypeAAAA\<rparr>]
    in msg_Authoritative m \<and>
       (case values (fqdn name namespace) of
          None \<Rightarrow> msg_Rcode m = RcodeNameError \<and> msg_Answer m = []
        | Some ips \<Rightarrow> msg_Rcode m = RcodeSuccess \<and> map rr_AAAA (msg_Answer m) = filter plain_v6 ips \<and>
            list_all (\<lambda>rr. rr_Name rr = qname \<and> rr_Rrtype rr = TypeAAAA) (msg_Answer m))"
proof -
  have "endpoints (Replace values d) n = values n" for n
    by (simp add: Replace_def map_option.id[unfolded id_def])
  with dns_name_form[OF assms] show ?thesis
    by (auto simp: ServeDNS_def Let_def dns_answers list_all_iff dest: dns_answer_rr
        split: option.split)
qed

theorem serve_dns_forms_witness:
  "let m = ServeDNS (Replace [fqdn ''web'' ''default'' \<mapsto> [replicate 16 CHR ''a'']] NewServer)
       [\<lparr>q_Name = ''Web.'', q_Qtype = TypeAAAA\<rparr>]
   in msg_Rcode m = RcodeSuccess \<and> map rr_AAAA (msg_Answer m) = [replicate 16 CHR ''a'']"
proof -
  have "ValidID ''web''" "ValidNamespace ''default''"
    "''web'' \<in> set (query_forms ''web'' ''default'')"
    "ToLower ''Web.'' = ''web'' \<or> ToLower ''Web.'' = ''web'' @ ''.''"
    "plain_v6 (replicate 16 CHR ''a'')" by code_simp+
  with serve_dns_forms[of "''web''" "''default''" "''web''" "''Web.''"
      "[fqdn ''web'' ''default'' \<mapsto> [replicate 16 CHR ''a'']]" NewServer]
  show ?thesis by (simp add: Let_def)
qed

end
