(* ===== verification/Pods.thy ===== *)
theory Pods
  imports Netip
begin

text \<open>
  The kubelet watcher of \<open>src/internal/agent/pods/watcher.go\<close>: the projection of a
  Kubernetes Pod to what the agent needs, and the loop that turns a stream of watch events
  into complete snapshots.

  The kubelet and the decoding of its protobuf Pods are outside the repository: decoding is
  the parameter \<open>unmarshal\<close>, and a stream is the list of what \<open>Recv\<close> returns, each with the
  context error the loop sees before it. A list that ends is a stream that has not
  delivered more yet.
\<close>

section \<open>Data\<close>

text \<open>The fields of \<open>corev1.Pod\<close> that the projection reads.\<close>

record kube_Pod =
  kp_UID :: string
  kp_Namespace :: string
  kp_Labels :: "(string \<times> string) list"
  kp_PodIPs :: "string list"
  kp_Conditions :: "(string \<times> string) list"
  kp_Phase :: string
  kp_DeletionTimestamp :: "int option"

record Pod =
  pod_UID :: string
  pod_Namespace :: string
  pod_Labels :: "(string \<times> string) list"
  pod_Address :: addr
  pod_Eligible :: bool

text \<open>A snapshot is a map from UIDs; the code ranges over it.\<close>

type_synonym pods_Snapshot = "(string \<times> Pod) list"

datatype EventType = ADDED | MODIFIED | DELETED | INITIAL_SYNC_COMPLETE

record WatchPodsEvent =
  event_Type :: EventType
  event_Pod :: string

section \<open>Projection\<close>

definition project_ip :: "string \<Rightarrow> addr \<times> nat \<Rightarrow> addr \<times> nat" where
  "project_ip raw = (\<lambda>(address, addresses).
     case ParseAddr raw of
       Some a \<Rightarrow> if Is6 a \<and> IsGlobalUnicast a then (a, addresses + 1) else (address, addresses)
     | None \<Rightarrow> (address, addresses))"

fun pod_ready :: "(string \<times> string) list \<Rightarrow> bool" where
  "pod_ready [] = False"
| "pod_ready ((type, status) # cs) = (if type = ''Ready'' then status = ''True'' else pod_ready cs)"

definition project :: "kube_Pod \<Rightarrow> Pod" where
  "project value =
     (let namespace = (if kp_Namespace value = [] then ''default'' else kp_Namespace value);
          (found, addresses) = fold project_ip (kp_PodIPs value) (AddrZero, 0);
          address = (if addresses \<noteq> 1 then AddrZero else found);
          ready = pod_ready (kp_Conditions value)
      in \<lparr>pod_UID = kp_UID value, pod_Namespace = namespace, pod_Labels = kp_Labels value,
          pod_Address = address,
          pod_Eligible = (kp_Phase value = ''Running'' \<and> kp_DeletionTimestamp value = None \<and> ready
                          \<and> addr_IsValid address)\<rparr>)"

definition clone :: "pods_Snapshot \<Rightarrow> pods_Snapshot" where
  "clone input = map (\<lambda>(uid, pod). (uid, pod)) input"

section \<open>The watch loop\<close>

text \<open>
  \<open>consume\<close> returns the snapshots it publishes, in order, and the error it returns with;
  \<^term>\<open>None\<close> when it is still waiting for an event.
\<close>

definition apply_event :: "EventType \<Rightarrow> kube_Pod \<Rightarrow> pods_Snapshot \<Rightarrow> pods_Snapshot" where
  "apply_event type value state =
     (if type = DELETED then AList.delete (kp_UID value) state
      else AList.update (kp_UID value) (project value) state)"

fun consume ::
  "(string \<Rightarrow> error + kube_Pod) \<Rightarrow> (error option \<times> (error + WatchPodsEvent)) list
     \<Rightarrow> pods_Snapshot \<Rightarrow> bool \<Rightarrow> pods_Snapshot list \<times> error option" where
  "consume unmarshal [] state synced = ([], None)"
| "consume unmarshal ((ctx, received) # rest) state synced =
     (case ctx of
        Some e \<Rightarrow> ([], Some e)
      | None \<Rightarrow>
        (case received of
           Inl e \<Rightarrow> ([], Some e)
         | Inr event \<Rightarrow>
           if event_Type event = INITIAL_SYNC_COMPLETE
           then (let (ps, r) = consume unmarshal rest state True in (clone state # ps, r))
           else case unmarshal (event_Pod event) of
                  Inl e \<Rightarrow> ([], Some e)
                | Inr value \<Rightarrow>
                    let state' = apply_event (event_Type event) value state;
                        (ps, r) = consume unmarshal rest state' synced
                    in (if synced then clone state' # ps else ps, r)))"

text \<open>
  One pass of \<open>Run\<close>: the stream is opened, or fails to open, it is consumed, and the empty
  snapshot is published when it ends. \<open>Run\<close> repeats passes until its context is done or a
  pass ends with \<open>context.Canceled\<close>; the pause between passes is not represented.
\<close>

type_synonym watch_attempt = "error + (error option \<times> (error + WatchPodsEvent)) list"

definition context_Canceled :: error where
  "context_Canceled = Sentinel ''context canceled''"

fun watcher_Run ::
  "(string \<Rightarrow> error + kube_Pod) \<Rightarrow> (error option \<times> watch_attempt) list \<Rightarrow> pods_Snapshot list" where
  "watcher_Run unmarshal [] = []"
| "watcher_Run unmarshal ((ctx, attempt) # rest) =
     (if ctx \<noteq> None then []
      else let (ps, err) = (case attempt of
                              Inl e \<Rightarrow> ([], Some e)
                            | Inr inputs \<Rightarrow> consume unmarshal inputs [] False)
           in if err = None then ps
              else ps @ [] # (if err = Some context_Canceled then [] else watcher_Run unmarshal rest))"

section \<open>Facts\<close>

lemma clone_id [simp]: "clone s = s"
  by (simp add: clone_def)

definition usable_ip :: "string \<Rightarrow> bool" where
  "usable_ip raw = (case ParseAddr raw of Some a \<Rightarrow> Is6 a \<and> IsGlobalUnicast a | None \<Rightarrow> False)"

lemma project_ips:
  "fold project_ip ips (a, n) =
     (if filter usable_ip ips = [] then a else the (ParseAddr (last (filter usable_ip ips))),
      n + length (filter usable_ip ips))"
  by (induction ips arbitrary: a n) (auto simp: project_ip_def usable_ip_def split: option.splits)

text \<open>
  A Pod is eligible exactly when the kubelet reports it running, ready, not being deleted,
  and with exactly one usable address, a global-unicast IPv6 address, which is then its
  address.
\<close>

lemma project_eligible_iff:
  "pod_Eligible (project p) \<longleftrightarrow>
     kp_Phase p = ''Running'' \<and> kp_DeletionTimestamp p = None \<and> pod_ready (kp_Conditions p) \<and>
     (\<exists>raw a. filter usable_ip (kp_PodIPs p) = [raw] \<and> ParseAddr raw = Some a \<and>
        Is6 a \<and> IsGlobalUnicast a \<and> pod_Address (project p) = a)"
proof (cases "length (filter usable_ip (kp_PodIPs p)) = 1")
  case True
  then obtain raw where raw: "filter usable_ip (kp_PodIPs p) = [raw]"
    by (metis One_nat_def length_0_conv length_Suc_conv)
  then have "usable_ip raw" by (metis filter_eq_ConsD)
  then obtain a where "ParseAddr raw = Some a" "Is6 a" "IsGlobalUnicast a"
    by (auto simp: usable_ip_def split: option.splits)
  moreover from this have "addr_IsValid a" by (auto simp: addr_IsValid_def Is6_def)
  ultimately show ?thesis using raw by (auto simp: project_def project_ips Let_def)
next
  case False
  then show ?thesis
    by (auto simp: project_def project_ips Let_def addr_IsValid_def)
qed

text \<open>The state after a list of Pod events, as the abstract view of a watch stream.\<close>

fun replay :: "(EventType \<times> kube_Pod) list \<Rightarrow> pods_Snapshot \<Rightarrow> pods_Snapshot" where
  "replay [] s = s"
| "replay ((t, p) # es) s = replay es (apply_event t p s)"

definition pod_input ::
  "(kube_Pod \<Rightarrow> string) \<Rightarrow> EventType \<times> kube_Pod \<Rightarrow> error option \<times> (error + WatchPodsEvent)" where
  "pod_input marshal = (\<lambda>(t, p). (None, Inr \<lparr>event_Type = t, event_Pod = marshal p\<rparr>))"

lemma consume_unsynced:
  assumes "\<forall>(t, p) \<in> set es. t \<noteq> INITIAL_SYNC_COMPLETE \<and> unmarshal (marshal p) = Inr p"
  shows "consume unmarshal (map (pod_input marshal) es @ rest) s False = consume unmarshal rest (replay es s) False"
  using assms
  by (induction es arbitrary: s) (auto simp: pod_input_def Let_def split: prod.split)

lemma consume_synced:
  assumes "\<forall>(t, p) \<in> set es. t \<noteq> INITIAL_SYNC_COMPLETE \<and> unmarshal (marshal p) = Inr p"
  shows "consume unmarshal (map (pod_input marshal) es) s True =
    (map (\<lambda>n. replay (take (Suc n) es) s) [0..<length es], None)"
  using assms
proof (induction es arbitrary: s)
  case (Cons e es)
  obtain t p where e: "e = (t, p)" by fastforce
  have "map (\<lambda>n. replay (take (Suc n) (e # es)) s) [0..<length (e # es)]
      = apply_event t p s # map (\<lambda>n. replay (take (Suc n) es) (apply_event t p s)) [0..<length es]"
    by (simp add: e upt_conv_Cons map_Suc_upt[symmetric] del: upt_Suc)
  with Cons e show ?case by (simp add: pod_input_def Let_def)
qed simp

text \<open>
  C24: the watcher publishes complete states only. Over a stream that delivers the initial
  Pods, the end of the initial sync and then further events, it publishes nothing before
  the sync is complete, then the state after the initial Pods, then after each further event
  the state after all events so far.
\<close>

theorem consume_publishes_complete_states:
  assumes "\<forall>(t, p) \<in> set (initial @ later).
      t \<noteq> INITIAL_SYNC_COMPLETE \<and> unmarshal (marshal p) = Inr p"
  shows "consume unmarshal
      (map (pod_input marshal) initial @
       (None, Inr \<lparr>event_Type = INITIAL_SYNC_COMPLETE, event_Pod = []\<rparr>) #
       map (pod_input marshal) later) [] False
    = (replay initial [] #
         map (\<lambda>n. replay (initial @ take (Suc n) later) []) [0..<length later], None)"
proof -
  have app: "replay (xs @ ys) s = replay ys (replay xs s)" for xs ys s
    by (induction xs arbitrary: s) auto
  show ?thesis
    using consume_unsynced[of initial unmarshal marshal] consume_synced[of later unmarshal marshal] assms
    by (simp add: app ball_Un)
qed

definition example_kube_Pod :: "string \<Rightarrow> kube_Pod" where
  "example_kube_Pod uid = \<lparr>kp_UID = uid, kp_Namespace = [], kp_Labels = [(''app'', ''web'')],
     kp_PodIPs = [], kp_Conditions = [], kp_Phase = ''Pending'', kp_DeletionTimestamp = None\<rparr>"

theorem consume_publishes_complete_states_witness:
  "fst (consume (Inr \<circ> example_kube_Pod)
      (map (pod_input kp_UID) [(ADDED, example_kube_Pod ''a''), (ADDED, example_kube_Pod ''b'')] @
       (None, Inr \<lparr>event_Type = INITIAL_SYNC_COMPLETE, event_Pod = []\<rparr>) #
       map (pod_input kp_UID) [(DELETED, example_kube_Pod ''a'')]) [] False)
    = [[(''a'', project (example_kube_Pod ''a'')), (''b'', project (example_kube_Pod ''b''))],
       [(''b'', project (example_kube_Pod ''b''))]]"
proof -
  have uid: "kp_UID (example_kube_Pod u) = u" for u by (simp add: example_kube_Pod_def)
  have "\<forall>(t, p) \<in> set ([(ADDED, example_kube_Pod ''a''), (ADDED, example_kube_Pod ''b'')] @
      [(DELETED, example_kube_Pod ''a'')]).
      t \<noteq> INITIAL_SYNC_COMPLETE \<and> (Inr \<circ> example_kube_Pod) (kp_UID p) = Inr p"
    by (simp add: uid)
  from consume_publishes_complete_states[OF this] show ?thesis
    by (simp add: apply_event_def uid comp_def)
qed

end
