(* ===== verification/Service_Contract.thy ===== *)
theory Service_Contract
  imports Coordination_Api Dataplane Service_Dns Pods
begin

text \<open>
  The pure functions of \<open>src/internal/agent/service/controller.go\<close>: the digest of the desired
  Services, the wire contract of a NodeGroup and its validation, and the endpoint view of a
  node and its validation.

  A key that the code builds with \<open>+ "\x00" +\<close> or \<open>Sprintf\<close> is built the same way here; that
  such keys identify what they are meant to is proved from the bytes an identifier can
  contain. Elements of repeated fields are dereferenced with \<^const>\<open>the\<close> only after the
  checks for nil.
\<close>

section \<open>Desired Services\<close>

definition matches :: "(string \<times> string) list \<Rightarrow> (string \<times> string) list \<Rightarrow> bool" where
  "matches labels selector =
     list_all (\<lambda>(key, value). (case map_of labels key of Some v \<Rightarrow> v | None \<Rightarrow> []) = value) selector"

definition wirePort :: "ServicePort \<Rightarrow> TargetPort" where
  "wirePort port = \<lparr>tp_Name = sp_Name port, tp_Protocol = sp_Protocol port,
     tp_ServicePort = of_int (sp_Port port), tp_TargetPort = of_int (sp_TargetPort port)\<rparr>"

definition cloneDesired :: "manifest_Service list \<Rightarrow> manifest_Service list" where
  "cloneDesired input =
     map (\<lambda>value. value\<lparr>ms_Selector := map (\<lambda>(key, item). (key, item)) (ms_Selector value),
                       ms_Ports := [] @ ms_Ports value\<rparr>) input"

definition desiredLess :: "manifest_Service \<Rightarrow> manifest_Service \<Rightarrow> bool" where
  "desiredLess a b =
     (if ms_Namespace a \<noteq> ms_Namespace b then ms_Namespace a < ms_Namespace b
      else ms_Name a < ms_Name b)"

definition sortedDesired :: "manifest_Service list \<Rightarrow> manifest_Service list" where
  "sortedDesired input = sort_slice desiredLess (cloneDesired input)"

abbreviation NUL :: string where "NUL \<equiv> [CHR 0x00]"

definition digest_selector :: "(string \<times> string) list \<Rightarrow> string \<Rightarrow> string" where
  "digest_selector selector key =
     key @ ''='' @ (case map_of selector key of Some v \<Rightarrow> v | None \<Rightarrow> []) @ NUL"

definition digest_port :: "ServicePort \<Rightarrow> string" where
  "digest_port port =
     sp_Name port @ ''/'' @ sp_Protocol port @ ''/'' @ dec_int (sp_Port port) @ ''/''
       @ dec_int (sp_TargetPort port) @ NUL"

definition digest_service :: "manifest_Service \<Rightarrow> string" where
  "digest_service service =
     (let keys = sort_slice (<) (map fst (ms_Selector service))
      in ms_Namespace service @ NUL @ ms_Name service @ NUL
         @ concat (map (digest_selector (ms_Selector service)) keys)
         @ concat (map digest_port (ms_Ports service)))"

definition digestDesired :: "manifest_Service list \<Rightarrow> string" where
  "digestDesired services =
     hex_EncodeToString (sha512 (concat (map digest_service (sortedDesired services))))"

section \<open>The wire contract\<close>

definition desired_item :: "string \<Rightarrow> string \<Rightarrow> manifest_Service \<Rightarrow> api_Service" where
  "desired_item cluster nodeGroup wanted =
     \<lparr>svc_Name = ms_Name wanted,
      svc_Fqdn = fqdn (ms_Name wanted) (ms_Namespace wanted),
      svc_Vip = addr_String (DeriveVIP cluster (ms_Namespace wanted) (ms_Name wanted)),
      svc_Ports = map (Some \<circ> wirePort) (ms_Ports wanted), svc_Backends = [],
      svc_NodeGroup = nodeGroup, svc_Namespace = ms_Namespace wanted\<rparr>"

definition desiredContract :: "string \<Rightarrow> string \<Rightarrow> manifest_Service list \<Rightarrow> api_Service list" where
  "desiredContract cluster nodeGroup desired =
     map (desired_item cluster nodeGroup) (sortedDesired desired)"

definition identity :: "api_Service \<Rightarrow> string" where
  "identity item = svc_Namespace item @ NUL @ svc_Name item"

definition protocol_port :: "string \<Rightarrow> 32 word \<Rightarrow> string" where
  "protocol_port protocol port = protocol @ ''/'' @ dec_nat (unat port)"

definition nil_ports :: "string \<Rightarrow> TargetPort option list \<Rightarrow> error option" where
  "nil_ports message = first_err (\<lambda>port. if port = None then Some (errors_New message) else None)"

definition contract_backend :: "Endpoint option \<Rightarrow> error option" where
  "contract_backend backend =
     (case backend of
        None \<Rightarrow> Some (errors_New ''nil service contract backend'')
      | Some b \<Rightarrow> nil_ports ''nil service contract backend port'' (ep_Ports b))"

definition wire_port_ok :: "TargetPort \<Rightarrow> bool" where
  "wire_port_ok port \<longleftrightarrow>
     \<not> (tp_ServicePort port = 0 \<or> tp_ServicePort port > 65535 \<or> tp_TargetPort port = 0
        \<or> tp_TargetPort port > 65535 \<or> (tp_Protocol port \<noteq> ''TCP'' \<and> tp_Protocol port \<noteq> ''UDP''))"

definition contract_port :: "TargetPort option \<Rightarrow> string set \<Rightarrow> error + string set" where
  "contract_port port ports =
     (case port of
        None \<Rightarrow> Inl (errors_New ''nil service contract port'')
      | Some p \<Rightarrow>
          let key = protocol_port (tp_Protocol p) (tp_ServicePort p)
          in if \<not> wire_port_ok p \<or> key \<in> ports
             then Inl (errors_New ''invalid service contract port'')
             else Inr (insert key ports))"

definition contract_service ::
  "string \<Rightarrow> string \<Rightarrow> api_Service option \<Rightarrow> string set \<times> string \<Rightarrow> error + string set \<times> string" where
  "contract_service cluster nodeGroup element = (\<lambda>(seen, previous).
     case element of
       None \<Rightarrow> Inl (errors_New ''nil Service in contract'')
     | Some item \<Rightarrow>
         (case first_err contract_backend (svc_Backends item) of
            Some e \<Rightarrow> Inl e
          | None \<Rightarrow>
              if svc_NodeGroup item \<noteq> nodeGroup \<or> \<not> ValidNamespace (svc_Namespace item)
                 \<or> \<not> ValidID (svc_Name item) \<or> identity item \<le> previous \<or> identity item \<in> seen
                 \<or> svc_Fqdn item \<noteq> fqdn (svc_Name item) (svc_Namespace item)
                 \<or> svc_Vip item \<noteq> addr_String (DeriveVIP cluster (svc_Namespace item) (svc_Name item))
                 \<or> length (svc_Backends item) \<noteq> 0
              then Inl (errors_New ''invalid service contract identity'')
              else case fold_res contract_port (svc_Ports item) {} of
                     Inl e \<Rightarrow> Inl e
                   | Inr _ \<Rightarrow> Inr (insert (identity item) seen, identity item)))"

definition ValidateContract ::
  "string \<Rightarrow> string \<Rightarrow> string \<Rightarrow> api_Service option list \<Rightarrow> error option" where
  "ValidateContract cluster nodeGroup digest services =
     (if \<not> ValidID nodeGroup \<or> length digest \<noteq> 64 * 2 \<or> length services > 10000
      then Some (errors_New ''invalid service contract'')
      else if hex_DecodeString digest = None
      then Some (errors_New ''invalid service contract digest'')
      else case fold_res (contract_service cluster nodeGroup) services ({}, []) of
             Inl e \<Rightarrow> Some e
           | Inr _ \<Rightarrow> None)"

section \<open>The endpoint view of a node\<close>

definition endpoint_of :: "string \<Rightarrow> manifest_Service \<Rightarrow> Pod \<Rightarrow> Endpoint" where
  "endpoint_of nodeGroup service pod =
     \<lparr>ep_Service = ms_Name service, ep_PodUid = pod_UID pod, ep_Address = addr_String (pod_Address pod),
      ep_Ports = map (Some \<circ> wirePort) (ms_Ports service), ep_NodeGroup = nodeGroup,
      ep_Namespace = ms_Namespace service\<rparr>"

definition selects :: "manifest_Service \<Rightarrow> Pod \<Rightarrow> bool" where
  "selects service pod \<longleftrightarrow>
     \<not> (\<not> pod_Eligible pod \<or> pod_Namespace pod \<noteq> ms_Namespace service
        \<or> \<not> matches (pod_Labels pod) (ms_Selector service))"

definition endpointLess :: "Endpoint \<Rightarrow> Endpoint \<Rightarrow> bool" where
  "endpointLess a b =
     (if ep_Namespace a \<noteq> ep_Namespace b then ep_Namespace a < ep_Namespace b
      else if ep_Service a \<noteq> ep_Service b then ep_Service a < ep_Service b
      else ep_PodUid a < ep_PodUid b)"

text \<open>The view for given desired Services and Pods, which \<open>NodeState\<close> reads under its lock.\<close>

definition node_state ::
  "string \<Rightarrow> manifest_Service list \<Rightarrow> pods_Snapshot \<Rightarrow> string \<Rightarrow> 64 word \<Rightarrow> NodeState" where
  "node_state nodeGroup desired current session sequence =
     \<lparr>ns_SessionId = session, ns_Sequence = sequence, ns_ConfigDigest = digestDesired desired,
      ns_Endpoints = map Some (sort_slice endpointLess
        (concat (map (\<lambda>service. map (\<lambda>(_, pod). endpoint_of nodeGroup service pod)
             (filter (\<lambda>(_, pod). selects service pod) current))
           (sortedDesired desired))))\<rparr>"

definition port_key :: "TargetPort \<Rightarrow> string" where
  "port_key port =
     tp_Name port @ NUL @ tp_Protocol port @ NUL @ dec_nat (unat (tp_ServicePort port)) @ NUL
       @ dec_nat (unat (tp_TargetPort port))"

text \<open>The checks for nil that several functions make on a Service, with their messages.\<close>

record nil_messages =
  nil_Service :: string
  nil_port :: string
  nil_backend :: string
  nil_backend_port :: string

definition service_nils :: "nil_messages \<Rightarrow> api_Service option \<Rightarrow> error option" where
  "service_nils messages element =
     (case element of
        None \<Rightarrow> Some (errors_New (nil_Service messages))
      | Some item \<Rightarrow>
          (case nil_ports (nil_port messages) (svc_Ports item) of
             Some e \<Rightarrow> Some e
           | None \<Rightarrow>
               first_err (\<lambda>backend.
                 case backend of
                   None \<Rightarrow> Some (errors_New (nil_backend messages))
                 | Some b \<Rightarrow> nil_ports (nil_backend_port messages) (ep_Ports b)) (svc_Backends item)))"

definition state_port :: "TargetPort option \<Rightarrow> string set \<Rightarrow> error + string set" where
  "state_port port expected =
     (if port_key (the port) \<notin> expected then Inl (errors_New ''invalid service endpoint port'')
      else Inr (expected - {port_key (the port)}))"

definition endpoint_identity :: "Endpoint \<Rightarrow> string" where
  "endpoint_identity e =
     ep_Namespace e @ NUL @ ep_Service e @ NUL @ ep_PodUid e @ NUL @ ep_Address e"

text \<open>\<open>services\<close> is the map from identities that the loop over the contract has built.\<close>

definition state_endpoint ::
  "string \<Rightarrow> (string \<rightharpoonup> api_Service) \<Rightarrow> Endpoint option \<Rightarrow> string set \<Rightarrow> error + string set" where
  "state_endpoint nodeGroup services element seen =
     (case element of
        None \<Rightarrow> Inl (errors_New ''nil endpoint in node state'')
      | Some endpoint \<Rightarrow>
          (case nil_ports ''nil target port in node state'' (ep_Ports endpoint) of
             Some e \<Rightarrow> Inl e
           | None \<Rightarrow>
               (case (services (ep_Namespace endpoint @ NUL @ ep_Service endpoint),
                      ParseAddr (ep_Address endpoint)) of
                  (Some service, Some address) \<Rightarrow>
                    if ep_NodeGroup endpoint \<noteq> nodeGroup \<or> ep_PodUid endpoint = [] \<or> \<not> Is6 address
                       \<or> \<not> IsGlobalUnicast address \<or> endpoint_identity endpoint \<in> seen
                       \<or> length (ep_Ports endpoint) \<noteq> length (svc_Ports service)
                    then Inl (errors_New ''invalid service endpoint'')
                    else (case fold_res state_port (ep_Ports endpoint)
                                 ((port_key \<circ> the) ` set (svc_Ports service)) of
                            Inl e \<Rightarrow> Inl e
                          | Inr _ \<Rightarrow> Inr (insert (endpoint_identity endpoint) seen))
                | _ \<Rightarrow> Inl (errors_New ''invalid service endpoint''))))"

definition contract_messages :: nil_messages where
  "contract_messages = \<lparr>nil_Service = ''nil Service in contract'',
     nil_port = ''nil target port in contract'', nil_backend = ''nil backend in contract'',
     nil_backend_port = ''nil target port in contract backend''\<rparr>"

definition contract_map :: "api_Service option list \<Rightarrow> string \<rightharpoonup> api_Service" where
  "contract_map contract = fold (\<lambda>item m. m(identity (the item) \<mapsto> the item)) contract Map.empty"

definition ValidateNodeState ::
  "string \<Rightarrow> api_Service option list \<Rightarrow> NodeState option \<Rightarrow> error option" where
  "ValidateNodeState nodeGroup contract state =
     (case state of
        None \<Rightarrow> Some (errors_New ''invalid endpoint count'')
      | Some state \<Rightarrow>
          if length (ns_Endpoints state) > 10000 then Some (errors_New ''invalid endpoint count'')
          else case first_err (service_nils contract_messages) contract of
                 Some e \<Rightarrow> Some e
               | None \<Rightarrow>
                   (case fold_res (state_endpoint nodeGroup (contract_map contract))
                           (ns_Endpoints state) {} of
                      Inl e \<Rightarrow> Some e
                    | Inr _ \<Rightarrow> None))"

section \<open>Orders and keys\<close>

abbreviation desired_rank :: "manifest_Service \<Rightarrow> string \<times> string" where
  "desired_rank \<equiv> (\<lambda>s. (ms_Namespace s, ms_Name s))"

abbreviation service_rank :: "api_Service \<Rightarrow> string \<times> string" where
  "service_rank \<equiv> (\<lambda>s. (svc_Namespace s, svc_Name s))"

lemma cloneDesired_id [simp]: "cloneDesired ss = ss"
  by (simp add: cloneDesired_def case_prod_beta map_idI)

lemma sortedDesired_key: "sortedDesired ss = sort_key desired_rank ss"
proof -
  have "desiredLess = (\<lambda>a b. desired_rank a < desired_rank b)"
    by (auto simp: desiredLess_def fun_eq_iff)
  with sort_slice_key[of desired_rank ss] show ?thesis
    by (simp only: sortedDesired_def cloneDesired_id)
qed

lemma set_sortedDesired [simp]: "set (sortedDesired ss) = set ss"
  by (simp add: sortedDesired_key)

lemma length_sortedDesired [simp]: "length (sortedDesired ss) = length ss"
  by (simp add: sortedDesired_key)

lemma protocol_port_inj:
  assumes "p \<in> {''TCP'', ''UDP''}" and "q \<in> {''TCP'', ''UDP''}"
  shows "protocol_port p m = protocol_port q n \<longleftrightarrow> p = q \<and> m = n"
  using assms by (auto simp: protocol_port_def word_unat_eq_iff)

text \<open>The key of a port is injective among ports whose names and protocols have no NUL.\<close>

definition nul_free_port :: "TargetPort \<Rightarrow> bool" where
  "nul_free_port p \<longleftrightarrow> CHR 0x00 \<notin> set (tp_Name p) \<and> CHR 0x00 \<notin> set (tp_Protocol p)"

lemma port_key_inj:
  assumes "nul_free_port p" and "port_key p = port_key q"
  shows "p = q"
proof -
  have split: "Split (a @ CHR 0x00 # b @ CHR 0x00 # dec_nat m @ CHR 0x00 # dec_nat n) CHR 0x00
      = Split a CHR 0x00 @ Split b CHR 0x00 @ [dec_nat m, dec_nat n]" for a b m n
    by (simp add: Split_append)
  from arg_cong[OF assms(2), of "\<lambda>s. Split s CHR 0x00"] assms(1)
  have *: "[tp_Name p, tp_Protocol p, dec_nat (unat (tp_ServicePort p)), dec_nat (unat (tp_TargetPort p))]
      = Split (tp_Name q) CHR 0x00 @ Split (tp_Protocol q) CHR 0x00
        @ [dec_nat (unat (tp_ServicePort q)), dec_nat (unat (tp_TargetPort q))]"
    by (simp add: port_key_def split nul_free_port_def)
  moreover obtain x xs where x: "Split (tp_Name q) CHR 0x00 = x # xs" by (cases "Split (tp_Name q) CHR 0x00") auto
  moreover obtain y ys where y: "Split (tp_Protocol q) CHR 0x00 = y # ys"
    by (cases "Split (tp_Protocol q) CHR 0x00") auto
  moreover from arg_cong[OF *, of length] x y have "xs = []" "ys = []" by auto
  ultimately have "tp_Name q = tp_Name p" "tp_Protocol q = tp_Protocol p"
    "unat (tp_ServicePort p) = unat (tp_ServicePort q)" "unat (tp_TargetPort p) = unat (tp_TargetPort q)"
    by (auto dest: Split_single)
  then show ?thesis by (simp add: word_unat_eq_iff)
qed

lemma identity_inj:
  assumes "CHR 0x00 \<notin> set (svc_Namespace s)" and "CHR 0x00 \<notin> set (svc_Namespace t)"
  shows "identity s = identity t \<longleftrightarrow> service_rank s = service_rank t"
  using join_sep_inj[OF assms, of "svc_Name s" "svc_Name t"] by (auto simp: identity_def)

lemma identity_less:
  assumes "CHR 0x00 \<notin> set (svc_Namespace s)" and "CHR 0x00 \<notin> set (svc_Namespace t)"
  shows "identity s < identity t \<longleftrightarrow> service_rank s < service_rank t"
  using nul_join_less[OF assms] by (simp add: identity_def)

section \<open>What a valid contract is\<close>

definition valid_wire_ports :: "TargetPort list \<Rightarrow> bool" where
  "valid_wire_ports ps \<longleftrightarrow>
     list_all wire_port_ok ps \<and> distinct (map (\<lambda>p. (tp_Protocol p, tp_ServicePort p)) ps)"

definition valid_contract_service :: "string \<Rightarrow> string \<Rightarrow> api_Service \<Rightarrow> bool" where
  "valid_contract_service cluster nodeGroup s \<longleftrightarrow>
     svc_NodeGroup s = nodeGroup \<and> ValidNamespace (svc_Namespace s) \<and> ValidID (svc_Name s) \<and>
     svc_Fqdn s = fqdn (svc_Name s) (svc_Namespace s) \<and>
     svc_Vip s = addr_String (DeriveVIP cluster (svc_Namespace s) (svc_Name s)) \<and>
     svc_Backends s = [] \<and> (\<exists>ps. svc_Ports s = map Some ps \<and> valid_wire_ports ps)"

lemma wire_port_protocol: "wire_port_ok p \<Longrightarrow> tp_Protocol p \<in> {''TCP'', ''UDP''}"
  by (auto simp: wire_port_ok_def)

lemma contract_ports_valid:
  "(\<exists>keys. fold_res contract_port ports {} = Inr keys) \<longleftrightarrow> (\<exists>ps. ports = map Some ps \<and> valid_wire_ports ps)"
proof -
  let ?key = "\<lambda>p. protocol_port (tp_Protocol p) (tp_ServicePort p)"
  have "(\<exists>keys. fold_res contract_port ports {} = Inr keys) \<longleftrightarrow>
      (\<forall>x \<in> set ports. x \<noteq> None \<and> wire_port_ok (the x)) \<and> distinct (map (?key \<circ> the) ports)
      \<and> (?key \<circ> the) ` set ports \<inter> {} = {}"
    by (rule fold_res_seen[where seen_of = "\<lambda>s. s"])
      (auto simp: contract_port_def Let_def split: option.splits if_splits)
  moreover have "list_all wire_port_ok ps \<Longrightarrow>
      distinct (map ?key ps) \<longleftrightarrow> distinct (map (\<lambda>p. (tp_Protocol p, tp_ServicePort p)) ps)" for ps
    using protocol_port_inj wire_port_protocol
    by (intro distinct_map_cong_iff) (simp add: list_all_iff)
  from this[of "map the ports"] calculation show ?thesis
    by (auto simp: no_nil_ex valid_wire_ports_def list_all_iff)
qed

lemma contract_service_ok:
  "contract_service cluster nodeGroup x (seen, previous) = Inr st \<longleftrightarrow>
    (\<exists>s. x = Some s \<and> valid_contract_service cluster nodeGroup s \<and> previous < identity s \<and>
      identity s \<notin> seen \<and> st = (insert (identity s) seen, identity s))"
proof (cases x)
  case (Some s)
  have "(\<exists>keys. fold_res contract_port (svc_Ports s) {} = Inr keys) \<longleftrightarrow>
      (\<exists>ps. svc_Ports s = map Some ps \<and> valid_wire_ports ps)" by (rule contract_ports_valid)
  then show ?thesis
    by (cases "fold_res contract_port (svc_Ports s) {}")
      (auto simp: Some contract_service_def valid_contract_service_def not_le split: option.splits)
qed (simp add: contract_service_def)

lemma contract_services_ok:
  assumes "\<forall>i \<in> seen. i \<le> previous"
  shows "(\<exists>st. fold_res (contract_service cluster nodeGroup) xs (seen, previous) = Inr st) \<longleftrightarrow>
    (\<exists>ss. xs = map Some ss \<and> list_all (valid_contract_service cluster nodeGroup) ss \<and>
      sorted_wrt (<) (previous # map identity ss))"
  using assms
proof (induction xs arbitrary: seen previous)
  case (Cons x xs)
  show ?case
  proof (cases "contract_service cluster nodeGroup x (seen, previous)")
    case (Inl e)
    then have "\<not> (\<exists>s. x = Some s \<and> valid_contract_service cluster nodeGroup s \<and> previous < identity s \<and>
        identity s \<notin> seen)"
      using contract_service_ok[of cluster nodeGroup x seen previous] by auto
    with Inl Cons.prems show ?thesis by (fastforce simp: Cons_eq_map_conv dest: leD)
  next
    case (Inr st)
    then obtain s where s: "x = Some s" "valid_contract_service cluster nodeGroup s"
      "previous < identity s" "st = (insert (identity s) seen, identity s)"
      by (auto simp: contract_service_ok)
    have "\<forall>i \<in> insert (identity s) seen. i \<le> identity s" using Cons.prems s(3) by fastforce
    moreover have "identity s < i \<Longrightarrow> previous < i" for i using s(3) by (rule less_trans)
    ultimately show ?thesis using Cons.IH[of "insert (identity s) seen" "identity s"] s Inr
      by (auto simp: Cons_eq_map_conv)
  qed
qed simp

lemma valid_contract_service_nul:
  "valid_contract_service cluster nodeGroup s \<Longrightarrow> CHR 0x00 \<notin> set (svc_Namespace s)"
  by (simp add: valid_contract_service_def ValidNamespace_no_sep)

lemma identities_sorted:
  assumes "list_all (valid_contract_service cluster nodeGroup) ss"
  shows "sorted_wrt (<) ([] # map identity ss) \<longleftrightarrow> sorted_wrt (<) (map service_rank ss)"
proof -
  have "sorted_wrt (<) (map identity ss) \<longleftrightarrow> sorted_wrt (<) (map service_rank ss)"
    unfolding sorted_wrt_map
    using assms identity_less valid_contract_service_nul
    by (intro sorted_wrt_cong_iff) (metis list_all_iff)
  moreover have "[] < a @ b # c" for a c :: string and b by (cases a) auto
  ultimately show ?thesis by (simp add: identity_def)
qed

lemma ValidateContract_iff:
  "ValidateContract cluster nodeGroup digest services = None \<longleftrightarrow>
     ValidID nodeGroup \<and> (\<exists>sum. hex_DecodeString digest = Some sum \<and> length sum = 64) \<and>
     length services \<le> 10000 \<and>
     (\<exists>ss. services = map Some ss \<and> sorted_wrt (<) (map service_rank ss) \<and>
        list_all (valid_contract_service cluster nodeGroup) ss)"
proof -
  have hex: "hex_DecodeString digest \<noteq> None \<and> length digest = 64 * 2 \<longleftrightarrow>
      (\<exists>sum. hex_DecodeString digest = Some sum \<and> length sum = 64)"
    using length_hex_DecodeString[of digest] by auto
  have "(\<exists>st. fold_res (contract_service cluster nodeGroup) services ({}, []) = Inr st) \<longleftrightarrow>
      (\<exists>ss. services = map Some ss \<and> sorted_wrt (<) (map service_rank ss) \<and>
        list_all (valid_contract_service cluster nodeGroup) ss)"
    using contract_services_ok[of "{}" "[]" cluster nodeGroup services] identities_sorted by blast
  then show ?thesis
    unfolding hex[symmetric] by (auto simp: ValidateContract_def not_less split: sum.splits)
qed

text \<open>
  A contract passes validation exactly when the NodeGroup is a valid identifier, the
  digest is the hexadecimal form of 64 bytes, there are at most 10000 Services and none is
  nil, they are strictly ordered by namespace and name, and each belongs to the NodeGroup,
  has valid names, the derived name and virtual address, no backends, and ports in range
  with supported protocols, no two of the same protocol and Service port.
\<close>

lemma validate_contract_iff:
  "ValidateContract cluster nodeGroup digest services = None \<longleftrightarrow>
     ValidID nodeGroup \<and> (\<exists>sum. hex_DecodeString digest = Some sum \<and> length sum = 64) \<and>
     length services \<le> 10000 \<and>
     (\<exists>ss. services = map Some ss \<and> sorted_wrt (<) (map service_rank ss) \<and>
        list_all (valid_contract_service cluster nodeGroup) ss)"
  by (rule ValidateContract_iff)

section \<open>What the local controller sends is valid\<close>

definition valid_desired_port :: "ServicePort \<Rightarrow> bool" where
  "valid_desired_port p \<longleftrightarrow>
     sp_Protocol p \<in> {''TCP'', ''UDP''} \<and> 1 \<le> sp_Port p \<and> sp_Port p \<le> 65535 \<and>
     1 \<le> sp_TargetPort p \<and> sp_TargetPort p \<le> 65535 \<and> CHR 0x00 \<notin> set (sp_Name p)"

definition valid_desired_service :: "manifest_Service \<Rightarrow> bool" where
  "valid_desired_service s \<longleftrightarrow>
     ValidNamespace (ms_Namespace s) \<and> ValidID (ms_Name s) \<and> list_all valid_desired_port (ms_Ports s) \<and>
     distinct (map (\<lambda>p. (sp_Protocol p, sp_Port p)) (ms_Ports s))"

definition valid_desired :: "manifest_Service list \<Rightarrow> bool" where
  "valid_desired ss \<longleftrightarrow>
     list_all valid_desired_service ss \<and> distinct (map desired_rank ss) \<and> length ss \<le> 10000"

lemma uint_small_port:
  "0 \<le> i \<Longrightarrow> i \<le> 65535 \<Longrightarrow> uint (of_int i :: 32 word) = i"
  by (simp add: unsigned_of_int take_bit_eq_mod)

lemma wirePort_ok: "valid_desired_port p \<Longrightarrow> wire_port_ok (wirePort p)"
  by (auto simp: valid_desired_port_def wire_port_ok_def wirePort_def word_less_def
      word_uint_eq_iff uint_small_port)

lemma wirePort_ports:
  assumes "list_all valid_desired_port ps" and "distinct (map (\<lambda>p. (sp_Protocol p, sp_Port p)) ps)"
  shows "valid_wire_ports (map wirePort ps)"
proof -
  have "valid_desired_port p \<Longrightarrow> valid_desired_port q \<Longrightarrow>
      (of_int (sp_Port p) :: 32 word) = of_int (sp_Port q) \<longleftrightarrow> sp_Port p = sp_Port q" for p q
    by (auto simp: valid_desired_port_def word_uint_eq_iff uint_small_port)
  then have "distinct (map (\<lambda>p. (sp_Protocol p, of_int (sp_Port p) :: 32 word)) ps) \<longleftrightarrow>
      distinct (map (\<lambda>p. (sp_Protocol p, sp_Port p)) ps)"
    using assms(1) by (intro distinct_map_cong_iff) (simp add: list_all_iff)
  then show ?thesis
    using assms by (simp add: valid_wire_ports_def list_all_iff wirePort_ok comp_def) (simp add: wirePort_def)
qed

lemma desired_item_simps [simp]:
  "svc_Namespace (desired_item c g s) = ms_Namespace s" "svc_Name (desired_item c g s) = ms_Name s"
  "svc_NodeGroup (desired_item c g s) = g" "svc_Backends (desired_item c g s) = []"
  "svc_Fqdn (desired_item c g s) = fqdn (ms_Name s) (ms_Namespace s)"
  "svc_Vip (desired_item c g s) = addr_String (DeriveVIP c (ms_Namespace s) (ms_Name s))"
  "svc_Ports (desired_item c g s) = map Some (map wirePort (ms_Ports s))"
  by (simp_all add: desired_item_def)

lemma desired_item_valid:
  "valid_desired_service s \<Longrightarrow> valid_contract_service c g (desired_item c g s)"
  using wirePort_ports[of "ms_Ports s"]
  by (auto simp: valid_desired_service_def valid_contract_service_def
      intro!: exI[of _ "map wirePort (ms_Ports s)"])

lemma desiredContract_rank:
  "map service_rank (desiredContract c g ss) = sort (map desired_rank ss)"
proof -
  have "map service_rank (desiredContract c g ss) = map desired_rank (sort_key ((\<lambda>r. r) \<circ> desired_rank) ss)"
    by (simp add: desiredContract_def sortedDesired_key comp_def)
  then show ?thesis by (simp only: map_sort_key)
qed

lemma desiredContract_valid:
  assumes "valid_desired ss"
  shows "sorted_wrt (<) (map service_rank (desiredContract c g ss))"
    and "list_all (valid_contract_service c g) (desiredContract c g ss)"
    and "length (desiredContract c g ss) \<le> 10000"
proof -
  show "sorted_wrt (<) (map service_rank (desiredContract c g ss))"
    unfolding desiredContract_rank using assms by (simp add: strict_sorted_iff valid_desired_def)
  show "list_all (valid_contract_service c g) (desiredContract c g ss)"
    using assms by (auto simp: desiredContract_def list_all_iff valid_desired_def intro: desired_item_valid)
  show "length (desiredContract c g ss) \<le> 10000"
    using assms by (simp add: desiredContract_def valid_desired_def)
qed

lemma own_contract_valid:
  assumes "valid_desired ss" and "ValidID g"
  shows "ValidateContract c g (digestDesired ss) (map Some (desiredContract c g ss)) = None"
  using assms(2) desiredContract_valid[OF assms(1), of c g]
  by (auto simp: ValidateContract_iff digestDesired_def)

section \<open>What a valid endpoint view is\<close>

lemma nil_ports_None [simp]: "nil_ports m ports = None \<longleftrightarrow> (\<forall>p \<in> set ports. p \<noteq> None)"
  by (auto simp: nil_ports_def)

lemma nil_ports_Some [simp]: "nil_ports m (map Some ps) = None"
  by simp

definition nil_free_endpoint :: "Endpoint option \<Rightarrow> bool" where
  "nil_free_endpoint e = (case e of None \<Rightarrow> False | Some e \<Rightarrow> list_all (\<lambda>p. p \<noteq> None) (ep_Ports e))"

definition nil_free_service :: "api_Service \<Rightarrow> bool" where
  "nil_free_service s \<longleftrightarrow>
     list_all (\<lambda>p. p \<noteq> None) (svc_Ports s) \<and> list_all nil_free_endpoint (svc_Backends s)"

lemma service_nils_None:
  "service_nils messages x = None \<longleftrightarrow> x \<noteq> None \<and> nil_free_service (the x)"
proof (cases x)
  case (Some s)
  have "(case b of None \<Rightarrow> Some (errors_New m) | Some b \<Rightarrow> nil_ports m' (ep_Ports b)) = None
      \<longleftrightarrow> nil_free_endpoint b" for b m m'
    by (simp add: nil_free_endpoint_def list_all_iff split: option.split)
  then show ?thesis
    by (simp add: Some service_nils_def nil_free_service_def list_all_iff)
qed (simp add: service_nils_def)

lemma valid_contract_nil_free: "valid_contract_service c g s \<Longrightarrow> nil_free_service s"
  by (auto simp: valid_contract_service_def nil_free_service_def list_all_iff)

definition valid_endpoint :: "string \<Rightarrow> (string \<rightharpoonup> api_Service) \<Rightarrow> Endpoint \<Rightarrow> bool" where
  "valid_endpoint nodeGroup services e \<longleftrightarrow>
     (\<exists>s a ps. services (ep_Namespace e @ NUL @ ep_Service e) = Some s \<and>
        ParseAddr (ep_Address e) = Some a \<and> Is6 a \<and> IsGlobalUnicast a \<and>
        ep_NodeGroup e = nodeGroup \<and> ep_PodUid e \<noteq> [] \<and> ep_Ports e = map Some ps \<and>
        length ps = length (svc_Ports s) \<and> distinct (map port_key ps) \<and>
        port_key ` set ps \<subseteq> (port_key \<circ> the) ` set (svc_Ports s))"

lemma state_ports_ok:
  "(\<exists>r. fold_res state_port ports expected = Inr r) \<longleftrightarrow>
    distinct (map (port_key \<circ> the) ports) \<and> (port_key \<circ> the) ` set ports \<subseteq> expected"
proof -
  have "(\<exists>r. fold_res state_port ports expected = Inr r) \<longleftrightarrow>
      (\<forall>x \<in> set ports. True) \<and> distinct (map (port_key \<circ> the) ports) \<and>
      (port_key \<circ> the) ` set ports \<inter> - expected = {}"
    by (rule fold_res_seen[where seen_of = "\<lambda>s. - s"]) (auto simp: state_port_def split: if_splits)
  then show ?thesis by auto
qed

lemma state_endpoint_ok:
  "state_endpoint nodeGroup services x seen = Inr seen' \<longleftrightarrow>
    (\<exists>e. x = Some e \<and> valid_endpoint nodeGroup services e \<and> endpoint_identity e \<notin> seen \<and>
      seen' = insert (endpoint_identity e) seen)"
proof (cases x)
  case (Some e)
  show ?thesis
  proof (cases "services (ep_Namespace e @ NUL @ ep_Service e)"; cases "ParseAddr (ep_Address e)")
    fix s a assume sa: "services (ep_Namespace e @ NUL @ ep_Service e) = Some s"
      "ParseAddr (ep_Address e) = Some a"
    have "(\<exists>ps. ep_Ports e = map Some ps \<and> length ps = length (svc_Ports s) \<and> distinct (map port_key ps) \<and>
        port_key ` set ps \<subseteq> (port_key \<circ> the) ` set (svc_Ports s)) \<longleftrightarrow>
      (\<forall>p \<in> set (ep_Ports e). p \<noteq> None) \<and> length (ep_Ports e) = length (svc_Ports s) \<and>
      (\<exists>r. fold_res state_port (ep_Ports e) ((port_key \<circ> the) ` set (svc_Ports s)) = Inr r)"
      by (simp add: no_nil_ex state_ports_ok image_comp)
    with sa show ?thesis
      by (cases "fold_res state_port (ep_Ports e) ((port_key \<circ> the) ` set (svc_Ports s))")
        (auto simp: Some state_endpoint_def valid_endpoint_def split: option.splits)
  qed (auto simp: Some state_endpoint_def valid_endpoint_def split: option.splits)
qed (simp add: state_endpoint_def)

lemma ValidateNodeState_iff:
  "ValidateNodeState nodeGroup contract state = None \<longleftrightarrow>
    (\<exists>st es. state = Some st \<and> length es \<le> 10000 \<and> (\<exists>ss. contract = map Some ss \<and> list_all nil_free_service ss) \<and>
      ns_Endpoints st = map Some es \<and> distinct (map endpoint_identity es) \<and>
      list_all (valid_endpoint nodeGroup (contract_map contract)) es)"
proof -
  have "(\<exists>r. fold_res (state_endpoint nodeGroup services) xs {} = Inr r) \<longleftrightarrow>
      (\<forall>x \<in> set xs. x \<noteq> None \<and> valid_endpoint nodeGroup services (the x)) \<and>
      distinct (map (endpoint_identity \<circ> the) xs) \<and> (endpoint_identity \<circ> the) ` set xs \<inter> {} = {}" for services xs
    by (rule fold_res_seen[where seen_of = "\<lambda>s. s"]) (auto simp: state_endpoint_ok)
  then have eps: "(\<exists>r. fold_res (state_endpoint nodeGroup services) xs {} = Inr r) \<longleftrightarrow>
      (\<exists>es. xs = map Some es \<and> distinct (map endpoint_identity es) \<and>
        list_all (valid_endpoint nodeGroup services) es)" for services xs
    by (auto simp: no_nil_ex list_all_iff)
  have nils: "first_err (service_nils contract_messages) contract = None \<longleftrightarrow>
      (\<exists>ss. contract = map Some ss \<and> list_all nil_free_service ss)"
    by (auto simp: no_nil_ex service_nils_None list_all_iff)
  show ?thesis
  proof (cases state)
    case (Some st)
    show ?thesis
      using eps[of "contract_map contract" "ns_Endpoints st"] nils
      by (cases "fold_res (state_endpoint nodeGroup (contract_map contract)) (ns_Endpoints st) {}";
          cases "first_err (service_nils contract_messages) contract")
        (auto simp: Some ValidateNodeState_def)
  qed (simp add: ValidateNodeState_def)
qed

lemma contract_map_Some:
  assumes "distinct (map identity ss)"
  shows "contract_map (map Some ss) k = Some s \<longleftrightarrow> s \<in> set ss \<and> identity s = k"
proof -
  have "fold (\<lambda>item m. m(identity (the item) \<mapsto> the item)) (map Some ss) m0 k = Some s \<longleftrightarrow>
      (s \<in> set ss \<and> identity s = k) \<or> (k \<notin> identity ` set ss \<and> m0 k = Some s)" for m0
    using assms by (induction ss arbitrary: m0) (auto simp: image_iff)
  then show ?thesis by (simp add: contract_map_def)
qed

lemma valid_contract_distinct:
  assumes "sorted_wrt (<) (map service_rank ss)" and "list_all (valid_contract_service c g) ss"
  shows "distinct (map identity ss)"
proof -
  have "distinct (map identity ss) \<longleftrightarrow> distinct (map service_rank ss)"
    using assms(2) identity_inj valid_contract_service_nul
    by (intro distinct_map_cong_iff) (metis list_all_iff)
  with assms(1) show ?thesis by (simp add: strict_sorted_iff)
qed

lemma same_ports:
  assumes "length ps = length qs" and "distinct (map port_key ps)"
    and "port_key ` set ps \<subseteq> port_key ` set qs" and "\<forall>q \<in> set qs. nul_free_port q"
  shows "mset ps = mset qs"
proof -
  have sub: "set ps \<subseteq> set qs"
  proof
    fix p assume "p \<in> set ps"
    with assms(3) have "port_key p \<in> port_key ` set qs" by blast
    then obtain q where q: "port_key p = port_key q" "q \<in> set qs" by (rule imageE)
    with assms(4) have "q = p" by (intro port_key_inj) simp_all
    with q show "p \<in> set qs" by simp
  qed
  have "distinct ps" using assms(2) by (simp add: distinct_map)
  then have "card (set ps) = length qs" using assms(1) by (simp add: distinct_card)
  with sub have "set ps = set qs"
    by (metis List.finite_set card_length card_seteq)
  with \<open>card (set ps) = length qs\<close> have "distinct qs" by (simp add: card_distinct)
  with \<open>distinct ps\<close> \<open>set ps = set qs\<close> show ?thesis by (simp add: set_eq_iff_mset_eq_distinct[symmetric])
qed

lemma node_state_endpoint:
  assumes "ValidateContract cluster nodeGroup digest contract = None"
    and "\<forall>s p. Some s \<in> set contract \<and> Some p \<in> set (svc_Ports s) \<longrightarrow> CHR 0x00 \<notin> set (tp_Name p)"
    and "ValidateNodeState nodeGroup contract (Some state) = None"
    and "Some e \<in> set (ns_Endpoints state)"
  shows "\<exists>s a. Some s \<in> set contract \<and> svc_Namespace s = ep_Namespace e \<and> svc_Name s = ep_Service e \<and>
    mset (ep_Ports e) = mset (svc_Ports s) \<and> ep_NodeGroup e = nodeGroup \<and> ep_PodUid e \<noteq> [] \<and>
    ParseAddr (ep_Address e) = Some a \<and> Is6 a \<and> IsGlobalUnicast a"
proof -
  from assms(1) obtain ss where ss: "contract = map Some ss" "sorted_wrt (<) (map service_rank ss)"
    "list_all (valid_contract_service cluster nodeGroup) ss" by (auto simp: ValidateContract_iff)
  have d: "distinct (map identity ss)" by (rule valid_contract_distinct[OF ss(2,3)])
  from assms(3,4) have "valid_endpoint nodeGroup (contract_map contract) e"
    by (auto simp: ValidateNodeState_iff list_all_iff)
  then obtain s a ps where s: "contract_map contract (ep_Namespace e @ NUL @ ep_Service e) = Some s"
    and a: "ParseAddr (ep_Address e) = Some a" "Is6 a" "IsGlobalUnicast a"
    and e: "ep_NodeGroup e = nodeGroup" "ep_PodUid e \<noteq> []"
    and ps: "ep_Ports e = map Some ps" "length ps = length (svc_Ports s)" "distinct (map port_key ps)"
      "port_key ` set ps \<subseteq> (port_key \<circ> the) ` set (svc_Ports s)"
    by (auto simp: valid_endpoint_def)
  from s have "s \<in> set ss" and id: "identity s = ep_Namespace e @ NUL @ ep_Service e"
    by (auto simp: ss(1) contract_map_Some[OF d])
  with ss(3) have valid: "valid_contract_service cluster nodeGroup s" by (auto simp: list_all_iff)
  then obtain qs where qs: "svc_Ports s = map Some qs" "valid_wire_ports qs"
    by (auto simp: valid_contract_service_def)
  have "\<forall>q \<in> set qs. nul_free_port q"
    using assms(2) \<open>s \<in> set ss\<close> qs wire_port_protocol
    by (fastforce simp: ss(1) nul_free_port_def valid_wire_ports_def list_all_iff)
  with ps qs(1) have "mset ps = mset qs" by (intro same_ports) (auto simp: image_comp)
  moreover have "svc_Namespace s = ep_Namespace e \<and> svc_Name s = ep_Service e"
    using id valid ValidID_no_sep(1)[of "svc_Name s"] ValidNamespace_no_sep(1)[of "svc_Namespace s"]
    by (intro join_sep_pair_inj) (auto simp: identity_def valid_contract_service_def)
  ultimately show ?thesis using a e ps(1) qs(1) \<open>s \<in> set ss\<close> by (auto simp: ss(1))
qed

text \<open>
  C20: against a valid contract whose port names contain no NUL, every endpoint of a view
  that passes validation belongs to a Service of the contract, by namespace and name, in the
  sender's NodeGroup; it has exactly the ports of that Service, a Pod, and a global-unicast
  IPv6 address.
\<close>

theorem validate_node_state_sound:
  assumes "ValidateContract cluster nodeGroup digest contract = None"
    and "\<forall>s p. Some s \<in> set contract \<and> Some p \<in> set (svc_Ports s) \<longrightarrow> CHR 0x00 \<notin> set (tp_Name p)"
    and "ValidateNodeState nodeGroup contract (Some state) = None"
    and "Some e \<in> set (ns_Endpoints state)"
  shows "\<exists>s a. Some s \<in> set contract \<and> svc_Namespace s = ep_Namespace e \<and> svc_Name s = ep_Service e \<and>
    mset (ep_Ports e) = mset (svc_Ports s) \<and> ep_NodeGroup e = nodeGroup \<and> ep_PodUid e \<noteq> [] \<and>
    ParseAddr (ep_Address e) = Some a \<and> Is6 a \<and> IsGlobalUnicast a"
  by (rule node_state_endpoint[OF assms])

definition valid_pods :: "pods_Snapshot \<Rightarrow> bool" where
  "valid_pods pods \<longleftrightarrow> distinct (map fst pods) \<and>
     list_all (\<lambda>(uid, pod). pod_UID pod = uid \<and> uid \<noteq> [] \<and> CHR 0x00 \<notin> set uid \<and>
       (pod_Eligible pod \<longrightarrow> (\<exists>w. pod_Address pod = Addr6 w [] \<and> \<not> Is4In6 (Addr6 w []) \<and>
          IsGlobalUnicast (Addr6 w [])))) pods"

definition local_endpoints :: "string \<Rightarrow> manifest_Service list \<Rightarrow> pods_Snapshot \<Rightarrow> Endpoint list" where
  "local_endpoints g ss pods =
     concat (map (\<lambda>s. map (\<lambda>(_, pod). endpoint_of g s pod) (filter (\<lambda>(_, pod). selects s pod) pods)) ss)"

lemma ns_Endpoints_node_state:
  "ns_Endpoints (node_state g ss pods session sequence) =
    map Some (sort_slice endpointLess (local_endpoints g (sortedDesired ss) pods))"
  by (simp add: node_state_def local_endpoints_def)

lemma set_local_endpoints:
  "set (local_endpoints g ss pods) =
    {endpoint_of g s pod | s uid pod. s \<in> set ss \<and> (uid, pod) \<in> set pods \<and> selects s pod}"
  by (auto simp: local_endpoints_def)

lemma endpoint_identity_inj:
  assumes "CHR 0x00 \<notin> set (ep_Namespace e)" "CHR 0x00 \<notin> set (ep_Service e)" "CHR 0x00 \<notin> set (ep_PodUid e)"
    "CHR 0x00 \<notin> set (ep_Namespace e')" "CHR 0x00 \<notin> set (ep_Service e')" "CHR 0x00 \<notin> set (ep_PodUid e')"
    and "endpoint_identity e = endpoint_identity e'"
  shows "(ep_Namespace e, ep_Service e, ep_PodUid e) = (ep_Namespace e', ep_Service e', ep_PodUid e')"
proof -
  from assms(7) have "ep_Namespace e @ CHR 0x00 # ep_Service e @ CHR 0x00 # ep_PodUid e @ CHR 0x00 # ep_Address e
      = ep_Namespace e' @ CHR 0x00 # ep_Service e' @ CHR 0x00 # ep_PodUid e' @ CHR 0x00 # ep_Address e'"
    by (simp add: endpoint_identity_def)
  from join_sep_inj[OF assms(1,4) this] have ns: "ep_Namespace e = ep_Namespace e'"
    and rest: "ep_Service e @ CHR 0x00 # ep_PodUid e @ CHR 0x00 # ep_Address e
      = ep_Service e' @ CHR 0x00 # ep_PodUid e' @ CHR 0x00 # ep_Address e'" by blast+
  from join_sep_inj[OF assms(2,5) rest] have svc: "ep_Service e = ep_Service e'"
    and rest: "ep_PodUid e @ CHR 0x00 # ep_Address e = ep_PodUid e' @ CHR 0x00 # ep_Address e'" by blast+
  from join_sep_inj[OF assms(3,6) rest] ns svc show ?thesis by simp
qed

lemma local_endpoints_distinct:
  assumes "distinct (map desired_rank ss)" and "distinct (map fst pods)"
    and "\<forall>(uid, pod) \<in> set pods. pod_UID pod = uid"
  shows "distinct (map (\<lambda>e. (ep_Namespace e, ep_Service e, ep_PodUid e)) (local_endpoints g ss pods))"
  using assms(1)
proof (induction ss)
  case (Cons s ss)
  let ?k = "\<lambda>e. (ep_Namespace e, ep_Service e, ep_PodUid e)"
  let ?sel = "filter (\<lambda>(_, pod). selects s pod) pods"
  have uid: "map (\<lambda>(_, pod). pod_UID pod) ?sel = map fst ?sel"
    using assms(3) by (auto intro!: map_cong)
  have "distinct (map fst ?sel)" using assms(2) by (simp add: distinct_map_filter)
  then have "distinct (map (\<lambda>u. (ms_Namespace s, ms_Name s, u)) (map (\<lambda>(_, pod). pod_UID pod) ?sel))"
    unfolding uid by (subst distinct_map) (simp add: inj_on_def)
  then have "distinct (map ?k (local_endpoints g [s] pods))"
    by (simp add: local_endpoints_def comp_def case_prod_beta endpoint_of_def)
  moreover have "?k ` set (local_endpoints g [s] pods) \<inter> ?k ` set (local_endpoints g ss pods) = {}"
    using Cons.prems by (auto simp: set_local_endpoints endpoint_of_def image_iff)
  moreover have "local_endpoints g (s # ss) pods = local_endpoints g [s] pods @ local_endpoints g ss pods"
    by (simp add: local_endpoints_def)
  ultimately show ?case using Cons by simp
qed (simp add: local_endpoints_def)

lemma wirePort_keys:
  assumes "valid_desired_service s"
  shows "distinct (map port_key (map wirePort (ms_Ports s)))"
proof -
  let ?ps = "map wirePort (ms_Ports s)"
  have "valid_wire_ports ?ps"
    using assms by (intro wirePort_ports) (simp_all add: valid_desired_service_def)
  then have "distinct (map (\<lambda>p. (tp_Protocol p, tp_ServicePort p)) ?ps)"
    by (simp only: valid_wire_ports_def)
  then have "distinct ?ps" by (rule distinct_map[THEN iffD1, THEN conjunct1])
  have "nul_free_port p" if "p \<in> set ?ps" for p
    using assms that
    by (auto simp: valid_desired_service_def list_all_iff valid_desired_port_def nul_free_port_def wirePort_def)
  then have "inj_on port_key (set ?ps)" by (intro inj_onI port_key_inj)
  with \<open>distinct ?ps\<close> show ?thesis by (simp only: distinct_map[of port_key ?ps])
qed

lemma own_endpoint_valid:
  assumes "valid_desired ss" and "valid_pods pods" and "e \<in> set (local_endpoints g ss pods)"
  shows "valid_endpoint g (contract_map (map Some (desiredContract c g ss))) e"
    and "CHR 0x00 \<notin> set (ep_Namespace e)" "CHR 0x00 \<notin> set (ep_Service e)" "CHR 0x00 \<notin> set (ep_PodUid e)"
proof -
  from assms(3) obtain s uid pod where e: "e = endpoint_of g s pod" and s: "s \<in> set ss"
    and pod: "(uid, pod) \<in> set pods" "selects s pod" by (auto simp: set_local_endpoints)
  from assms(1) s have valid: "valid_desired_service s" by (auto simp: valid_desired_def list_all_iff)
  then show "CHR 0x00 \<notin> set (ep_Namespace e)" "CHR 0x00 \<notin> set (ep_Service e)"
    by (auto simp: e endpoint_of_def valid_desired_service_def dest: ValidNamespace_no_sep ValidID_no_sep)
  from assms(2) pod obtain w where uid: "pod_UID pod = uid" "uid \<noteq> []" "CHR 0x00 \<notin> set uid"
    and w: "pod_Address pod = Addr6 w []" "\<not> Is4In6 (Addr6 w [])" "IsGlobalUnicast (Addr6 w [])"
    by (fastforce simp: valid_pods_def list_all_iff selects_def)
  then show "CHR 0x00 \<notin> set (ep_PodUid e)" by (simp add: e endpoint_of_def)
  let ?i = "desired_item c g s"
  have "contract_map (map Some (desiredContract c g ss)) (identity ?i) = Some ?i"
    using contract_map_Some[OF valid_contract_distinct[OF desiredContract_valid(1,2)[OF assms(1)]], of c g] s
    by (auto simp: desiredContract_def simp del: map_map)
  moreover have "valid_contract_service c g ?i" by (rule desired_item_valid[OF valid])
  moreover have "distinct (map port_key (map wirePort (ms_Ports s)))"
    by (rule wirePort_keys[OF valid])
  ultimately show "valid_endpoint g (contract_map (map Some (desiredContract c g ss))) e"
    using uid ParseAddr_String[OF w(2)] w
    by (auto simp: valid_endpoint_def e endpoint_of_def identity_def Is6_def image_comp
        intro!: exI[of _ ?i] exI[of _ "map wirePort (ms_Ports s)"])
qed

lemma own_state_valid:
  assumes "valid_desired ss" and "valid_pods pods" and "length (local_endpoints g ss pods) \<le> 10000"
  shows "ValidateNodeState g (map Some (desiredContract c g ss)) (Some (node_state g ss pods session n)) = None"
proof -
  let ?es = "sort_slice endpointLess (local_endpoints g (sortedDesired ss) pods)"
  have perm: "set (local_endpoints g (sortedDesired ss) pods) = set (local_endpoints g ss pods)"
    by (simp add: set_local_endpoints)
  have "length (local_endpoints g (sortedDesired ss) pods) = length (local_endpoints g ss pods)"
    unfolding local_endpoints_def length_concat map_map comp_def
    by (metis (no_types, lifting) mset_map mset_sort sortedDesired_key sum_mset_sum_list)
  with assms(3) have len: "length ?es \<le> 10000" by simp
  have ends: "list_all (valid_endpoint g (contract_map (map Some (desiredContract c g ss)))) ?es"
    using own_endpoint_valid(1)[OF assms(1,2)] by (simp add: list_all_iff perm)
  have "distinct (map (\<lambda>e. (ep_Namespace e, ep_Service e, ep_PodUid e)) (local_endpoints g (sortedDesired ss) pods))"
    using assms(1,2) by (intro local_endpoints_distinct)
      (auto simp: valid_desired_def valid_pods_def list_all_iff sortedDesired_key distinct_map)
  then have d: "distinct (local_endpoints g (sortedDesired ss) pods)"
    and inj: "inj_on (\<lambda>e. (ep_Namespace e, ep_Service e, ep_PodUid e)) (set (local_endpoints g (sortedDesired ss) pods))"
    by (simp_all add: distinct_map)
  have "inj_on endpoint_identity (set (local_endpoints g (sortedDesired ss) pods))"
  proof (rule inj_onI)
    fix e e' assume e: "e \<in> set (local_endpoints g (sortedDesired ss) pods)"
      "e' \<in> set (local_endpoints g (sortedDesired ss) pods)" and eq: "endpoint_identity e = endpoint_identity e'"
    have "(ep_Namespace e, ep_Service e, ep_PodUid e) = (ep_Namespace e', ep_Service e', ep_PodUid e')"
      using own_endpoint_valid(2-4)[OF assms(1,2)] e
      by (intro endpoint_identity_inj) (simp_all add: perm eq)
    with inj e show "e = e'" by (auto dest: inj_onD)
  qed
  with d have "distinct (map endpoint_identity (local_endpoints g (sortedDesired ss) pods))"
    by (simp add: distinct_map)
  then have "distinct (map endpoint_identity ?es)" by simp
  moreover have "list_all nil_free_service (desiredContract c g ss)"
    using desiredContract_valid(2)[OF assms(1), of c g] valid_contract_nil_free by (auto simp: list_all_iff)
  ultimately show ?thesis using len ends by (auto simp: ValidateNodeState_iff ns_Endpoints_node_state)
qed


definition example_service :: manifest_Service where
  "example_service = \<lparr>ms_Name = ''web'', ms_Namespace = ''default'', ms_Selector = [(''app'', ''web'')],
     ms_Ports = [\<lparr>sp_Name = ''http'', sp_Protocol = ''TCP'', sp_Port = 80, sp_TargetPort = 8080\<rparr>]\<rparr>"

definition example_pod :: Pod where
  "example_pod = \<lparr>pod_UID = ''u1'', pod_Namespace = ''default'', pod_Labels = [(''app'', ''web'')],
     pod_Address = Addr6 0x20010db8000000000000000000000001 [], pod_Eligible = True\<rparr>"

lemma example_valid:
  "valid_desired [example_service]" "valid_pods [(''u1'', example_pod)]" "ValidID ''apps''"
proof -
  show "valid_desired [example_service]" by code_simp
  show "ValidID ''apps''" by code_simp
  show "valid_pods [(''u1'', example_pod)]"
    by (simp add: valid_pods_def example_pod_def Is4In6_def IsGlobalUnicast_def IsLoopback_def
        IsMulticast_def IsLinkLocalUnicast_def Unmap_def)
qed


theorem validate_node_state_sound_witness:
  "\<exists>s a. Some s \<in> set (map Some (desiredContract ''prod'' ''apps'' [example_service])) \<and>
    svc_Namespace s = ''default'' \<and> svc_Name s = ''web'' \<and>
    mset (ep_Ports (endpoint_of ''apps'' example_service example_pod)) = mset (svc_Ports s) \<and>
    ParseAddr (ep_Address (endpoint_of ''apps'' example_service example_pod)) = Some a \<and> Is6 a"
proof -
  let ?contract = "map Some (desiredContract ''prod'' ''apps'' [example_service])"
  let ?state = "node_state ''apps'' [example_service] [(''u1'', example_pod)] ''s'' 1"
  let ?e = "endpoint_of ''apps'' example_service example_pod"
  have sorted: "sortedDesired [example_service] = [example_service]" by (simp add: sortedDesired_key)
  have "selects example_service example_pod" by code_simp
  then have e: "Some ?e \<in> set (ns_Endpoints ?state)"
    by (simp add: ns_Endpoints_node_state sorted local_endpoints_def)
  have names: "\<forall>s p. Some s \<in> set ?contract \<and> Some p \<in> set (svc_Ports s) \<longrightarrow> CHR 0x00 \<notin> set (tp_Name p)"
    by (auto simp: desiredContract_def sorted example_service_def wirePort_def)
  have state: "ValidateNodeState ''apps'' ?contract (Some ?state) = None"
    by (rule own_state_valid[OF example_valid(1,2)]) (simp add: local_endpoints_def)
  from validate_node_state_sound[OF own_contract_valid[OF example_valid(1,3)] names state e]
  show ?thesis by (simp add: endpoint_of_def) (auto simp: example_service_def)
qed

section \<open>What the digest stands for\<close>

text \<open>The bytes that are hashed, and what of a Service they are meant to determine.\<close>

definition digest_input :: "manifest_Service list \<Rightarrow> string" where
  "digest_input services = concat (map digest_service (sortedDesired services))"

type_synonym canonical = "(string \<times> string) \<times> (string \<rightharpoonup> string) \<times> ServicePort list"

definition canon :: "manifest_Service \<Rightarrow> canonical" where
  "canon s = (desired_rank s, map_of (ms_Selector s), ms_Ports s)"

definition digestible :: "manifest_Service \<Rightarrow> bool" where
  "digestible s \<longleftrightarrow> valid_desired_service s \<and> distinct (map fst (ms_Selector s)) \<and>
     list_all (\<lambda>(k, v). CHR ''='' \<notin> set k \<and> CHR 0x00 \<notin> set k \<and> CHR 0x00 \<notin> set v) (ms_Selector s) \<and>
     list_all (\<lambda>p. CHR ''/'' \<notin> set (sp_Name p) \<and> CHR ''='' \<notin> set (sp_Name p)) (ms_Ports s)"

definition selector_tokens :: "manifest_Service \<Rightarrow> string list" where
  "selector_tokens s = map (\<lambda>k. k @ CHR ''='' # the (map_of (ms_Selector s) k))
     (sort (map fst (ms_Selector s)))"

definition port_token :: "ServicePort \<Rightarrow> string" where
  "port_token p = sp_Name p @ CHR ''/'' # sp_Protocol p @ CHR ''/'' # dec_int (sp_Port p) @
     CHR ''/'' # dec_int (sp_TargetPort p)"

definition service_tokens :: "manifest_Service \<Rightarrow> string list" where
  "service_tokens s =
     ms_Namespace s # ms_Name s # selector_tokens s @ map port_token (ms_Ports s)"

definition terminated :: "string list \<Rightarrow> string" where
  "terminated ts = concat (map (\<lambda>t. t @ NUL) ts)"

lemma terminated_inj:
  assumes "\<forall>t \<in> set ts. CHR 0x00 \<notin> set t" and "\<forall>t \<in> set us. CHR 0x00 \<notin> set t"
    and "terminated ts = terminated us"
  shows "ts = us"
  using assms
proof (induction ts arbitrary: us)
  case Nil
  then show ?case by (cases us) (auto simp: terminated_def)
next
  case (Cons t ts)
  from Cons.prems(3) obtain u us' where us: "us = u # us'" by (cases us) (auto simp: terminated_def)
  with Cons.prems(3) have eq: "t @ CHR 0x00 # terminated ts = u @ CHR 0x00 # terminated us'"
    by (simp add: terminated_def)
  from Cons.prems(1,2) us have tu: "CHR 0x00 \<notin> set t" "CHR 0x00 \<notin> set u" by simp_all
  from join_sep_inj[OF tu eq] have "t = u" "terminated ts = terminated us'" by blast+
  with Cons.IH[of us'] Cons.prems(1,2) us show ?case by simp
qed

lemma digest_service_tokens:
  assumes "distinct (map fst (ms_Selector s))"
  shows "digest_service s = terminated (service_tokens s)"
proof -
  have "digest_selector (ms_Selector s) k = (k @ CHR ''='' # the (map_of (ms_Selector s) k)) @ NUL"
    if "k \<in> set (map fst (ms_Selector s))" for k
    using that by (auto simp: digest_selector_def split: option.split dest: map_of_eq_None_iff[THEN iffD1])
  then have "concat (map (digest_selector (ms_Selector s)) (sort (map fst (ms_Selector s))))
      = terminated (selector_tokens s)"
    by (auto simp: terminated_def selector_tokens_def intro!: arg_cong[of _ _ concat])
  moreover have "sort_slice (<) ks = sort ks" for ks :: "string list"
    using sort_slice_key[of "\<lambda>k. k" ks] by simp
  ultimately show ?thesis
    by (simp add: digest_service_def Let_def service_tokens_def terminated_def digest_port_def[abs_def]
        port_token_def comp_def)
qed

lemma digestible_tokens:
  assumes "digestible s"
  shows "\<forall>t \<in> set (service_tokens s). CHR 0x00 \<notin> set t"
    and "\<forall>t \<in> set (selector_tokens s). CHR ''='' \<in> set t"
    and "\<forall>t \<in> set (map port_token (ms_Ports s)). CHR ''='' \<notin> set t \<and> CHR ''/'' \<in> set t"
    and "CHR ''='' \<notin> set (ms_Namespace s)" "CHR ''/'' \<notin> set (ms_Namespace s)"
proof -
  from assms have valid: "ValidNamespace (ms_Namespace s)" "ValidID (ms_Name s)"
    and ports: "\<forall>p \<in> set (ms_Ports s). valid_desired_port p \<and> CHR ''/'' \<notin> set (sp_Name p) \<and> CHR ''='' \<notin> set (sp_Name p)"
    and sel: "\<forall>(k, v) \<in> set (ms_Selector s). CHR ''='' \<notin> set k \<and> CHR 0x00 \<notin> set k \<and> CHR 0x00 \<notin> set v"
    and d: "distinct (map fst (ms_Selector s))"
    by (auto simp: digestible_def valid_desired_service_def list_all_iff)
  show "CHR ''='' \<notin> set (ms_Namespace s)" "CHR ''/'' \<notin> set (ms_Namespace s)"
    using valid by (simp_all add: ValidNamespace_no_sep)
  show eq: "\<forall>t \<in> set (selector_tokens s). CHR ''='' \<in> set t" by (auto simp: selector_tokens_def)
  have dec: "0 \<le> i \<Longrightarrow> CHR 0x00 \<notin> set (dec_int i) \<and> CHR ''='' \<notin> set (dec_int i)" for i
    by (simp add: dec_int_def)
  show "\<forall>t \<in> set (map port_token (ms_Ports s)). CHR ''='' \<notin> set t \<and> CHR ''/'' \<in> set t"
    using ports dec by (auto simp: port_token_def valid_desired_port_def)
  have "CHR 0x00 \<notin> set t" if "t \<in> set (selector_tokens s)" for t
    using that sel d by (fastforce simp: selector_tokens_def)
  moreover have "CHR 0x00 \<notin> set t" if "t \<in> set (map port_token (ms_Ports s))" for t
    using that ports dec by (auto simp: port_token_def valid_desired_port_def)
  ultimately show "\<forall>t \<in> set (service_tokens s). CHR 0x00 \<notin> set t"
    using valid by (auto simp: service_tokens_def ValidNamespace_no_sep ValidID_no_sep)
qed

lemma service_tokens_split:
  assumes "digestible s" and "digestible t"
    and rest: "xs = [] \<or> CHR ''='' \<notin> set (hd xs) \<and> CHR ''/'' \<notin> set (hd xs)"
      "ys = [] \<or> CHR ''='' \<notin> set (hd ys) \<and> CHR ''/'' \<notin> set (hd ys)"
    and eq: "service_tokens s @ xs = service_tokens t @ ys"
  shows "desired_rank s = desired_rank t \<and> selector_tokens s = selector_tokens t \<and>
    map port_token (ms_Ports s) = map port_token (ms_Ports t) \<and> xs = ys"
proof -
  let ?eq = "\<lambda>t. CHR ''='' \<in> set t" and ?sl = "\<lambda>t. CHR ''/'' \<in> set t"
  have parse: "takeWhile ?eq (selector_tokens u @ map port_token (ms_Ports u) @ zs) = selector_tokens u"
    "dropWhile ?eq (selector_tokens u @ map port_token (ms_Ports u) @ zs) = map port_token (ms_Ports u) @ zs"
    "takeWhile ?sl (map port_token (ms_Ports u) @ zs) = map port_token (ms_Ports u)"
    "dropWhile ?sl (map port_token (ms_Ports u) @ zs) = zs"
    if "digestible u" and "zs = [] \<or> \<not> ?eq (hd zs) \<and> \<not> ?sl (hd zs)" for u zs
  proof -
    note tokens = digestible_tokens(2,3)[OF that(1)]
    have stop: "\<not> ?eq (hd (map port_token (ms_Ports u) @ zs))" if "map port_token (ms_Ports u) @ zs \<noteq> []"
      using that \<open>zs = [] \<or> \<not> ?eq (hd zs) \<and> \<not> ?sl (hd zs)\<close> tokens(2) by (cases "ms_Ports u") auto
    have tw: "takeWhile P (as @ bs) = as \<and> dropWhile P (as @ bs) = bs"
      if "\<forall>a \<in> set as. P a" "bs = [] \<or> \<not> P (hd bs)" for P and as bs :: "string list"
      using that by (cases bs) (auto simp: takeWhile_append2 dropWhile_append2)
    from tw[OF tokens(1), of "map port_token (ms_Ports u) @ zs"] stop
      tw[of "map port_token (ms_Ports u)" ?sl zs] tokens(2) that(2)
    show "takeWhile ?eq (selector_tokens u @ map port_token (ms_Ports u) @ zs) = selector_tokens u"
      "dropWhile ?eq (selector_tokens u @ map port_token (ms_Ports u) @ zs) = map port_token (ms_Ports u) @ zs"
      "takeWhile ?sl (map port_token (ms_Ports u) @ zs) = map port_token (ms_Ports u)"
      "dropWhile ?sl (map port_token (ms_Ports u) @ zs) = zs" by blast+
  qed
  from eq have "desired_rank s = desired_rank t" and
    eq: "selector_tokens s @ map port_token (ms_Ports s) @ xs = selector_tokens t @ map port_token (ms_Ports t) @ ys"
    by (simp_all add: service_tokens_def)
  moreover from eq parse(1)[OF assms(1) rest(1)] parse(1)[OF assms(2) rest(2)]
  have "selector_tokens s = selector_tokens t" by metis
  moreover from eq parse(2)[OF assms(1) rest(1)] parse(2)[OF assms(2) rest(2)]
  have ports: "map port_token (ms_Ports s) @ xs = map port_token (ms_Ports t) @ ys" by metis
  moreover from ports parse(3)[OF assms(1) rest(1)] parse(3)[OF assms(2) rest(2)]
  have "map port_token (ms_Ports s) = map port_token (ms_Ports t)" by metis
  ultimately show ?thesis by simp
qed

lemma selector_tokens_inj:
  assumes "digestible s" and "digestible t" and "selector_tokens s = selector_tokens t"
  shows "map_of (ms_Selector s) = map_of (ms_Selector t)"
proof -
  have cut: "map (\<lambda>x. Cut x CHR ''='') (selector_tokens u) =
      map (\<lambda>k. (k, the (map_of (ms_Selector u) k), True)) (sort (map fst (ms_Selector u)))"
    if "digestible u" for u
    using that by (auto simp: selector_tokens_def digestible_def list_all_iff Cut_append)
  have "map (\<lambda>k. (k, the (map_of (ms_Selector s) k), True)) (sort (map fst (ms_Selector s))) =
      map (\<lambda>k. (k, the (map_of (ms_Selector t) k), True)) (sort (map fst (ms_Selector t)))"
    using arg_cong[OF assms(3), of "map (\<lambda>x. Cut x CHR ''='')"]
    unfolding cut[OF assms(1)] cut[OF assms(2)] .
  from arg_cong[OF this, of set]
  have graph: "(\<lambda>k. (k, the (map_of (ms_Selector s) k), True)) ` fst ` set (ms_Selector s)
      = (\<lambda>k. (k, the (map_of (ms_Selector t) k), True)) ` fst ` set (ms_Selector t)" by simp
  have keys: "fst ` set (ms_Selector s) = fst ` set (ms_Selector t)"
    using arg_cong[OF graph, of "image fst"] by (simp add: image_image)
  show ?thesis
  proof
    fix k
    show "map_of (ms_Selector s) k = map_of (ms_Selector t) k"
    proof (cases "k \<in> fst ` set (ms_Selector s)")
      case True
      then have "(k, the (map_of (ms_Selector s) k), True) \<in>
          (\<lambda>k. (k, the (map_of (ms_Selector t) k), True)) ` fst ` set (ms_Selector t)"
        unfolding graph[symmetric] by (rule imageI)
      then have "the (map_of (ms_Selector s) k) = the (map_of (ms_Selector t) k)" by auto
      moreover from True keys have "map_of (ms_Selector s) k \<noteq> None" "map_of (ms_Selector t) k \<noteq> None"
        by (simp_all add: map_of_eq_None_iff)
      ultimately show ?thesis by (metis option.expand)
    next
      case False
      with keys have "map_of (ms_Selector s) k = None" "map_of (ms_Selector t) k = None"
        by (simp_all add: map_of_eq_None_iff)
      then show ?thesis by simp
    qed
  qed
qed

lemma port_token_inj:
  assumes "valid_desired_port p" "CHR ''/'' \<notin> set (sp_Name p)"
    and "valid_desired_port q" "CHR ''/'' \<notin> set (sp_Name q)" and "port_token p = port_token q"
  shows "p = q"
proof -
  have dec: "0 \<le> i \<Longrightarrow> CHR ''/'' \<notin> set (dec_int i)" for i by (simp add: dec_int_def)
  have split: "Split (port_token r) CHR ''/'' =
      [sp_Name r, sp_Protocol r, dec_int (sp_Port r), dec_int (sp_TargetPort r)]"
    if "valid_desired_port r" "CHR ''/'' \<notin> set (sp_Name r)" for r
    using that dec by (auto simp: port_token_def valid_desired_port_def Split_append)
  have "dec_int (sp_Port p) = dec_int (sp_Port q)" "dec_int (sp_TargetPort p) = dec_int (sp_TargetPort q)"
    "sp_Name p = sp_Name q" "sp_Protocol p = sp_Protocol q"
    using arg_cong[OF assms(5), of "\<lambda>x. Split x CHR ''/''"]
    unfolding split[OF assms(1,2)] split[OF assms(3,4)] by simp_all
  then show ?thesis using assms(1,3) 
    by (auto simp: dec_int_def valid_desired_port_def eq_nat_nat_iff intro!: ServicePort.equality)
qed

lemma tokens_canon:
  assumes "list_all digestible ss" and "list_all digestible ts"
    and "concat (map service_tokens ss) = concat (map service_tokens ts)"
  shows "map canon ss = map canon ts"
  using assms
proof (induction ss arbitrary: ts)
  case Nil
  then show ?case by (cases ts) (auto simp: service_tokens_def)
next
  case (Cons s ss)
  from Cons.prems(3) obtain t ts' where ts: "ts = t # ts'" by (cases ts) (auto simp: service_tokens_def)
  have stop: "xs = [] \<or> CHR ''='' \<notin> set (hd xs) \<and> CHR ''/'' \<notin> set (hd xs)"
    if "list_all digestible us" "xs = concat (map service_tokens us)" for us xs
    using that digestible_tokens(4,5) by (cases us) (auto simp: service_tokens_def)
  from Cons.prems ts have d: "digestible s" "digestible t" and ds: "list_all digestible ss" "list_all digestible ts'"
    and eq: "service_tokens s @ concat (map service_tokens ss) = service_tokens t @ concat (map service_tokens ts')"
    by simp_all
  note split = service_tokens_split[OF d stop[OF ds(1) refl] stop[OF ds(2) refl] eq]
  have "ms_Ports s = ms_Ports t"
  proof (rule list.inj_map_strong)
    show "map port_token (ms_Ports s) = map port_token (ms_Ports t)" using split by blast
    show "p = q" if "p \<in> set (ms_Ports s)" "q \<in> set (ms_Ports t)" "port_token p = port_token q" for p q
      using that d by (intro port_token_inj) (auto simp: digestible_def valid_desired_service_def list_all_iff)
  qed
  with split selector_tokens_inj[OF d] have "canon s = canon t" by (simp add: canon_def)
  moreover have "map canon ss = map canon ts'" using split by (intro Cons.IH[OF ds]) blast
  ultimately show ?case by (simp add: ts)
qed

lemma canon_rank: "fst \<circ> canon = desired_rank"
  by (simp add: canon_def fun_eq_iff)

lemma canon_sorted:
  assumes "distinct (map desired_rank ss)" and "distinct (map desired_rank ts)"
    and "canon ` set ss = canon ` set ts"
  shows "map canon (sortedDesired ss) = map canon (sortedDesired ts)"
proof -
  have d: "distinct (map canon us)" if "distinct (map desired_rank us)" for us
    using that by (auto simp: distinct_map canon_def inj_on_def)
  have inj: "inj_on fst (canon ` set us)" if "distinct (map desired_rank us)" for us
    using that by (auto simp: distinct_map canon_def inj_on_def)
  have "map canon (sortedDesired us) = sort_key fst (map canon us)" for us
    unfolding sortedDesired_key canon_rank[symmetric] by (rule map_sort_key)
  moreover have "mset (map canon ss) = mset (map canon ts)"
    using d[OF assms(1)] d[OF assms(2)] assms(3) by (subst set_eq_iff_mset_eq_distinct[symmetric]) auto
  ultimately show ?thesis using inj[OF assms(1)] by (simp add: sort_key_perm[of "map canon ss" "map canon ts"])
qed

lemma digest_service_canon:
  assumes "digestible s" and "digestible t" and "canon s = canon t"
  shows "digest_service s = digest_service t"
proof -
  have "sort (map fst (ms_Selector u)) = sorted_list_of_set (dom (map_of (ms_Selector u)))"
    if "digestible u" for u
    using that by (simp add: digestible_def dom_map_of_conv_image_fst sorted_list_of_set_sort_remdups
        distinct_remdups_id flip: set_map)
  with assms have "service_tokens s = service_tokens t"
    by (simp add: service_tokens_def selector_tokens_def canon_def)
  with assms show ?thesis by (simp add: digest_service_tokens digestible_def)
qed

lemma digest_input_tokens:
  assumes "list_all digestible us"
  shows "digest_input us = terminated (concat (map service_tokens (sortedDesired us)))"
proof -
  have "map digest_service (sortedDesired us) = map (\<lambda>s. terminated (service_tokens s)) (sortedDesired us)"
    using assms by (auto simp: list_all_iff digest_service_tokens digestible_def)
  moreover have "terminated (concat xss) = concat (map terminated xss)" for xss
    by (induction xss) (simp_all add: terminated_def)
  ultimately show ?thesis by (simp only: digest_input_def map_map comp_def)
qed

lemma digest_services_canon:
  assumes "list_all digestible ss" and "list_all digestible ts"
    and services: "map canon (sortedDesired ss) = map canon (sortedDesired ts)"
  shows "map digest_service (sortedDesired ss) = map digest_service (sortedDesired ts)"
proof (rule nth_equalityI)
  show len: "length (map digest_service (sortedDesired ss)) = length (map digest_service (sortedDesired ts))"
    using arg_cong[OF services, of length] by simp
  fix i assume i: "i < length (map digest_service (sortedDesired ss))"
  with len have "canon (sortedDesired ss ! i) = canon (sortedDesired ts ! i)"
    using arg_cong[OF services, of "\<lambda>xs. xs ! i"] by simp
  moreover have "sortedDesired ss ! i \<in> set ss" "sortedDesired ts ! i \<in> set ts"
    using i len nth_mem[of i "sortedDesired ss"] nth_mem[of i "sortedDesired ts"] by simp_all
  ultimately have "digest_service (sortedDesired ss ! i) = digest_service (sortedDesired ts ! i)"
    using assms(1,2) by (intro digest_service_canon) (simp_all add: list_all_iff)
  with i len show "map digest_service (sortedDesired ss) ! i = map digest_service (sortedDesired ts) ! i"
    by simp
qed



end
