(* ===== verification/Service_Merge.thy ===== *)
theory Service_Merge
  imports Service_Contract
begin

text \<open>
  The merge of the NodeGroup contracts and the leased endpoint views of all nodes into one
  snapshot, \<open>BuildSnapshot\<close>, \<open>BuildClusterSnapshot\<close> and \<open>ValidateSnapshotOwnership\<close> of
  \<open>src/internal/agent/service/controller.go\<close>.
\<close>

section \<open>Merging\<close>

definition mergeLess :: "Endpoint \<Rightarrow> Endpoint \<Rightarrow> bool" where
  "mergeLess a b =
     (if ep_Address a \<noteq> ep_Address b then ep_Address a < ep_Address b else ep_PodUid a < ep_PodUid b)"

text \<open>\<open>BuildSnapshot\<close> for given desired Services.\<close>

definition build_snapshot ::
  "string \<Rightarrow> string \<Rightarrow> manifest_Service list \<Rightarrow> 64 word \<Rightarrow> 64 word \<Rightarrow> string \<Rightarrow> NodeState list \<Rightarrow> Snapshot" where
  "build_snapshot cluster nodeGroup desired generation revision leader nodes =
     (let digest = digestDesired desired
      in \<lparr>sn_Generation = generation, sn_Revision = revision, sn_LeaderId = leader,
          sn_ConfigDigest = digest,
          sn_Services = map (\<lambda>wanted.
            Some ((desired_item cluster nodeGroup wanted)\<lparr>svc_Backends :=
              map Some (sort_slice mergeLess
                (concat (map (\<lambda>node.
                   if ns_ConfigDigest node \<noteq> digest then []
                   else filter (\<lambda>e. ep_Namespace e = ms_Namespace wanted \<and> ep_Service e = ms_Name wanted)
                          (map the (ns_Endpoints node))) nodes)))\<rparr>)) (sortedDesired desired)\<rparr>)"

record Peer =
  peer_Hello :: "Hello option"
  peer_State :: "NodeState option"

definition hello_messages :: nil_messages where
  "hello_messages = \<lparr>nil_Service = ''nil Service in Hello'',
     nil_port = ''nil target port in Hello Service'', nil_backend = ''nil backend in Hello Service'',
     nil_backend_port = ''nil target port in Hello backend''\<rparr>"

definition state_nils :: "Endpoint option \<Rightarrow> error option" where
  "state_nils element =
     (case element of
        None \<Rightarrow> Some (errors_New ''nil endpoint in node state'')
      | Some endpoint \<Rightarrow> nil_ports ''nil target port in endpoint'' (ep_Ports endpoint))"

definition peer_nils :: "Peer \<Rightarrow> error option" where
  "peer_nils peer =
     (case (case peer_Hello peer of
              None \<Rightarrow> None
            | Some hello \<Rightarrow> first_err (service_nils hello_messages) (hello_Services hello)) of
        Some e \<Rightarrow> Some e
      | None \<Rightarrow>
          (case peer_State peer of
             None \<Rightarrow> None
           | Some state \<Rightarrow> first_err state_nils (ns_Endpoints state)))"

definition by_node_group :: "Peer list \<Rightarrow> (string \<times> Hello) list" where
  "by_node_group peers =
     fold (\<lambda>peer m. case peer_Hello peer of
             None \<Rightarrow> m
           | Some hello \<Rightarrow> AList.update (hello_NodeGroup hello) hello m) peers []"

definition cloneServices :: "api_Service list \<Rightarrow> api_Service list" where
  "cloneServices input = map (\<lambda>item. item) input"

definition serviceLess :: "api_Service \<Rightarrow> api_Service \<Rightarrow> bool" where
  "serviceLess left right =
     (if svc_Namespace left \<noteq> svc_Namespace right then svc_Namespace left < svc_Namespace right
      else if svc_Name left \<noteq> svc_Name right then svc_Name left < svc_Name right
      else svc_NodeGroup left < svc_NodeGroup right)"

definition leased_backends :: "Peer list \<Rightarrow> string \<Rightarrow> string \<Rightarrow> api_Service \<Rightarrow> Endpoint list" where
  "leased_backends peers nodeGroup digest item =
     concat (map (\<lambda>peer.
       case (peer_Hello peer, peer_State peer) of
         (Some hello, Some state) \<Rightarrow>
           if hello_NodeGroup hello \<noteq> nodeGroup \<or> ns_ConfigDigest state \<noteq> digest then []
           else filter (\<lambda>e. ep_NodeGroup e = nodeGroup \<and> ep_Namespace e = svc_Namespace item
                          \<and> ep_Service e = svc_Name item) (map the (ns_Endpoints state))
       | _ \<Rightarrow> []) peers)"

definition owner_conflict :: "api_Service \<Rightarrow> string \<Rightarrow> string \<Rightarrow> error" where
  "owner_conflict item owner nodeGroup =
     Errorf ''service %s/%s is owned by NodeGroups %q and %q''
       [svc_Namespace item, svc_Name item, owner, nodeGroup]"

definition cluster_service ::
  "Peer list \<Rightarrow> string \<Rightarrow> string \<Rightarrow> api_Service \<Rightarrow> (string \<rightharpoonup> string) \<times> api_Service list
     \<Rightarrow> error + (string \<rightharpoonup> string) \<times> api_Service list" where
  "cluster_service peers nodeGroup digest item = (\<lambda>(identities, services).
     case identities (identity item) of
       Some owner \<Rightarrow>
         if owner \<noteq> nodeGroup then Inl (owner_conflict item owner nodeGroup)
         else Inr (identities(identity item \<mapsto> nodeGroup),
                   services @ [item\<lparr>svc_Backends := map Some (sort_slice mergeLess
                     (map the (svc_Backends item) @ leased_backends peers nodeGroup digest item))\<rparr>])
     | None \<Rightarrow>
         Inr (identities(identity item \<mapsto> nodeGroup),
              services @ [item\<lparr>svc_Backends := map Some (sort_slice mergeLess
                (map the (svc_Backends item) @ leased_backends peers nodeGroup digest item))\<rparr>]))"

definition cluster_group ::
  "Peer list \<Rightarrow> (string \<times> Hello) list \<Rightarrow> string \<Rightarrow> (string \<rightharpoonup> string) \<times> api_Service list
     \<Rightarrow> error + (string \<rightharpoonup> string) \<times> api_Service list" where
  "cluster_group peers byNodeGroup nodeGroup st =
     (let hello = the (map_of byNodeGroup nodeGroup);
          services = sort_slice serviceLess (cloneServices (map the (hello_Services hello)))
      in fold_res (cluster_service peers nodeGroup (hello_ConfigDigest hello)) services st)"

definition BuildClusterSnapshot ::
  "string \<Rightarrow> 64 word \<Rightarrow> 64 word \<Rightarrow> string \<Rightarrow> Peer list \<Rightarrow> error + Snapshot" where
  "BuildClusterSnapshot cluster generation revision leader peers =
     (case first_err peer_nils peers of
        Some e \<Rightarrow> Inl e
      | None \<Rightarrow>
          let byNodeGroup = by_node_group peers;
              nodeGroups = sort_slice (<) (map fst byNodeGroup);
              hash = concat (map (\<lambda>nodeGroup.
                nodeGroup @ NUL @ hello_ConfigDigest (the (map_of byNodeGroup nodeGroup)) @ NUL) nodeGroups)
          in case fold_res (cluster_group peers byNodeGroup) nodeGroups (Map.empty, []) of
               Inl e \<Rightarrow> Inl e
             | Inr (_, services) \<Rightarrow>
                 Inr \<lparr>sn_Generation = generation, sn_Revision = revision, sn_LeaderId = leader,
                      sn_ConfigDigest = hex_EncodeToString (sha512 hash),
                      sn_Services = map Some (sort_slice serviceLess services)\<rparr>)"

definition own_service :: "api_Service option \<Rightarrow> (string \<rightharpoonup> string) \<Rightarrow> error + (string \<rightharpoonup> string)" where
  "own_service element identities =
     (case element of
        None \<Rightarrow> Inl (errors_New ''nil Service in snapshot'')
      | Some item \<Rightarrow>
          (case identities (identity item) of
             Some owner \<Rightarrow> Inl (owner_conflict item owner (svc_NodeGroup item))
           | None \<Rightarrow> Inr (identities(identity item \<mapsto> svc_NodeGroup item))))"

definition ValidateSnapshotOwnership :: "Snapshot option \<Rightarrow> error option" where
  "ValidateSnapshotOwnership snapshot =
     (case snapshot of
        None \<Rightarrow> Some (errors_New ''nil service snapshot'')
      | Some value \<Rightarrow>
          (case fold_res own_service (sn_Services value) Map.empty of
             Inl e \<Rightarrow> Some e
           | Inr _ \<Rightarrow> None))"

section \<open>Ownership\<close>

lemma ValidateSnapshotOwnership_iff:
  "ValidateSnapshotOwnership (Some sn) = None \<longleftrightarrow>
    (\<exists>ss. sn_Services sn = map Some ss \<and> distinct (map identity ss))"
proof -
  have "(\<exists>r. fold_res own_service xs Map.empty = Inr r) \<longleftrightarrow>
      (\<forall>x \<in> set xs. x \<noteq> None) \<and> distinct (map (identity \<circ> the) xs) \<and> (identity \<circ> the) ` set xs \<inter> dom (Map.empty :: string \<rightharpoonup> string) = {}" for xs
    by (rule fold_res_seen[where f = own_service and seen_of = dom and ok = "\<lambda>x. x \<noteq> None" and key = "identity \<circ> the"])
      (auto simp: own_service_def split: option.splits)
  then have "(\<exists>r. fold_res own_service xs Map.empty = Inr r) \<longleftrightarrow>
      (\<exists>ss. xs = map Some ss \<and> distinct (map identity ss))" for xs
    by (simp add: no_nil_ex)
  from this[of "sn_Services sn"] show ?thesis
    by (cases "fold_res own_service (sn_Services sn) Map.empty") (auto simp: ValidateSnapshotOwnership_def)
qed

section \<open>The merge of consistent peers\<close>

definition hellos :: "Peer list \<Rightarrow> Hello set" where
  "hellos peers = {h. \<exists>p \<in> set peers. peer_Hello p = Some h}"

lemma hellos_simps [simp]:
  "hellos [] = {}" "hellos (ps @ qs) = hellos ps \<union> hellos qs"
  "hellos [p] = (case peer_Hello p of None \<Rightarrow> {} | Some h \<Rightarrow> {h})"
  by (auto simp: hellos_def split: option.splits)

lemma by_node_group_facts:
  "distinct (map fst (by_node_group peers)) \<and>
   fst ` set (by_node_group peers) = hello_NodeGroup ` hellos peers \<and>
   (\<forall>g h. map_of (by_node_group peers) g = Some h \<longrightarrow> h \<in> hellos peers \<and> hello_NodeGroup h = g)"
proof (induction peers rule: rev_induct)
  case (snoc p ps)
  then show ?case
    by (cases "peer_Hello p")
      (auto simp: by_node_group_def distinct_update dom_update update_conv' split: if_splits)
qed (simp add: by_node_group_def)

definition merged :: "Peer list \<Rightarrow> string \<Rightarrow> string \<Rightarrow> api_Service \<Rightarrow> api_Service" where
  "merged peers g digest s = s\<lparr>svc_Backends :=
     map Some (sort_slice mergeLess (map the (svc_Backends s) @ leased_backends peers g digest s))\<rparr>"

lemma merged_simps [simp]:
  "svc_Namespace (merged ps g d s) = svc_Namespace s" "svc_Name (merged ps g d s) = svc_Name s"
  "svc_NodeGroup (merged ps g d s) = svc_NodeGroup s" "identity (merged ps g d s) = identity s"
  by (simp_all add: merged_def identity_def)

lemma cluster_services:
  assumes "\<forall>s \<in> set ss. ids (identity s) \<in> {None, Some g}"
  shows "fold_res (cluster_service peers g d) ss (ids, acc) =
    Inr (\<lambda>i. if i \<in> identity ` set ss then Some g else ids i, acc @ map (merged peers g d) ss)"
  using assms
proof (induction ss arbitrary: ids acc)
  case (Cons s ss)
  then have "cluster_service peers g d s (ids, acc) = Inr (ids(identity s \<mapsto> g), acc @ [merged peers g d s])"
    by (auto simp: cluster_service_def merged_def)
  with Cons show ?case by (auto simp: fun_eq_iff)
qed simp

definition group_services :: "(string \<times> Hello) list \<Rightarrow> string \<Rightarrow> api_Service list" where
  "group_services m g = sort_slice serviceLess (map the (hello_Services (the (map_of m g))))"

abbreviation group_digest :: "(string \<times> Hello) list \<Rightarrow> string \<Rightarrow> string" where
  "group_digest m g \<equiv> hello_ConfigDigest (the (map_of m g))"

lemma cluster_groups:
  assumes "distinct gs"
    and "\<forall>g \<in> set gs. \<forall>s \<in> set (group_services m g). ids (identity s) = None"
    and "\<forall>g \<in> set gs. \<forall>h \<in> set gs. g \<noteq> h \<longrightarrow>
      identity ` set (group_services m g) \<inter> identity ` set (group_services m h) = {}"
  shows "\<exists>ids'. fold_res (cluster_group peers m) gs (ids, acc) =
    Inr (ids', acc @ concat (map (\<lambda>g. map (merged peers g (group_digest m g)) (group_services m g)) gs))"
  using assms
proof (induction gs arbitrary: ids acc)
  case (Cons g gs)
  let ?ids = "\<lambda>i. if i \<in> identity ` set (group_services m g) then Some g else ids i"
  have "fold_res (cluster_service peers g (group_digest m g)) (group_services m g) (ids, acc) =
      Inr (?ids, acc @ map (merged peers g (group_digest m g)) (group_services m g))"
    using Cons.prems(2) by (intro cluster_services) auto
  then have step: "cluster_group peers m g (ids, acc) =
      Inr (?ids, acc @ map (merged peers g (group_digest m g)) (group_services m g))"
    by (simp add: cluster_group_def group_services_def cloneServices_def Let_def)
  have "\<forall>h \<in> set gs. \<forall>s \<in> set (group_services m h). ?ids (identity s) = None"
    using Cons.prems by fastforce
  from Cons.IH[OF _ this, of "acc @ map (merged peers g (group_digest m g)) (group_services m g)"]
    Cons.prems(1,3) step show ?case by auto
qed simp

definition consistent_peers :: "string \<Rightarrow> Peer list \<Rightarrow> bool" where
  "consistent_peers cluster peers \<longleftrightarrow>
     (\<forall>h \<in> hellos peers.
        ValidateContract cluster (hello_NodeGroup h) (hello_ConfigDigest h) (hello_Services h) = None) \<and>
     (\<forall>h \<in> hellos peers. \<forall>k \<in> hellos peers. hello_NodeGroup h = hello_NodeGroup k \<longrightarrow>
        hello_ConfigDigest h = hello_ConfigDigest k \<and> hello_Services h = hello_Services k) \<and>
     (\<forall>h \<in> hellos peers. \<forall>k \<in> hellos peers. hello_NodeGroup h \<noteq> hello_NodeGroup k \<longrightarrow>
        (identity \<circ> the) ` set (hello_Services h) \<inter> (identity \<circ> the) ` set (hello_Services k) = {}) \<and>
     (\<forall>p \<in> set peers. \<forall>st. peer_State p = Some st \<longrightarrow> list_all nil_free_endpoint (ns_Endpoints st))"

lemma consistent_contract:
  assumes "consistent_peers cluster peers" and "h \<in> hellos peers"
  obtains ss where "hello_Services h = map Some ss" "sorted_wrt (<) (map service_rank ss)"
    "list_all (valid_contract_service cluster (hello_NodeGroup h)) ss"
proof -
  from assms have "ValidateContract cluster (hello_NodeGroup h) (hello_ConfigDigest h) (hello_Services h) = None"
    unfolding consistent_peers_def by blast
  then show ?thesis unfolding ValidateContract_iff using that by blast
qed

lemma state_nils_None: "state_nils x = None \<longleftrightarrow> nil_free_endpoint x"
  by (simp add: nil_free_endpoint_def state_nils_def list_all_iff split: option.split)

lemma consistent_nils:
  assumes "consistent_peers cluster peers"
  shows "first_err peer_nils peers = None"
proof -
  have "peer_nils p = None" if p: "p \<in> set peers" for p
  proof -
    have "first_err (service_nils hello_messages) (hello_Services h) = None" if "peer_Hello p = Some h" for h
    proof -
      from that p have "h \<in> hellos peers" by (auto simp: hellos_def)
      from consistent_contract[OF assms this] obtain ss where "hello_Services h = map Some ss"
        "list_all (valid_contract_service cluster (hello_NodeGroup h)) ss" by blast
      then show ?thesis
        by (auto simp: service_nils_None list_all_iff intro: valid_contract_nil_free)
    qed
    moreover have "first_err state_nils (ns_Endpoints st) = None" if "peer_State p = Some st" for st
    proof -
      from assms p that have "list_all nil_free_endpoint (ns_Endpoints st)"
        unfolding consistent_peers_def by blast
      then show ?thesis by (simp add: list_all_iff state_nils_None)
    qed
    ultimately show ?thesis by (simp add: peer_nils_def split: option.split)
  qed
  then show ?thesis by simp
qed

text \<open>The Services a snapshot of the peers should have.\<close>

definition cluster_services_spec :: "Peer list \<Rightarrow> api_Service set" where
  "cluster_services_spec peers =
     (\<Union>h \<in> hellos peers. (\<lambda>s. s\<lparr>svc_Backends := map Some (sort_slice mergeLess
         (leased_backends peers (hello_NodeGroup h) (hello_ConfigDigest h) s))\<rparr>)
        ` {s. Some s \<in> set (hello_Services h)})"

lemma group_services_spec:
  assumes "consistent_peers cluster peers"
  shows "(\<Union>g \<in> hello_NodeGroup ` hellos peers.
      merged peers g (group_digest (by_node_group peers) g) ` set (group_services (by_node_group peers) g))
    = cluster_services_spec peers" (is "?lhs = _")
proof -
  let ?m = "by_node_group peers"
  have group: "set (group_services ?m (hello_NodeGroup h)) = the ` set (hello_Services h) \<and>
      group_digest ?m (hello_NodeGroup h) = hello_ConfigDigest h" if h: "h \<in> hellos peers" for h
  proof -
    from h by_node_group_facts[of peers] have "hello_NodeGroup h \<in> fst ` set ?m" by auto
    then obtain k where k: "map_of ?m (hello_NodeGroup h) = Some k"
      by (metis map_of_eq_None_iff not_None_eq)
    with by_node_group_facts[of peers] have "k \<in> hellos peers" "hello_NodeGroup k = hello_NodeGroup h" by auto
    with assms h have "hello_ConfigDigest k = hello_ConfigDigest h" "hello_Services k = hello_Services h"
      unfolding consistent_peers_def by blast+
    then show ?thesis by (simp add: group_services_def k)
  qed
  have nob: "merged peers g d s = s\<lparr>svc_Backends := map Some (sort_slice mergeLess (leased_backends peers g d s))\<rparr>"
    if "h \<in> hellos peers" "s \<in> the ` set (hello_Services h)" for h s g d
  proof -
    from consistent_contract[OF assms that(1)] obtain ss where "hello_Services h = map Some ss"
      "list_all (valid_contract_service cluster (hello_NodeGroup h)) ss" by blast
    with that(2) show ?thesis by (auto simp: merged_def list_all_iff valid_contract_service_def)
  qed
  have services: "s \<in> the ` set (hello_Services h) \<longleftrightarrow> Some s \<in> set (hello_Services h)"
    if "h \<in> hellos peers" for h s
  proof -
    from consistent_contract[OF assms that] obtain ss where "hello_Services h = map Some ss" by blast
    then show ?thesis by force
  qed
  have "?lhs = (\<Union>h \<in> hellos peers. merged peers (hello_NodeGroup h) (hello_ConfigDigest h) ` the ` set (hello_Services h))"
    using group by (auto simp: image_iff)
  also have "\<dots> = cluster_services_spec peers"
    unfolding cluster_services_spec_def
  proof (rule SUP_cong[OF refl])
    fix h assume h: "h \<in> hellos peers"
    then have "the ` set (hello_Services h) = {s. Some s \<in> set (hello_Services h)}"
      using services by blast
    with nob[OF h] show "merged peers (hello_NodeGroup h) (hello_ConfigDigest h) ` the ` set (hello_Services h) =
        (\<lambda>s. s\<lparr>svc_Backends := map Some (sort_slice mergeLess
         (leased_backends peers (hello_NodeGroup h) (hello_ConfigDigest h) s))\<rparr>) ` {s. Some s \<in> set (hello_Services h)}"
      by (intro image_cong) auto
  qed
  finally show ?thesis .
qed

lemma serviceLess_key:
  "sort_slice serviceLess ss = sort_key (\<lambda>s. (svc_Namespace s, svc_Name s, svc_NodeGroup s)) ss"
proof -
  let ?k = "\<lambda>s. (svc_Namespace s, svc_Name s, svc_NodeGroup s)"
  have "serviceLess = (\<lambda>a b. ?k a < ?k b)" by (auto simp: serviceLess_def fun_eq_iff)
  with sort_slice_key[of ?k ss] show ?thesis by simp
qed

lemma sort_services_ranks:
  assumes "distinct (map service_rank ss)"
  shows "sorted_wrt (<) (map service_rank (sort_slice serviceLess ss))"
proof -
  let ?k = "\<lambda>s. (svc_Namespace s, svc_Name s, svc_NodeGroup s)"
  have "sorted (map ?k (sort_slice serviceLess ss))" by (simp only: serviceLess_key sorted_sort_key)
  then have "sorted_wrt (\<lambda>s t. service_rank s \<le> service_rank t) (sort_slice serviceLess ss)"
    unfolding sorted_map by (rule sorted_wrt_mono_rel[rotated]) auto
  then have "sorted (map service_rank (sort_slice serviceLess ss))" by (simp only: sorted_map)
  with assms show ?thesis by (simp only: strict_sorted_iff distinct_map_sort_slice)
qed

lemma consistent_group:
  assumes "consistent_peers cluster peers" and "g \<in> hello_NodeGroup ` hellos peers"
  obtains h ss where "h \<in> hellos peers" "hello_NodeGroup h = g" "map_of (by_node_group peers) g = Some h"
    "hello_Services h = map Some ss" "sorted_wrt (<) (map service_rank ss)"
    "list_all (valid_contract_service cluster g) ss"
    "group_services (by_node_group peers) g = sort_slice serviceLess ss"
proof -
  from assms(2) by_node_group_facts[of peers] have "g \<in> fst ` set (by_node_group peers)" by auto
  then obtain h where h: "map_of (by_node_group peers) g = Some h"
    by (metis map_of_eq_None_iff not_None_eq)
  with by_node_group_facts[of peers] have h': "h \<in> hellos peers" "hello_NodeGroup h = g" by auto
  from consistent_contract[OF assms(1) h'(1)] obtain ss where
    "hello_Services h = map Some ss" "sorted_wrt (<) (map service_rank ss)"
    "list_all (valid_contract_service cluster (hello_NodeGroup h)) ss" by blast
  with that[OF h' h this(1,2)] h' h show ?thesis by (simp add: group_services_def)
qed

lemma consistent_disjoint:
  assumes "consistent_peers cluster peers" and "g \<in> hello_NodeGroup ` hellos peers"
    and "g' \<in> hello_NodeGroup ` hellos peers" and "g \<noteq> g'"
  shows "identity ` set (group_services (by_node_group peers) g) \<inter>
    identity ` set (group_services (by_node_group peers) g') = {}"
proof -
  from consistent_group[OF assms(1,2)] obtain h ss where h: "h \<in> hellos peers" "hello_NodeGroup h = g"
    "hello_Services h = map Some ss" "group_services (by_node_group peers) g = sort_slice serviceLess ss" by metis
  from consistent_group[OF assms(1,3)] obtain h' ss' where h': "h' \<in> hellos peers" "hello_NodeGroup h' = g'"
    "hello_Services h' = map Some ss'" "group_services (by_node_group peers) g' = sort_slice serviceLess ss'" by metis
  have "(identity \<circ> the) ` set (hello_Services h) \<inter> (identity \<circ> the) ` set (hello_Services h') = {}"
    using assms(1,4) h(1,2) h'(1,2) unfolding consistent_peers_def by blast
  then show ?thesis by (simp add: h h' image_image)
qed

lemma consistent_services_distinct:
  assumes "consistent_peers cluster peers" and "distinct gs" and "set gs \<subseteq> hello_NodeGroup ` hellos peers"
  shows "distinct (map identity (concat (map (group_services (by_node_group peers)) gs)))"
  using assms(2,3)
proof (induction gs)
  case (Cons g gs)
  then have g: "g \<in> hello_NodeGroup ` hellos peers" by simp
  from consistent_group[OF assms(1) g] obtain ss where "sorted_wrt (<) (map service_rank ss)"
    "list_all (valid_contract_service cluster g) ss"
    and ss: "group_services (by_node_group peers) g = sort_slice serviceLess ss" by metis
  then have "distinct (map identity ss)" by (intro valid_contract_distinct)
  then have "distinct (map identity (group_services (by_node_group peers) g))" by (simp only: ss distinct_map_sort_slice)
  moreover have "identity ` set (group_services (by_node_group peers) g) \<inter>
      identity ` set (concat (map (group_services (by_node_group peers)) gs)) = {}"
  proof -
    have "identity ` set (group_services (by_node_group peers) g) \<inter>
        identity ` set (group_services (by_node_group peers) g') = {}" if "g' \<in> set gs" for g'
      using that Cons.prems by (intro consistent_disjoint[OF assms(1) g]) auto
    then show ?thesis by (simp add: image_UN Int_UN_distrib)
  qed
  moreover have "distinct (map identity (concat (map (group_services (by_node_group peers)) gs)))"
    using Cons.prems by (intro Cons.IH) simp_all
  ultimately show ?case by simp
qed simp

lemma distinct_identity_rank: "distinct (map identity xs) \<Longrightarrow> distinct (map service_rank xs)"
proof -
  assume d: "distinct (map identity xs)"
  have "map identity xs = map (\<lambda>(a, b). a @ NUL @ b) (map service_rank xs)" by (simp add: identity_def)
  from d[unfolded this] show ?thesis by (rule distinct_map[THEN iffD1, THEN conjunct1])
qed

lemma BuildClusterSnapshot_ok:
  assumes "consistent_peers cluster peers"
  obtains ss where "BuildClusterSnapshot cluster generation revision leader peers =
      Inr \<lparr>sn_Generation = generation, sn_Revision = revision, sn_LeaderId = leader,
        sn_ConfigDigest = hex_EncodeToString (sha512 (concat (map (\<lambda>g.
          g @ NUL @ group_digest (by_node_group peers) g @ NUL)
          (sort_slice (<) (map fst (by_node_group peers)))))),
        sn_Services = map Some ss\<rparr>"
    and "distinct (map identity ss)" and "sorted_wrt (<) (map service_rank ss)"
    and "set ss = cluster_services_spec peers"
proof -
  let ?m = "by_node_group peers" and ?gs = "sort_slice (<) (map fst (by_node_group peers))"
  let ?merged = "\<lambda>g. map (merged peers g (group_digest ?m g)) (group_services ?m g)"
  let ?ss = "sort_slice serviceLess (concat (map ?merged ?gs))"
  have gs: "distinct ?gs" "set ?gs = hello_NodeGroup ` hellos peers"
    using by_node_group_facts[of peers] distinct_map_sort_slice[of "\<lambda>x. x" "(<)" "map fst ?m"] by simp_all
  have "\<exists>ids. fold_res (cluster_group peers ?m) ?gs (Map.empty, []) = Inr (ids, [] @ concat (map ?merged ?gs))"
    using gs consistent_disjoint[OF assms] by (intro cluster_groups) blast+
  then have "BuildClusterSnapshot cluster generation revision leader peers =
      Inr \<lparr>sn_Generation = generation, sn_Revision = revision, sn_LeaderId = leader,
        sn_ConfigDigest = hex_EncodeToString (sha512 (concat (map (\<lambda>g.
          g @ NUL @ group_digest ?m g @ NUL) ?gs))), sn_Services = map Some ?ss\<rparr>"
    by (auto simp: BuildClusterSnapshot_def consistent_nils[OF assms] Let_def)
  moreover have "map identity (concat (map ?merged ?gs)) = map identity (concat (map (group_services ?m) ?gs))"
    by (simp add: map_concat comp_def)
  then have id: "distinct (map identity (concat (map ?merged ?gs)))"
    using consistent_services_distinct[OF assms gs(1)] gs(2) by simp
  then have "distinct (map identity ?ss)" by (simp only: distinct_map_sort_slice)
  moreover have "distinct (map service_rank (concat (map ?merged ?gs)))"
    by (rule distinct_identity_rank[OF id])
  then have "sorted_wrt (<) (map service_rank ?ss)" by (rule sort_services_ranks)
  moreover have "set ?ss = cluster_services_spec peers"
    using group_services_spec[OF assms] gs(2) by simp
  ultimately show ?thesis by (rule that)
qed


definition example_hello :: Hello where
  "example_hello = \<lparr>hello_NodeId = ''n1'', hello_Cluster = ''prod'', hello_NodeGroup = ''apps'',
     hello_SessionId = ''s'', hello_ConfigDigest = digestDesired [example_service],
     hello_Services = map Some (desiredContract ''prod'' ''apps'' [example_service]),
     hello_Ipv6Prefix = ''2001:db8::/80''\<rparr>"

definition example_peers :: "Peer list" where
  "example_peers = [\<lparr>peer_Hello = Some example_hello,
     peer_State = Some (node_state ''apps'' [example_service] [(''u1'', example_pod)] ''s'' 1)\<rparr>]"

lemma example_peers_consistent: "consistent_peers ''prod'' example_peers"
  using own_contract_valid[OF example_valid(1,3), of "''prod''"]
  by (auto simp: consistent_peers_def example_peers_def hellos_def example_hello_def
      ns_Endpoints_node_state list_all_iff set_local_endpoints nil_free_endpoint_def endpoint_of_def)


section \<open>Independence of the order of the peers\<close>

lemma leased_perm:
  assumes "mset peers = mset peers'"
  shows "mset (leased_backends peers g d s) = mset (leased_backends peers' g d s)"
proof -
  have "mset (concat (map f xs)) = (\<Sum>x\<in>#mset xs. mset (f x))" for f :: "Peer \<Rightarrow> Endpoint list" and xs
    by (induction xs) auto
  with assms show ?thesis unfolding leased_backends_def by simp
qed

definition distinct_leases :: "Peer list \<Rightarrow> bool" where
  "distinct_leases peers \<longleftrightarrow> (\<forall>h s. h \<in> hellos peers \<and> Some s \<in> set (hello_Services h) \<longrightarrow>
     distinct (map (\<lambda>e. (ep_Address e, ep_PodUid e))
       (leased_backends peers (hello_NodeGroup h) (hello_ConfigDigest h) s)))"

lemma mergeLess_perm:
  assumes "mset es = mset es'" and "distinct (map (\<lambda>e. (ep_Address e, ep_PodUid e)) es)"
  shows "sort_slice mergeLess es = sort_slice mergeLess es'"
proof -
  let ?k = "\<lambda>e. (ep_Address e, ep_PodUid e)"
  have "mergeLess = (\<lambda>a b. ?k a < ?k b)" by (auto simp: mergeLess_def fun_eq_iff)
  then have "sort_slice mergeLess xs = sort_key ?k xs" for xs using sort_slice_key[of ?k xs] by simp
  moreover have "inj_on ?k (set es)" using assms(2) by (simp add: distinct_map)
  ultimately show ?thesis using sort_key_perm[OF assms(1)] by simp
qed

lemma spec_perm:
  assumes "mset peers = mset peers'" and "distinct_leases peers"
  shows "cluster_services_spec peers = cluster_services_spec peers'"
proof -
  have h: "hellos peers = hellos peers'"
    using arg_cong[OF assms(1), of set_mset] by (simp add: hellos_def)
  have "sort_slice mergeLess (leased_backends peers (hello_NodeGroup h) (hello_ConfigDigest h) s) =
      sort_slice mergeLess (leased_backends peers' (hello_NodeGroup h) (hello_ConfigDigest h) s)"
    if "h \<in> hellos peers" "Some s \<in> set (hello_Services h)" for h s
    using assms that by (intro mergeLess_perm leased_perm) (auto simp: distinct_leases_def)
  then show ?thesis unfolding cluster_services_spec_def h[symmetric] by (intro SUP_cong[OF refl] image_cong) auto
qed

lemma strict_sorted_unique:
  fixes f :: "'a \<Rightarrow> 'k::linorder"
  assumes "sorted_wrt (<) (map f xs)" and "sorted_wrt (<) (map f ys)" and "set xs = set ys"
  shows "xs = ys"
proof -
  from assms(1,2) have s: "sorted (map f xs)" "sorted (map f ys)" "distinct (map f xs)" "distinct (map f ys)"
    by (simp_all add: strict_sorted_iff)
  then have "mset xs = mset ys" "inj_on f (set xs)"
    using assms(3) by (auto simp: distinct_map set_eq_iff_mset_eq_distinct[symmetric])
  then have "sort_key f xs = sort_key f ys" by (rule sort_key_perm)
  with s show ?thesis by (simp add: sort_key_id_if_sorted)
qed

lemma groups_perm:
  assumes "consistent_peers cluster peers" and "mset peers = mset peers'"
  shows "sort_slice (<) (map fst (by_node_group peers)) = sort_slice (<) (map fst (by_node_group peers'))"
    and "g \<in> fst ` set (by_node_group peers) \<Longrightarrow>
      group_digest (by_node_group peers) g = group_digest (by_node_group peers') g"
proof -
  have h: "hellos peers = hellos peers'"
    using arg_cong[OF assms(2), of set_mset] by (simp add: hellos_def)
  note facts = by_node_group_facts[of peers] by_node_group_facts[of peers']
  have "mset (map fst (by_node_group peers)) = mset (map fst (by_node_group peers'))"
    using facts h by (subst set_eq_iff_mset_eq_distinct[symmetric]) simp_all
  moreover have "sort_slice (<) xs = sort xs" for xs :: "string list"
    using sort_slice_key[of "\<lambda>k. k" xs] by simp
  ultimately show "sort_slice (<) (map fst (by_node_group peers)) = sort_slice (<) (map fst (by_node_group peers'))"
    using sort_key_perm[of "map fst (by_node_group peers)" "map fst (by_node_group peers')" "\<lambda>k. k"] by simp
  assume "g \<in> fst ` set (by_node_group peers)"
  then obtain k k' where "map_of (by_node_group peers) g = Some k" "map_of (by_node_group peers') g = Some k'"
    using facts h by (metis map_of_eq_None_iff not_None_eq)
  moreover from this facts h have "k \<in> hellos peers" "k' \<in> hellos peers" "hello_NodeGroup k = hello_NodeGroup k'"
    by auto
  moreover from this assms(1) have "hello_ConfigDigest k = hello_ConfigDigest k'"
    unfolding consistent_peers_def by blast
  ultimately show "group_digest (by_node_group peers) g = group_digest (by_node_group peers') g" by simp
qed

lemma consistent_perm:
  assumes "consistent_peers cluster peers" and "mset peers = mset peers'"
  shows "consistent_peers cluster peers'"
proof -
  have "set peers = set peers'" using arg_cong[OF assms(2), of set_mset] by simp
  moreover from this have "hellos peers = hellos peers'" by (simp add: hellos_def)
  ultimately show ?thesis using assms(1) unfolding consistent_peers_def by (simp only:)
qed

text \<open>
  C17: the merged snapshot does not depend on the order in which the leader ranges over its
  nodes. For admitted peers whose leased endpoints are distinct by address and Pod for each
  Service, every order of the peers gives the same snapshot, digest included.
\<close>

theorem cluster_snapshot_order_independent:
  assumes "consistent_peers cluster peers" and "distinct_leases peers" and "mset peers = mset peers'"
  shows "BuildClusterSnapshot cluster generation revision leader peers =
    BuildClusterSnapshot cluster generation revision leader peers'"
proof -
  let ?hash = "\<lambda>ps. concat (map (\<lambda>g. g @ NUL @ group_digest (by_node_group ps) g @ NUL)
      (sort_slice (<) (map fst (by_node_group ps))))"
  have keys: "fst ` set (by_node_group peers) = fst ` set (by_node_group peers')"
    using arg_cong[OF groups_perm(1)[OF assms(1,3)], of set] by simp
  have hash: "?hash peers = ?hash peers'"
    using groups_perm[OF assms(1,3)] keys
    by (intro arg_cong[of _ _ concat] map_cong) simp_all
  obtain ss where ss: "BuildClusterSnapshot cluster generation revision leader peers =
      Inr \<lparr>sn_Generation = generation, sn_Revision = revision, sn_LeaderId = leader,
        sn_ConfigDigest = hex_EncodeToString (sha512 (?hash peers)), sn_Services = map Some ss\<rparr>"
    "sorted_wrt (<) (map service_rank ss)" "set ss = cluster_services_spec peers"
    by (rule BuildClusterSnapshot_ok[OF assms(1)])
  obtain ss' where ss': "BuildClusterSnapshot cluster generation revision leader peers' =
      Inr \<lparr>sn_Generation = generation, sn_Revision = revision, sn_LeaderId = leader,
        sn_ConfigDigest = hex_EncodeToString (sha512 (?hash peers')), sn_Services = map Some ss'\<rparr>"
    "sorted_wrt (<) (map service_rank ss')" "set ss' = cluster_services_spec peers'"
    by (rule BuildClusterSnapshot_ok[OF consistent_perm[OF assms(1,3)]])
  have "ss = ss'"
    using ss(2,3) ss'(2,3) spec_perm[OF assms(3,2)] by (intro strict_sorted_unique) auto
  with ss(1) ss'(1) hash show ?thesis by simp
qed

theorem cluster_snapshot_order_independent_witness:
  "let peers = example_peers @ [\<lparr>peer_Hello = Some (example_hello\<lparr>hello_NodeId := ''n2''\<rparr>), peer_State = None\<rparr>]
   in BuildClusterSnapshot ''prod'' 3 1 ''n1'' peers = BuildClusterSnapshot ''prod'' 3 1 ''n1'' (rev peers)"
proof -
  let ?peers = "example_peers @ [\<lparr>peer_Hello = Some (example_hello\<lparr>hello_NodeId := ''n2''\<rparr>), peer_State = None\<rparr>]"
  have c: "consistent_peers ''prod'' ?peers"
    using own_contract_valid[OF example_valid(1,3), of "''prod''"]
    by (auto simp: consistent_peers_def example_peers_def hellos_def example_hello_def
        ns_Endpoints_node_state list_all_iff set_local_endpoints nil_free_endpoint_def endpoint_of_def)
  have "selects example_service example_pod" by code_simp
  then have "distinct_leases ?peers"
    by (auto simp: distinct_leases_def leased_backends_def example_peers_def ns_Endpoints_node_state
        sortedDesired_key local_endpoints_def)
  from cluster_snapshot_order_independent[OF c this, of "rev ?peers" 3 1 "''n1''"] show ?thesis by simp
qed

end
