(* ===== verification/Service_Controller.thy ===== *)
theory Service_Controller
  imports Service_Merge
begin

text \<open>
  The stateful part of \<open>src/internal/agent/service/controller.go\<close>: the controller that holds
  the desired Services and the local Pods of a node, notifies its subscribers of changes, and
  applies a complete cluster snapshot to DNS and the dataplane.

  The dataplane is the interface \<open>Dataplane\<close>: its state is the type parameter \<open>'d\<close> of the
  controller and its \<open>Reconcile\<close> an argument of \<open>controller_Apply\<close>, which the reconciler of
  theory \<open>Dataplane\<close> provides. The locks make every operation atomic. A notification
  channel has capacity one: a subscriber is a channel and whether a notification is queued
  in it.
\<close>

section \<open>State\<close>

record 'd Controller =
  c_Cluster :: string
  c_NodeGroup :: string
  c_NodeIPv6 :: addr
  c_DNS :: Server
  c_Dataplane :: 'd
  c_services :: "manifest_Service list"
  c_pods :: pods_Snapshot
  c_subscribers :: "(nat \<times> bool) list"
  c_health :: bool

definition NewController :: "string \<Rightarrow> string \<Rightarrow> addr \<Rightarrow> Server \<Rightarrow> 'd \<Rightarrow> 'd Controller" where
  "NewController cluster nodeGroup nodeIPv6 dns plane =
     \<lparr>c_Cluster = cluster, c_NodeGroup = nodeGroup, c_NodeIPv6 = nodeIPv6, c_DNS = dns,
      c_Dataplane = plane, c_services = [], c_pods = [], c_subscribers = [], c_health = True\<rparr>"

definition Healthy :: "'d Controller \<Rightarrow> bool" where
  "Healthy c = c_health c"

section \<open>Desired state and notifications\<close>

text \<open>\<open>Subscribe\<close> registers the new channel \<open>changed\<close>; the callback it returns removes it.\<close>

definition controller_Subscribe :: "nat \<Rightarrow> 'd Controller \<Rightarrow> 'd Controller" where
  "controller_Subscribe changed c = c\<lparr>c_subscribers := AList.update changed False (c_subscribers c)\<rparr>"

definition controller_Unsubscribe :: "nat \<Rightarrow> 'd Controller \<Rightarrow> 'd Controller" where
  "controller_Unsubscribe changed c = c\<lparr>c_subscribers := AList.delete changed (c_subscribers c)\<rparr>"

definition notify :: "'d Controller \<Rightarrow> 'd Controller" where
  "notify c = c\<lparr>c_subscribers := map (\<lambda>(changed, queued). (changed, True)) (c_subscribers c)\<rparr>"

definition SetServices :: "manifest_Service list \<Rightarrow> 'd Controller \<Rightarrow> 'd Controller" where
  "SetServices value c =
     (let previousDigest = digestDesired (c_services c);
          c' = c\<lparr>c_services := cloneDesired value\<rparr>;
          changed = (previousDigest \<noteq> digestDesired (c_services c'));
          c'' = (if length value = 0 then c'\<lparr>c_pods := []\<rparr> else c')
      in if changed then notify c'' else c'')"

definition SetPods :: "pods_Snapshot \<Rightarrow> 'd Controller \<Rightarrow> 'd Controller" where
  "SetPods value c = notify (c\<lparr>c_pods := value\<rparr>)"

definition Digest :: "'d Controller \<Rightarrow> string" where
  "Digest c = digestDesired (c_services c)"

definition Contract :: "'d Controller \<Rightarrow> string \<times> api_Service list" where
  "Contract c =
     (let desired = cloneDesired (c_services c)
      in (digestDesired desired, desiredContract (c_Cluster c) (c_NodeGroup c) desired))"

definition controller_NodeState :: "string \<Rightarrow> 64 word \<Rightarrow> 'd Controller \<Rightarrow> NodeState" where
  "controller_NodeState session sequence c =
     node_state (c_NodeGroup c) (cloneDesired (c_services c)) (c_pods c) session sequence"

definition controller_ValidateNodeState :: "NodeState option \<Rightarrow> 'd Controller \<Rightarrow> error option" where
  "controller_ValidateNodeState state c =
     ValidateNodeState (c_NodeGroup c) (map Some (snd (Contract c))) state"

definition controller_BuildSnapshot ::
  "64 word \<Rightarrow> 64 word \<Rightarrow> string \<Rightarrow> NodeState list \<Rightarrow> 'd Controller \<Rightarrow> Snapshot" where
  "controller_BuildSnapshot generation revision leader nodes c =
     build_snapshot (c_Cluster c) (c_NodeGroup c) (cloneDesired (c_services c)) generation revision leader nodes"

section \<open>Applying a snapshot\<close>

definition snapshot_messages :: nil_messages where
  "snapshot_messages = \<lparr>nil_Service = ''nil Service in snapshot'',
     nil_port = ''nil target port in snapshot Service'', nil_backend = ''nil backend in snapshot Service'',
     nil_backend_port = ''nil target port in snapshot backend''\<rparr>"

text \<open>The loop that lays the snapshot over the local contract.\<close>

definition overlay_item ::
  "string \<Rightarrow> api_Service \<Rightarrow> (string \<times> api_Service) list \<times> api_Service list
     \<Rightarrow> (string \<times> api_Service) list \<times> api_Service list" where
  "overlay_item nodeGroup item = (\<lambda>(localIdentities, services).
     let wanted = map_of localIdentities (identity item)
     in if svc_NodeGroup item = nodeGroup \<and> wanted \<noteq> None
        then (if item\<lparr>svc_Backends := []\<rparr> = the wanted
              then (AList.delete (identity item) localIdentities, services @ [item])
              else (localIdentities, services))
        else if wanted = None \<and> svc_NodeGroup item \<noteq> nodeGroup
        then (localIdentities, services @ [item])
        else (localIdentities, services))"

definition local_identities :: "api_Service list \<Rightarrow> (string \<times> api_Service) list" where
  "local_identities local = fold (\<lambda>item m. AList.update (identity item) item m) local []"

definition effective_services :: "string \<Rightarrow> api_Service list \<Rightarrow> api_Service list \<Rightarrow> api_Service list" where
  "effective_services nodeGroup local services =
     (let (localIdentities, kept) = fold (overlay_item nodeGroup) services (local_identities local, [])
      in sort_slice serviceLess (kept @ map snd localIdentities))"

definition apply_target ::
  "TargetPort \<Rightarrow> addr \<Rightarrow> TargetPort option \<Rightarrow> bool \<times> Backend list \<Rightarrow> error + bool \<times> Backend list" where
  "apply_target port address target = (\<lambda>(matched, backends).
     let t = the target
     in if tp_Name t = tp_Name port \<and> tp_Protocol t = tp_Protocol port
           \<and> tp_ServicePort t = tp_ServicePort port
        then (if tp_TargetPort t = 0 \<or> tp_TargetPort t > 65535
              then Inl (errors_New ''invalid service backend port'')
              else Inr (True, backends @ [\<lparr>be_Address = address, be_Port = ucast (tp_TargetPort t)\<rparr>]))
        else Inr (matched, backends))"

definition apply_backend ::
  "TargetPort \<Rightarrow> Endpoint option \<Rightarrow> Backend list \<Rightarrow> error + Backend list" where
  "apply_backend port element backends =
     (let backend = the element
      in case ParseAddr (ep_Address backend) of
           None \<Rightarrow> Inl (errors_New ''invalid service backend'')
         | Some address \<Rightarrow>
             if \<not> Is6 address \<or> \<not> IsGlobalUnicast address \<or> ep_PodUid backend = []
             then Inl (errors_New ''invalid service backend'')
             else (case fold_res (apply_target port address) (ep_Ports backend) (False, backends) of
                     Inl e \<Rightarrow> Inl e
                   | Inr (matched, backends') \<Rightarrow>
                       if \<not> matched then Inl (errors_New ''service backend is missing a target port'')
                       else Inr backends'))"

definition apply_port ::
  "api_Service \<Rightarrow> TargetPort option \<Rightarrow> string set \<times> Port list \<Rightarrow> error + string set \<times> Port list" where
  "apply_port service element = (\<lambda>(seenPorts, ports).
     let port = the element;
         portKey = protocol_port (tp_Protocol port) (tp_ServicePort port)
     in if \<not> wire_port_ok port then Inl (errors_New ''invalid service port'')
        else if portKey \<in> seenPorts then Inl (errors_New ''duplicate service port'')
        else (case fold_res (apply_backend port) (svc_Backends service) [] of
                Inl e \<Rightarrow> Inl e
              | Inr backends \<Rightarrow>
                  Inr (insert portKey seenPorts,
                       ports @ [\<lparr>port_Protocol = (if tp_Protocol port = ''UDP'' then ProtocolUDP else ProtocolTCP),
                                 port_Port = ucast (tp_ServicePort port), port_Backends = backends\<rparr>])))"

text \<open>\<open>netip.Addr.AsSlice\<close> of an IPv6 address.\<close>

definition AsSlice :: "addr \<Rightarrow> net_IP" where
  "AsSlice a = be_bytes 16 (uint (As16 a))"

type_synonym apply_state = "string set \<times> (string \<rightharpoonup> net_IP list) \<times> dataplane_Service list"

definition apply_service :: "string \<Rightarrow> api_Service \<Rightarrow> apply_state \<Rightarrow> error + apply_state" where
  "apply_service cluster service = (\<lambda>(seenServices, dnsValues, services).
     case ParseAddr (svc_Vip service) of
       None \<Rightarrow> Inl (Errorf ''invalid service VIP %q'' [svc_Vip service])
     | Some vip \<Rightarrow>
         if \<not> ValidID (svc_NodeGroup service) \<or> \<not> ValidNamespace (svc_Namespace service)
            \<or> \<not> ValidID (svc_Name service) \<or> identity service \<in> seenServices
            \<or> svc_Fqdn service \<noteq> fqdn (svc_Name service) (svc_Namespace service) \<or> \<not> Is6 vip
            \<or> vip \<noteq> DeriveVIP cluster (svc_Namespace service) (svc_Name service)
         then Inl (Errorf ''invalid service VIP %q'' [svc_Vip service])
         else (case fold_res (apply_port service) (svc_Ports service) ({}, []) of
                 Inl e \<Rightarrow> Inl e
               | Inr (_, ports) \<Rightarrow>
                   Inr (insert (identity service) seenServices,
                        dnsValues(svc_Fqdn service \<mapsto> [AsSlice vip]),
                        services @ [\<lparr>VIP = vip, Ports = ports\<rparr>])))"

definition controller_Apply ::
  "(dataplane_Snapshot \<Rightarrow> 'd \<Rightarrow> error option \<times> 'd) \<Rightarrow> Snapshot option \<Rightarrow> 'd Controller
     \<Rightarrow> error option \<times> 'd Controller" where
  "controller_Apply reconcile snapshot c =
     (case snapshot of
        None \<Rightarrow> (Some (errors_New ''nil service snapshot''), c)
      | Some sn \<Rightarrow>
          (case first_err (service_nils snapshot_messages) (sn_Services sn) of
             Some e \<Rightarrow> (Some e, c)
           | None \<Rightarrow>
               let services = effective_services (c_NodeGroup c) (snd (Contract c)) (map the (sn_Services sn))
               in case fold_res (apply_service (c_Cluster c)) services ({}, Map.empty, []) of
                    Inl e \<Rightarrow> (Some e, c)
                  | Inr (_, dnsValues, model) \<Rightarrow>
                      (case reconcile \<lparr>NodeIPv6 = c_NodeIPv6 c, Services = model\<rparr> (c_Dataplane c) of
                         (Some e, d) \<Rightarrow> (Some e, c\<lparr>c_Dataplane := d, c_health := False\<rparr>)
                       | (None, d) \<Rightarrow>
                           (None, c\<lparr>c_Dataplane := d, c_DNS := Replace dnsValues (c_DNS c), c_health := True\<rparr>))))"

section \<open>When a snapshot can be applied\<close>

definition same_port :: "TargetPort \<Rightarrow> TargetPort \<Rightarrow> bool" where
  "same_port port t \<longleftrightarrow> tp_Name t = tp_Name port \<and> tp_Protocol t = tp_Protocol port \<and>
     tp_ServicePort t = tp_ServicePort port"

definition port_targets :: "TargetPort \<Rightarrow> Endpoint \<Rightarrow> TargetPort list" where
  "port_targets port b = filter (same_port port) (map the (ep_Ports b))"

definition endpoint_backends :: "TargetPort \<Rightarrow> Endpoint \<Rightarrow> Backend list" where
  "endpoint_backends port b =
     map (\<lambda>t. \<lparr>be_Address = the (ParseAddr (ep_Address b)), be_Port = ucast (tp_TargetPort t)\<rparr>) (port_targets port b)"

definition target_in_range :: "TargetPort \<Rightarrow> bool" where
  "target_in_range t \<longleftrightarrow> tp_TargetPort t \<noteq> 0 \<and> tp_TargetPort t \<le> 65535"

definition applicable_backend :: "TargetPort \<Rightarrow> Endpoint \<Rightarrow> bool" where
  "applicable_backend port b \<longleftrightarrow>
     (case ParseAddr (ep_Address b) of None \<Rightarrow> False | Some a \<Rightarrow> Is6 a \<and> IsGlobalUnicast a) \<and>
     ep_PodUid b \<noteq> [] \<and> port_targets port b \<noteq> [] \<and> list_all target_in_range (port_targets port b)"

definition model_port :: "api_Service \<Rightarrow> TargetPort \<Rightarrow> Port" where
  "model_port s port =
     \<lparr>port_Protocol = (if tp_Protocol port = ''UDP'' then ProtocolUDP else ProtocolTCP),
      port_Port = ucast (tp_ServicePort port),
      port_Backends = concat (map (endpoint_backends port) (map the (svc_Backends s)))\<rparr>"

definition service_vip :: "string \<Rightarrow> api_Service \<Rightarrow> addr" where
  "service_vip cluster s = DeriveVIP cluster (svc_Namespace s) (svc_Name s)"

definition model_service :: "string \<Rightarrow> api_Service \<Rightarrow> dataplane_Service" where
  "model_service cluster s =
     \<lparr>VIP = service_vip cluster s, Ports = map (model_port s) (map the (svc_Ports s))\<rparr>"

definition applicable_service :: "string \<Rightarrow> api_Service \<Rightarrow> bool" where
  "applicable_service cluster s \<longleftrightarrow>
     ValidID (svc_NodeGroup s) \<and> ValidNamespace (svc_Namespace s) \<and> ValidID (svc_Name s) \<and>
     svc_Fqdn s = fqdn (svc_Name s) (svc_Namespace s) \<and>
     ParseAddr (svc_Vip s) = Some (service_vip cluster s) \<and>
     valid_wire_ports (map the (svc_Ports s)) \<and>
     list_all (\<lambda>p. list_all (applicable_backend p) (map the (svc_Backends s))) (map the (svc_Ports s))"

definition service_records :: "string \<Rightarrow> api_Service list \<Rightarrow> string \<rightharpoonup> net_IP list" where
  "service_records cluster ss = fold (\<lambda>s m. m(svc_Fqdn s \<mapsto> [AsSlice (service_vip cluster s)])) ss Map.empty"

lemma apply_targets:
  "fold_res (apply_target port a) ts (m, bs) = Inr r \<longleftrightarrow>
    list_all target_in_range (filter (same_port port) (map the ts)) \<and>
    r = (m \<or> filter (same_port port) (map the ts) \<noteq> [],
         bs @ map (\<lambda>t. \<lparr>be_Address = a, be_Port = ucast (tp_TargetPort t)\<rparr>) (filter (same_port port) (map the ts)))"
proof (induction ts arbitrary: m bs)
  case (Cons t ts)
  then show ?case
    by (auto simp: apply_target_def[of port a t] same_port_def target_in_range_def Let_def)
qed auto

lemma apply_backend_iff:
  "apply_backend port x bs = Inr r \<longleftrightarrow>
    applicable_backend port (the x) \<and> r = bs @ endpoint_backends port (the x)"
proof (cases "ParseAddr (ep_Address (the x))")
  case (Some a)
  note iff = apply_targets[of port a "ep_Ports (the x)" False bs]
  show ?thesis
  proof (cases "fold_res (apply_target port a) (ep_Ports (the x)) (False, bs)")
    case (Inl e)
    then have "\<nexists>r. fold_res (apply_target port a) (ep_Ports (the x)) (False, bs) = Inr r" by simp
    then have "\<not> list_all target_in_range (port_targets port (the x))"
      unfolding iff by (simp add: port_targets_def)
    with Some Inl show ?thesis
      by (auto simp: apply_backend_def Let_def applicable_backend_def)
  next
    case (Inr p)
    with iff[of p] Some show ?thesis
      by (auto simp: apply_backend_def Let_def applicable_backend_def endpoint_backends_def port_targets_def)
  qed
qed (simp add: apply_backend_def Let_def applicable_backend_def)

lemma apply_port_iff:
  "apply_port s x (seen, ports) = Inr r \<longleftrightarrow>
    (wire_port_ok (the x) \<and> list_all (applicable_backend (the x)) (map the (svc_Backends s))) \<and>
    protocol_port (tp_Protocol (the x)) (tp_ServicePort (the x)) \<notin> seen \<and>
    r = (insert (protocol_port (tp_Protocol (the x)) (tp_ServicePort (the x))) seen,
         ports @ [model_port s (the x)])"
proof -
  have "fold_res (apply_backend (the x)) (svc_Backends s) [] = Inr b \<longleftrightarrow>
      (\<forall>y \<in> set (svc_Backends s). applicable_backend (the x) (the y)) \<and>
      b = [] @ concat (map (\<lambda>y. endpoint_backends (the x) (the y)) (svc_Backends s))" for b
    by (rule fold_res_appends) (rule apply_backend_iff)
  then show ?thesis
    by (cases "fold_res (apply_backend (the x)) (svc_Backends s) []")
      (auto simp: apply_port_def Let_def model_port_def list_all_iff comp_def)
qed

lemma Is6_DeriveVIP [simp]: "Is6 (DeriveVIP c ns n)"
  by (simp add: DeriveVIP_def AddrFrom16_def Is6_def Let_def)

lemma apply_service_iff:
  "apply_service cluster s (seen, a) = Inr r \<longleftrightarrow>
    applicable_service cluster s \<and> identity s \<notin> seen \<and>
    r = (insert (identity s) seen, (fst a)(svc_Fqdn s \<mapsto> [AsSlice (service_vip cluster s)]),
         snd a @ [model_service cluster s])"
proof -
  let ?key = "\<lambda>x. protocol_port (tp_Protocol (the x)) (tp_ServicePort (the x))"
  have ports: "fold_res (apply_port s) (svc_Ports s) ({}, []) = Inr b \<longleftrightarrow>
      (\<forall>x \<in> set (svc_Ports s). wire_port_ok (the x) \<and> list_all (applicable_backend (the x)) (map the (svc_Backends s))) \<and>
      distinct (map ?key (svc_Ports s)) \<and> ?key ` set (svc_Ports s) \<inter> {} = {} \<and>
      b = (?key ` set (svc_Ports s) \<union> {}, fold (\<lambda>x ps. ps @ [model_port s (the x)]) (svc_Ports s) [])" for b
    by (rule fold_res_keyed) (rule apply_port_iff)
  have appended: "fold (\<lambda>x ps. ps @ [f x]) xs acc = acc @ map f xs" for f :: "TargetPort option \<Rightarrow> Port" and xs acc
    by (induction xs arbitrary: acc) auto
  have keys: "list_all wire_port_ok (map the xs) \<Longrightarrow> distinct (map ?key xs) \<longleftrightarrow>
      distinct (map (\<lambda>p. (tp_Protocol p, tp_ServicePort p)) (map the xs))" for xs
    using protocol_port_inj wire_port_protocol
    by (subst map_map, intro distinct_map_cong_iff) (simp add: list_all_iff)
  have ok: "(\<exists>b. fold_res (apply_port s) (svc_Ports s) ({}, []) = Inr b) \<longleftrightarrow>
      valid_wire_ports (map the (svc_Ports s)) \<and>
      list_all (\<lambda>p. list_all (applicable_backend p) (map the (svc_Backends s))) (map the (svc_Ports s))"
    unfolding ports using keys[of "svc_Ports s"] by (auto simp: valid_wire_ports_def list_all_iff)
  show ?thesis
  proof (cases "fold_res (apply_port s) (svc_Ports s) ({}, [])")
    case (Inl e)
    with ok show ?thesis
      by (cases a) (auto simp: apply_service_def applicable_service_def service_vip_def split: option.splits)
  next
    case (Inr b)
    with ports[of b] ok show ?thesis
      by (cases a) (auto simp: apply_service_def applicable_service_def service_vip_def model_service_def
          appended comp_def split: option.splits)
  qed
qed

lemma apply_services_iff:
  "fold_res (apply_service cluster) ss ({}, Map.empty, []) = Inr r \<longleftrightarrow>
    list_all (applicable_service cluster) ss \<and> distinct (map identity ss) \<and>
    r = (identity ` set ss, service_records cluster ss, map (model_service cluster) ss)"
proof -
  let ?h = "\<lambda>s a. ((fst a)(svc_Fqdn s \<mapsto> [AsSlice (service_vip cluster s)]), snd a @ [model_service cluster s])"
  have "fold ?h xs (m, acc) = (fold (\<lambda>s m. m(svc_Fqdn s \<mapsto> [AsSlice (service_vip cluster s)])) xs m,
      acc @ map (model_service cluster) xs)" for xs m acc
    by (induction xs arbitrary: m acc) auto
  moreover have "fold_res (apply_service cluster) ss ({}, Map.empty, []) = Inr r \<longleftrightarrow>
      (\<forall>s \<in> set ss. applicable_service cluster s) \<and> distinct (map identity ss) \<and>
      identity ` set ss \<inter> {} = {} \<and> r = (identity ` set ss \<union> {}, fold ?h ss (Map.empty, []))"
    by (rule fold_res_keyed) (rule apply_service_iff)
  ultimately show ?thesis by (simp add: list_all_iff service_records_def)
qed

section \<open>What applying a snapshot does\<close>

definition snapshot_view :: "'d Controller \<Rightarrow> Snapshot \<Rightarrow> api_Service list" where
  "snapshot_view c sn = effective_services (c_NodeGroup c) (snd (Contract c)) (map the (sn_Services sn))"

definition dataplane_view :: "'d Controller \<Rightarrow> Snapshot \<Rightarrow> dataplane_Snapshot" where
  "dataplane_view c sn =
     \<lparr>NodeIPv6 = c_NodeIPv6 c, Services = map (model_service (c_Cluster c)) (snapshot_view c sn)\<rparr>"

definition can_apply :: "'d Controller \<Rightarrow> Snapshot \<Rightarrow> bool" where
  "can_apply c sn \<longleftrightarrow>
     list_all (\<lambda>x. x \<noteq> None \<and> nil_free_service (the x)) (sn_Services sn) \<and>
     list_all (applicable_service (c_Cluster c)) (snapshot_view c sn) \<and>
     distinct (map identity (snapshot_view c sn))"

lemma Apply_ok:
  assumes "can_apply c sn"
  shows "controller_Apply reconcile (Some sn) c =
    (case reconcile (dataplane_view c sn) (c_Dataplane c) of
       (Some e, d) \<Rightarrow> (Some e, c\<lparr>c_Dataplane := d, c_health := False\<rparr>)
     | (None, d) \<Rightarrow>
         (None, c\<lparr>c_Dataplane := d, c_health := True,
            c_DNS := Replace (service_records (c_Cluster c) (snapshot_view c sn)) (c_DNS c)\<rparr>))"
proof -
  have "first_err (service_nils snapshot_messages) (sn_Services sn) = None"
    using assms by (auto simp: service_nils_None list_all_iff can_apply_def)
  moreover have "fold_res (apply_service (c_Cluster c)) (snapshot_view c sn) ({}, Map.empty, []) =
      Inr (identity ` set (snapshot_view c sn), service_records (c_Cluster c) (snapshot_view c sn),
        map (model_service (c_Cluster c)) (snapshot_view c sn))"
    using assms unfolding apply_services_iff by (simp add: can_apply_def)
  ultimately show ?thesis
    by (simp add: controller_Apply_def snapshot_view_def[symmetric] dataplane_view_def
        del: first_err_None split: prod.split option.split)
qed

lemma Apply_fails:
  assumes "\<not> can_apply c sn"
  shows "\<exists>e. controller_Apply reconcile (Some sn) c = (Some e, c)"
proof (cases "first_err (service_nils snapshot_messages) (sn_Services sn)")
  case None
  then have nils: "list_all (\<lambda>x. x \<noteq> None \<and> nil_free_service (the x)) (sn_Services sn)"
    by (auto simp: service_nils_None list_all_iff)
  have "\<nexists>r. fold_res (apply_service (c_Cluster c)) (snapshot_view c sn) ({}, Map.empty, []) = Inr r"
    using assms nils unfolding apply_services_iff by (simp add: can_apply_def)
  then obtain e where "fold_res (apply_service (c_Cluster c)) (snapshot_view c sn) ({}, Map.empty, []) = Inl e"
    by (metis sum.exhaust)
  with None show ?thesis
    by (simp add: controller_Apply_def snapshot_view_def[symmetric] del: first_err_None)
qed (simp add: controller_Apply_def)

text \<open>The client side of the dataplane interface.\<close>

context dataplane_contract
begin

lemma apply_atomic:
  assumes "controller_Apply reconcile (Some sn) c = (err, c')"
  shows "case err of
      Some e \<Rightarrow> c_DNS c' = c_DNS c \<and> active (c_Dataplane c') = active (c_Dataplane c)
    | None \<Rightarrow> can_apply c sn \<and> c_health c' \<and>
        endpoints (c_DNS c') = service_records (c_Cluster c) (snapshot_view c sn) \<and>
        Compile (dataplane_view c sn) = Inr (active (c_Dataplane c'))"
proof -
  have copy: "endpoints (Replace records d) = records" for records d
    by (simp add: Replace_def map_option.id[unfolded id_def])
  show ?thesis
  proof (cases "can_apply c sn")
    case True
    obtain e d where r: "reconcile (dataplane_view c sn) (c_Dataplane c) = (e, d)" by fastforce
    from assms[unfolded Apply_ok[OF True]] True r
      reconcile_ok[of "dataplane_view c sn" "c_Dataplane c" d]
      reconcile_err[of "dataplane_view c sn" "c_Dataplane c" _ d]
    show ?thesis by (cases e) (auto simp: copy)
  next
    case False
    from Apply_fails[OF this, of reconcile] assms show ?thesis by auto
  qed
qed

end

text \<open>
  C15: applying a snapshot is all or nothing. On any error, of validation or of the dataplane,
  the DNS records and the active dataplane tables stay as they were. On success the snapshot
  was valid after the local contract was laid over it, the node is healthy, DNS has exactly
  the records of the resulting Services and the active tables are their compilation.
\<close>

theorem controller_apply_atomic:
  assumes "controller_Apply (dataplane_Reconcile ops ctx) (Some sn) c = (err, c')"
  shows "case err of
      Some e \<Rightarrow> c_DNS c' = c_DNS c \<and> tables (c_Dataplane c') = tables (c_Dataplane c)
    | None \<Rightarrow> can_apply c sn \<and> Healthy c' \<and>
        endpoints (c_DNS c') = service_records (c_Cluster c) (snapshot_view c sn) \<and>
        Compile (dataplane_view c sn) = Inr (tables (c_Dataplane c'))"
  using reconciler.apply_atomic[OF assms] by (simp add: Healthy_def split: option.splits)

theorem controller_apply_atomic_witness:
  "\<exists>c'. controller_Apply (dataplane_Reconcile example_ops None) (Some SnapshotZero)
      (NewController ''prod'' ''apps'' AddrZero NewServer (dataplane_New example_prefix)) = (None, c') \<and>
    endpoints (c_DNS c') = Map.empty \<and> tables (c_Dataplane c') = \<lparr>t_NodeIPv6 = 0, t_Services = Some [], t_Backends = []\<rparr>"
proof -
  let ?c = "NewController ''prod'' ''apps'' AddrZero NewServer (dataplane_New example_prefix :: nat dataplane_Reconciler)"
  have view: "snapshot_view ?c SnapshotZero = []"
    by (simp add: snapshot_view_def effective_services_def NewController_def Contract_def SnapshotZero_def
        desiredContract_def sortedDesired_key local_identities_def)
  then have can: "can_apply ?c SnapshotZero" by (simp add: can_apply_def) (simp add: SnapshotZero_def)
  obtain err c' where run: "controller_Apply (dataplane_Reconcile example_ops None) (Some SnapshotZero) ?c = (err, c')"
    by fastforce
  have plane: "dataplane_view ?c SnapshotZero = \<lparr>NodeIPv6 = AddrZero, Services = []\<rparr>"
    "c_Dataplane ?c = dataplane_New example_prefix"
    by (simp_all add: dataplane_view_def view) (simp_all add: NewController_def)
  have "err = None"
    using run unfolding Apply_ok[OF can] plane
    by (simp add: dataplane_Reconcile_def Compile_def dataplane_New_def TablesZero_def Let_def)
  with controller_apply_atomic[OF run] run view show ?thesis
    by (auto simp: service_records_def dataplane_view_def Compile_def)
qed

section \<open>The local contract takes precedence\<close>

lemma local_identities_facts:
  assumes "distinct (map identity ls)"
  shows "distinct (map fst (local_identities ls)) \<and>
    (\<forall>k w. map_of (local_identities ls) k = Some w \<longleftrightarrow> w \<in> set ls \<and> identity w = k)"
  using assms
proof (induction ls rule: rev_induct)
  case (snoc l ls)
  then show ?case
    by (auto simp: local_identities_def distinct_update update_conv' image_iff split: if_splits)
qed (simp add: local_identities_def)

text \<open>The Service that represents a local one: the entry of the snapshot if it has the same contract.\<close>

definition own_entry :: "string \<Rightarrow> api_Service list \<Rightarrow> api_Service \<Rightarrow> api_Service" where
  "own_entry g ss w =
     (case filter (\<lambda>s. svc_NodeGroup s = g \<and> identity s = identity w \<and> s\<lparr>svc_Backends := []\<rparr> = w) ss of
        [] \<Rightarrow> w
      | s # _ \<Rightarrow> s)"

definition foreign :: "string \<Rightarrow> api_Service list \<Rightarrow> api_Service \<Rightarrow> bool" where
  "foreign g ls s \<longleftrightarrow> svc_NodeGroup s \<noteq> g \<and> identity s \<notin> identity ` set ls"

definition keep :: "string \<Rightarrow> (string \<rightharpoonup> api_Service) \<Rightarrow> api_Service \<Rightarrow> bool" where
  "keep g m s = (case m (identity s) of
     None \<Rightarrow> svc_NodeGroup s \<noteq> g
   | Some w \<Rightarrow> svc_NodeGroup s = g \<and> s\<lparr>svc_Backends := []\<rparr> = w)"

lemma overlay_items:
  assumes "distinct (map identity ss)" and "distinct (map fst L)"
  shows "fold (overlay_item g) ss (L, K) =
    (filter (\<lambda>(k, w). \<not> (\<exists>s \<in> set ss. identity s = k \<and> keep g (map_of L) s)) L, K @ filter (keep g (map_of L)) ss)"
  using assms
proof (induction ss arbitrary: L K)
  case (Cons s ss)
  let ?L = "if keep g (map_of L) s \<and> map_of L (identity s) \<noteq> None then AList.delete (identity s) L else L"
  have step: "overlay_item g s (L, K) = (?L, K @ filter (keep g (map_of L)) [s])"
    by (auto simp: overlay_item_def keep_def Let_def split: option.split)
  have d: "distinct (map fst ?L)" using Cons.prems(2) by (simp add: distinct_delete)
  have same: "map_of ?L (identity t) = map_of L (identity t)" if "t \<in> set ss" for t
    using that Cons.prems(1) by (auto simp: delete_conv' image_iff)
  then have keep: "keep g (map_of ?L) t = keep g (map_of L) t" if "t \<in> set ss" for t
    using that by (simp add: keep_def)
  have "filter (\<lambda>(k, w). \<not> (\<exists>t \<in> set ss. identity t = k \<and> keep g (map_of ?L) t)) ?L =
      filter (\<lambda>(k, w). \<not> (\<exists>t \<in> set (s # ss). identity t = k \<and> keep g (map_of L) t)) L"
    using keep by (auto simp: AList.delete_eq filter_filter map_of_eq_None_iff image_iff intro!: filter_cong)
  moreover have "filter (keep g (map_of ?L)) ss = filter (keep g (map_of L)) ss"
    using keep by (rule filter_cong[OF refl])
  ultimately show ?case using Cons.IH[OF _ d] Cons.prems(1) step by simp
qed simp

lemma effective_raw:
  assumes "distinct (map identity ls)" and "distinct (map identity ss)"
  defines "m \<equiv> map_of (local_identities ls)"
  shows "\<exists>rest. effective_services g ls ss = sort_slice serviceLess (filter (keep g m) ss @ rest) \<and>
    set rest = {w \<in> set ls. \<not> (\<exists>s \<in> set ss. identity s = identity w \<and> keep g m s)} \<and>
    distinct (map identity rest)"
proof -
  let ?L = "local_identities ls"
  let ?rest = "filter (\<lambda>(k, w). \<not> (\<exists>s \<in> set ss. identity s = k \<and> keep g m s)) ?L"
  from local_identities_facts[OF assms(1)] have d: "distinct (map fst ?L)"
    and m: "(k, w) \<in> set ?L \<longleftrightarrow> w \<in> set ls \<and> identity w = k" for k w
    by (auto simp flip: map_of_eq_Some_iff)
  have "effective_services g ls ss = sort_slice serviceLess (filter (keep g m) ss @ map snd ?rest)"
    using overlay_items[OF assms(2) d, of g "[]"] by (simp add: effective_services_def m_def)
  moreover have "set (map snd ?rest) = {w \<in> set ls. \<not> (\<exists>s \<in> set ss. identity s = identity w \<and> keep g m s)}"
    by (auto simp: m image_iff)
  moreover have "map identity (map snd ?rest) = map fst ?rest"
    using m by (auto intro!: map_cong)
  then have "distinct (map identity (map snd ?rest))" using d by (simp only: distinct_map_filter)
  ultimately show ?thesis by blast
qed

lemma keep_own:
  assumes "distinct (map identity ls)" and "w \<in> set ls" and "identity s = identity w"
  shows "keep g (map_of (local_identities ls)) s \<longleftrightarrow> svc_NodeGroup s = g \<and> s\<lparr>svc_Backends := []\<rparr> = w"
proof -
  have "map_of (local_identities ls) (identity s) = Some w"
    using local_identities_facts[OF assms(1)] assms(2,3) by auto
  then show ?thesis by (simp add: keep_def)
qed

lemma keep_foreign:
  assumes "distinct (map identity ls)" and "identity s \<notin> identity ` set ls"
  shows "keep g (map_of (local_identities ls)) s \<longleftrightarrow> svc_NodeGroup s \<noteq> g"
proof -
  have "map_of (local_identities ls) (identity s) = None"
    using local_identities_facts[OF assms(1)] assms(2) by (metis imageI not_None_eq)
  then show ?thesis by (simp add: keep_def)
qed

lemma own_entry_unique:
  assumes "distinct (map identity ss)" and "s \<in> set ss" and "identity s = identity w"
  shows "own_entry g ss w = (if svc_NodeGroup s = g \<and> s\<lparr>svc_Backends := []\<rparr> = w then s else w)"
proof -
  have "filter (\<lambda>t. identity t = identity s) ss = [s]"
    using assms(1,2) by (induction ss) (auto simp: image_iff filter_empty_conv)
  moreover have "filter (\<lambda>t. svc_NodeGroup t = g \<and> identity t = identity w \<and> t\<lparr>svc_Backends := []\<rparr> = w) ss =
      filter (\<lambda>t. svc_NodeGroup t = g \<and> t\<lparr>svc_Backends := []\<rparr> = w) (filter (\<lambda>t. identity t = identity s) ss)"
    unfolding filter_filter assms(3) by (rule filter_cong) auto
  ultimately show ?thesis by (simp add: own_entry_def)
qed

lemma own_entry_kept:
  assumes "distinct (map identity ls)" and "distinct (map identity ss)" and "w \<in> set ls"
    and "s \<in> set ss" and "identity s = identity w" and "keep g (map_of (local_identities ls)) s"
  shows "own_entry g ss w = s"
  using own_entry_unique[OF assms(2,4,5), of g] keep_own[OF assms(1,3,5), of g] assms(6) by simp

lemma own_entry_not_kept:
  assumes "distinct (map identity ls)" and "distinct (map identity ss)" and "w \<in> set ls"
    and "\<not> (\<exists>s \<in> set ss. identity s = identity w \<and> keep g (map_of (local_identities ls)) s)"
  shows "own_entry g ss w = w"
proof (cases "\<exists>s \<in> set ss. identity s = identity w")
  case True
  then obtain s where s: "s \<in> set ss" "identity s = identity w" by blast
  then show ?thesis
    using own_entry_unique[OF assms(2) s, of g] keep_own[OF assms(1,3) s(2), of g] assms(4) by auto
next
  case False
  then have "filter (\<lambda>s. svc_NodeGroup s = g \<and> identity s = identity w \<and> s\<lparr>svc_Backends := []\<rparr> = w) ss = []"
    by (auto simp: filter_empty_conv)
  then show ?thesis by (simp add: own_entry_def)
qed

lemma effective_set:
  assumes "distinct (map identity ls)" and "distinct (map identity ss)"
  shows "set (effective_services g ls ss) = {s \<in> set ss. foreign g ls s} \<union> own_entry g ss ` set ls"
proof -
  let ?keep = "keep g (map_of (local_identities ls))"
  obtain rest where E: "set (effective_services g ls ss) = {s \<in> set ss. ?keep s} \<union> set rest"
    and rest: "set rest = {w \<in> set ls. \<not> (\<exists>s \<in> set ss. identity s = identity w \<and> ?keep s)}"
    using effective_raw[OF assms, of g] by auto
  have kept: "{s \<in> set ss. ?keep s} = {s \<in> set ss. foreign g ls s} \<union>
      own_entry g ss ` {w \<in> set ls. \<exists>s \<in> set ss. identity s = identity w \<and> ?keep s}"
    using own_entry_kept[OF assms] keep_foreign[OF assms(1), of _ g]
    by (fastforce simp: foreign_def image_iff)
  have "own_entry g ss ` set rest = (\<lambda>w. w) ` set rest"
    unfolding rest using own_entry_not_kept[OF assms] by (intro image_cong refl) blast
  then have own: "set rest = own_entry g ss ` {w \<in> set ls. \<not> (\<exists>s \<in> set ss. identity s = identity w \<and> ?keep s)}"
    unfolding rest by simp
  have split: "f ` L = f ` {w \<in> L. P w} \<union> f ` {w \<in> L. \<not> P w}"
    for f :: "api_Service \<Rightarrow> api_Service" and L P by blast
  show ?thesis
    unfolding E kept own split[of "own_entry g ss" "set ls" "\<lambda>w. \<exists>s \<in> set ss. identity s = identity w \<and> ?keep s"]
    by (simp only: Un_assoc)
qed

lemma own_entry_identity:
  assumes "distinct (map identity ls)" and "distinct (map identity ss)" and "w \<in> set ls"
  shows "identity (own_entry g ss w) = identity w"
  using own_entry_kept[OF assms] own_entry_not_kept[OF assms] by metis

lemma effective_distinct:
  assumes "distinct (map identity ls)" and "distinct (map identity ss)"
  shows "distinct (map identity (effective_services g ls ss))"
proof -
  let ?keep = "keep g (map_of (local_identities ls))"
  obtain rest where E: "effective_services g ls ss = sort_slice serviceLess (filter ?keep ss @ rest)"
    and rest: "set rest = {w \<in> set ls. \<not> (\<exists>s \<in> set ss. identity s = identity w \<and> ?keep s)}"
      "distinct (map identity rest)"
    using effective_raw[OF assms, of g] by blast
  have "distinct (map identity (filter ?keep ss))" using assms(2) by (simp add: distinct_map_filter)
  moreover have "identity ` set (filter ?keep ss) \<inter> identity ` set rest = {}" unfolding rest by auto
  ultimately show ?thesis using rest(2) unfolding E distinct_map_sort_slice by simp
qed

text \<open>
  C18: the local contract takes precedence over the snapshot. The Services that are applied are
  those of other NodeGroups whose identity is not claimed locally, and each local Service:
  with the backends of the snapshot when the snapshot carries exactly its current contract,
  bare otherwise. Entries of the own NodeGroup that are no longer desired are gone, no
  identity occurs twice, and the result is ordered by namespace and name.
\<close>

theorem apply_local_precedence:
  assumes "distinct (map identity contract)" and "distinct (map identity services)"
  shows "set (effective_services nodeGroup contract services) =
      {s \<in> set services. foreign nodeGroup contract s} \<union> own_entry nodeGroup services ` set contract \<and>
    sorted_wrt (<) (map service_rank (effective_services nodeGroup contract services))"
proof -
  have "sorted_wrt (<) (map service_rank (effective_services nodeGroup contract services))"
    using distinct_identity_rank[OF effective_distinct[OF assms, of nodeGroup]]
    unfolding effective_services_def case_prod_beta Let_def
    by (intro sort_services_ranks) (simp only: distinct_map_sort_slice)
  with effective_set[OF assms] show ?thesis by simp
qed

theorem apply_local_precedence_witness:
  "let w = desired_item ''prod'' ''apps'' example_service;
       leased = w\<lparr>svc_Backends := [Some (endpoint_of ''apps'' example_service example_pod)]\<rparr>
   in set (effective_services ''apps'' [w] [leased]) = {leased}"
proof -
  let ?w = "desired_item ''prod'' ''apps'' example_service"
  let ?leased = "?w\<lparr>svc_Backends := [Some (endpoint_of ''apps'' example_service example_pod)]\<rparr>"
  have "?w\<lparr>svc_Backends := []\<rparr> = ?w" by (simp add: desired_item_def)
  then have "own_entry ''apps'' [?leased] ?w = ?leased"
    by (simp add: own_entry_def identity_def)
  moreover have "\<not> foreign ''apps'' [?w] ?leased" by (simp add: foreign_def)
  ultimately show ?thesis
    using apply_local_precedence[of "[?w]" "[?leased]" "''apps''"] by (auto simp: Let_def)
qed

section \<open>What the leader publishes can be applied\<close>

lemma ParseAddr_DeriveVIP: "ParseAddr (addr_String (DeriveVIP c ns n)) = Some (DeriveVIP c ns n)"
proof -
  obtain w where w: "DeriveVIP c ns n = Addr6 w []" and hi: "drop_bit 64 w = 0xfd506f646d690000"
    by (rule DeriveVIP_word)
  have "\<not> Is4In6 (Addr6 w [])"
  proof
    assume "Is4In6 (Addr6 w [])"
    then have "drop_bit 32 (drop_bit 32 w) = drop_bit 32 0xffff" by (simp add: Is4In6_def)
    then show False using hi by simp
  qed
  with w show ?thesis by (simp add: ParseAddr_String)
qed

definition nul_free_names :: "api_Service option list \<Rightarrow> bool" where
  "nul_free_names services \<longleftrightarrow>
     (\<forall>s p. Some s \<in> set services \<and> Some p \<in> set (svc_Ports s) \<longrightarrow> CHR 0x00 \<notin> set (tp_Name p))"

text \<open>What the leader keeps of a node: a Hello it admitted and a view it validated against it.\<close>

definition admitted_peers :: "string \<Rightarrow> Peer list \<Rightarrow> bool" where
  "admitted_peers cluster peers \<longleftrightarrow> consistent_peers cluster peers \<and>
     (\<forall>h \<in> hellos peers. ValidID (hello_NodeGroup h) \<and> nul_free_names (hello_Services h)) \<and>
     (\<forall>p \<in> set peers. \<forall>h st. peer_Hello p = Some h \<and> peer_State p = Some st \<longrightarrow>
        ValidateNodeState (hello_NodeGroup h) (hello_Services h) (Some st) = None)"

lemma contract_applicable:
  assumes "valid_contract_service c g s" and "ValidID g"
    and "\<And>b p. b \<in> set bs \<Longrightarrow> Some p \<in> set (svc_Ports s) \<Longrightarrow> applicable_backend p b"
  shows "applicable_service c (s\<lparr>svc_Backends := map Some bs\<rparr>)"
  using assms
  by (auto simp: valid_contract_service_def applicable_service_def service_vip_def ParseAddr_DeriveVIP
      list_all_iff comp_def)

lemma leased_endpoint:
  assumes "b \<in> set (leased_backends peers g d s)"
  obtains p h st where "p \<in> set peers" "peer_Hello p = Some h" "peer_State p = Some st"
    "hello_NodeGroup h = g" "ns_ConfigDigest st = d" "b \<in> the ` set (ns_Endpoints st)"
    "ep_Namespace b = svc_Namespace s" "ep_Service b = svc_Name s"
proof -
  from assms obtain p where p: "p \<in> set peers" and b: "b \<in> set (case (peer_Hello p, peer_State p) of
      (Some hello, Some state) \<Rightarrow>
        if hello_NodeGroup hello \<noteq> g \<or> ns_ConfigDigest state \<noteq> d then []
        else filter (\<lambda>e. ep_NodeGroup e = g \<and> ep_Namespace e = svc_Namespace s \<and> ep_Service e = svc_Name s)
               (map the (ns_Endpoints state))
    | _ \<Rightarrow> [])" unfolding leased_backends_def by auto
  then show ?thesis
    by (cases "peer_Hello p"; cases "peer_State p") (auto split: if_splits intro!: that[OF p])
qed

lemma leased_valid:
  assumes "admitted_peers cluster peers" and "h \<in> hellos peers" and "Some s \<in> set (hello_Services h)"
    and "b \<in> set (leased_backends peers (hello_NodeGroup h) (hello_ConfigDigest h) s)"
  obtains qs a where "svc_Ports s = map Some qs" "valid_wire_ports qs" "set (ep_Ports b) = Some ` set qs"
    "ParseAddr (ep_Address b) = Some a" "Is6 a" "IsGlobalUnicast a" "ep_PodUid b \<noteq> []"
proof -
  from leased_endpoint[OF assms(4)] obtain q k st where q: "q \<in> set peers" "peer_Hello q = Some k"
    "peer_State q = Some st" "hello_NodeGroup k = hello_NodeGroup h" "b \<in> the ` set (ns_Endpoints st)"
    and b: "ep_Namespace b = svc_Namespace s" "ep_Service b = svc_Name s" by metis
  have k: "k \<in> hellos peers" using q by (auto simp: hellos_def)
  have consistent: "consistent_peers cluster peers" using assms(1) by (simp add: admitted_peers_def)
  then have valid: "ValidateContract cluster (hello_NodeGroup k) (hello_ConfigDigest k) (hello_Services k) = None"
    and services: "hello_Services k = hello_Services h"
    using k assms(2) q(4) unfolding consistent_peers_def by blast+
  have state: "ValidateNodeState (hello_NodeGroup k) (hello_Services k) (Some st) = None"
    and names: "\<forall>s p. Some s \<in> set (hello_Services k) \<and> Some p \<in> set (svc_Ports s) \<longrightarrow> CHR 0x00 \<notin> set (tp_Name p)"
    using assms(1) q(1-3) k unfolding admitted_peers_def nul_free_names_def by blast+
  have "Some b \<in> set (ns_Endpoints st)" using state q(5) by (auto simp: ValidateNodeState_iff)
  from node_state_endpoint[OF valid names state this] obtain t a where
    t: "Some t \<in> set (hello_Services k)" "svc_Namespace t = ep_Namespace b" "svc_Name t = ep_Service b"
    and ports: "mset (ep_Ports b) = mset (svc_Ports t)" and uid: "ep_PodUid b \<noteq> []"
    and a: "ParseAddr (ep_Address b) = Some a" "Is6 a" "IsGlobalUnicast a" by blast
  obtain ss where ss: "hello_Services k = map Some ss" "sorted_wrt (<) (map service_rank ss)"
    "list_all (valid_contract_service cluster (hello_NodeGroup k)) ss"
    by (rule consistent_contract[OF consistent k])
  have mem: "t \<in> set ss" "s \<in> set ss" using t(1) assms(3) unfolding services[symmetric] ss(1) by auto
  moreover have "inj_on service_rank (set ss)" using ss(2) by (simp add: strict_sorted_iff distinct_map)
  ultimately have "t = s" using t b by (auto dest: inj_onD)
  moreover from mem ss(3) obtain qs where qs: "svc_Ports s = map Some qs" "valid_wire_ports qs"
    by (auto simp: list_all_iff valid_contract_service_def)
  ultimately have "set (ep_Ports b) = Some ` set qs" using arg_cong[OF ports, of set_mset] by simp
  with qs a uid show ?thesis by (intro that)
qed

lemma leased_applicable:
  assumes "admitted_peers cluster peers" and "h \<in> hellos peers" and "Some s \<in> set (hello_Services h)"
    and "b \<in> set (leased_backends peers (hello_NodeGroup h) (hello_ConfigDigest h) s)"
  shows "Some p \<in> set (svc_Ports s) \<Longrightarrow> applicable_backend p b" and "None \<notin> set (ep_Ports b)"
proof -
  obtain qs a where qs: "svc_Ports s = map Some qs" "valid_wire_ports qs" "set (ep_Ports b) = Some ` set qs"
    and a: "ParseAddr (ep_Address b) = Some a" "Is6 a" "IsGlobalUnicast a" "ep_PodUid b \<noteq> []"
    by (rule leased_valid[OF assms])
  then show "None \<notin> set (ep_Ports b)" by auto
  assume "Some p \<in> set (svc_Ports s)"
  with qs have "Some p \<in> set (ep_Ports b)" by auto
  then have "port_targets p b \<noteq> []"
    by (auto simp: port_targets_def filter_empty_conv same_port_def intro!: bexI[of _ "Some p"])
  moreover have "list_all target_in_range (port_targets p b)"
    using qs by (auto simp: port_targets_def list_all_iff target_in_range_def valid_wire_ports_def
        wire_port_ok_def not_less)
  ultimately show "applicable_backend p b" using a by (simp add: applicable_backend_def)
qed

lemma effective_subset:
  assumes "distinct (map identity ls)" and "distinct (map identity ss)"
  shows "set (effective_services g ls ss) \<subseteq> set ss \<union> set ls"
  using effective_raw[OF assms, of g] by auto

lemma spec_applicable:
  assumes "admitted_peers cluster peers" and "s \<in> cluster_services_spec peers"
  shows "applicable_service cluster s \<and> nil_free_service s"
proof -
  from assms(2) obtain h t where h: "h \<in> hellos peers" and t: "Some t \<in> set (hello_Services h)"
    and s: "s = t\<lparr>svc_Backends := map Some (sort_slice mergeLess
      (leased_backends peers (hello_NodeGroup h) (hello_ConfigDigest h) t))\<rparr>"
    by (auto simp: cluster_services_spec_def)
  have "consistent_peers cluster peers" and id: "ValidID (hello_NodeGroup h)"
    using assms(1) h by (auto simp: admitted_peers_def)
  from consistent_contract[OF this(1) h] obtain ts where "hello_Services h = map Some ts"
    "list_all (valid_contract_service cluster (hello_NodeGroup h)) ts" by blast
  with t have valid: "valid_contract_service cluster (hello_NodeGroup h) t" by (auto simp: list_all_iff)
  note leased = leased_applicable[OF assms(1) h t]
  have "applicable_service cluster s"
    unfolding s using leased(1) by (intro contract_applicable[OF valid id]) simp
  moreover have "nil_free_endpoint (Some b)" if "None \<notin> set (ep_Ports b)" for b
    using that by (auto simp: nil_free_endpoint_def list_all_iff) (metis not_None_eq)
  then have "nil_free_service s"
    using valid_contract_nil_free[OF valid] leased(2) by (auto simp: s nil_free_service_def list_all_iff)
  ultimately show ?thesis by blast
qed

lemma own_contract_applicable:
  assumes "valid_desired ss" and "ValidID g" and "w \<in> set (desiredContract c g ss)"
  shows "applicable_service c w"
proof -
  have valid: "valid_contract_service c g w"
    using desiredContract_valid(2)[OF assms(1), of c g] assms(3) by (auto simp: list_all_iff)
  then have "w\<lparr>svc_Backends := map Some []\<rparr> = w" by (simp add: valid_contract_service_def)
  with contract_applicable[OF valid assms(2), of "[]"] show ?thesis by simp
qed

lemma leader_snapshot_applies:
  assumes "admitted_peers cluster peers"
    and "BuildClusterSnapshot cluster generation revision leader peers = Inr sn"
    and "c_Cluster c = cluster" and "ValidID (c_NodeGroup c)" and "valid_desired (c_services c)"
  shows "can_apply c sn"
proof -
  from assms(1) have "consistent_peers cluster peers" by (simp add: admitted_peers_def)
  then obtain ss where "BuildClusterSnapshot cluster generation revision leader peers = Inr
        \<lparr>sn_Generation = generation, sn_Revision = revision, sn_LeaderId = leader,
        sn_ConfigDigest = hex_EncodeToString (sha512 (concat (map (\<lambda>g.
          g @ NUL @ group_digest (by_node_group peers) g @ NUL)
          (sort_slice (<) (map fst (by_node_group peers)))))),
        sn_Services = map Some ss\<rparr>" "distinct (map identity ss)" "set ss = cluster_services_spec peers"
    by (rule BuildClusterSnapshot_ok)
  with assms(2) have ss: "sn_Services sn = map Some ss" "distinct (map identity ss)"
    "set ss = cluster_services_spec peers" by auto
  let ?ls = "snd (Contract c)"
  have ls: "?ls = desiredContract cluster (c_NodeGroup c) (c_services c)"
    by (simp add: Contract_def Let_def assms(3))
  have dl: "distinct (map identity ?ls)"
    unfolding ls by (rule valid_contract_distinct[OF desiredContract_valid(1,2)[OF assms(5)]])
  have view: "snapshot_view c sn = effective_services (c_NodeGroup c) ?ls ss"
    by (simp add: snapshot_view_def ss(1))
  have "applicable_service cluster s" if "s \<in> set (snapshot_view c sn)" for s
  proof -
    from that have "s \<in> set ss \<or> s \<in> set ?ls"
      unfolding view using effective_subset[OF dl ss(2)] by blast
    then show ?thesis
      using spec_applicable[OF assms(1)] own_contract_applicable[OF assms(5,4)] ss(3) ls by auto
  qed
  then show ?thesis
    using effective_distinct[OF dl ss(2)] spec_applicable[OF assms(1)] ss
    by (auto simp: can_apply_def list_all_iff assms(3) view)
qed



end
