(* ===== verification/Coordinator.thy ===== *)
theory Coordinator
  imports Service_Controller
begin

text \<open>
  The coordinator of \<open>src/internal/agent/coordinator/coordinator.go\<close> and \<open>transport.go\<close>: it
  elects one service manager, admits the Hellos and endpoint views of the nodes, publishes
  complete snapshots under a durable generation and revision, and applies snapshots in order.

  Outside the repository are the elector and the object storage (package s3lect) and the
  protobuf codec. What they answer is an argument of each operation: \<open>IsLeader\<close> where the
  code asks, the result of \<open>Get\<close>, and \<open>PutIfMatch\<close> as a function of the body and the tag. The
  clock, the authenticated identity of the peer and fresh session names are arguments too.
  The local controller is part of the state. A channel of capacity one is its queued value.
\<close>

section \<open>State\<close>

record Config =
  cfg_NodeID :: string
  cfg_Cluster :: string
  cfg_NodeGroup :: string
  cfg_IPv6Prefix :: prefix

record receivedNode =
  rn_hello :: "Hello option"
  rn_state :: "NodeState option"
  rn_received :: int
  rn_prefix :: prefix

record 'd Coordinator =
  co_config :: Config
  co_controller :: "'d Controller"
  co_nodes :: "(string \<times> receivedNode) list"
  co_sessions :: "(string \<times> string) list"
  co_snapshot :: "Snapshot option"
  co_generation :: "64 word"
  co_wasLeader :: bool
  co_leaderReady :: bool
  co_lastSnapshot :: int
  co_staleCleared :: bool
  co_subscribers :: "(nat \<times> ServerMessage option) list"
  co_fatal :: "error option"
  co_localSession :: string
  co_localSequence :: "64 word"

text \<open>The codec and the dataplane.\<close>

record 'd coordinator_ops =
  op_marshal :: "Snapshot \<Rightarrow> error + string"
  op_unmarshal :: "string \<Rightarrow> error + Snapshot"
  op_reconcile :: "dataplane_Snapshot \<Rightarrow> 'd \<Rightarrow> error option \<times> 'd"

definition second :: int where
  "second = 1000000000"

definition validDelegatedPrefix :: "prefix \<Rightarrow> bool" where
  "validDelegatedPrefix p \<longleftrightarrow>
     prefix_IsValid p \<and> Is6 (prefix_Addr p) \<and> \<not> Is4In6 (prefix_Addr p) \<and> IsGlobalUnicast (prefix_Addr p)
     \<and> prefix_Bits p = Some 80 \<and> p = Masked p"

text \<open>The collaborators of the configuration are present; the others are checked.\<close>

definition coordinator_New :: "Config \<Rightarrow> 'd Controller \<Rightarrow> error + 'd Coordinator" where
  "coordinator_New config controller =
     (if cfg_NodeID config = [] \<or> cfg_Cluster config = [] \<or> cfg_NodeGroup config = []
         \<or> \<not> validDelegatedPrefix (cfg_IPv6Prefix config)
      then Inl (errors_New ''complete service coordinator configuration is required'')
      else Inr \<lparr>co_config = config, co_controller = controller, co_nodes = [], co_sessions = [],
                co_snapshot = None, co_generation = 0, co_wasLeader = False, co_leaderReady = False,
                co_lastSnapshot = 0, co_staleCleared = False, co_subscribers = [], co_fatal = None,
                co_localSession = [], co_localSequence = 0\<rparr>)"

section \<open>Snapshots\<close>

definition cloneSnapshot :: "Snapshot option \<Rightarrow> Snapshot option" where
  "cloneSnapshot value = (case value of None \<Rightarrow> None | Some s \<Rightarrow> Some s)"

definition snapshotMessage :: "Snapshot option \<Rightarrow> ServerMessage list" where
  "snapshotMessage value = (case value of None \<Rightarrow> [] | Some s \<Rightarrow> [SM_Snapshot s])"

definition serviceIdentityLess :: "api_Service \<Rightarrow> api_Service \<Rightarrow> bool" where
  "serviceIdentityLess left right =
     (if svc_Namespace left \<noteq> svc_Namespace right then svc_Namespace left < svc_Namespace right
      else if svc_Name left \<noteq> svc_Name right then svc_Name left < svc_Name right
      else svc_NodeGroup left < svc_NodeGroup right)"

definition clear_backends :: "Snapshot \<Rightarrow> Snapshot" where
  "clear_backends sn = sn\<lparr>sn_Services := map (map_option (\<lambda>item. item\<lparr>svc_Backends := []\<rparr>)) (sn_Services sn)\<rparr>"

definition overlayLocalContract :: "'d Coordinator \<Rightarrow> Snapshot \<Rightarrow> Snapshot" where
  "overlayLocalContract c snapshot =
     (let local = snd (Contract (co_controller c));
          identities = identity ` set local;
          services = filter (\<lambda>item. svc_NodeGroup item \<noteq> cfg_NodeGroup (co_config c) \<and> identity item \<notin> identities)
                       (map the (sn_Services snapshot))
      in snapshot\<lparr>sn_Services := map Some (sort_slice serviceIdentityLess (services @ local))\<rparr>)"

definition contractsOverlap :: "api_Service option list \<Rightarrow> api_Service option list \<Rightarrow> bool" where
  "contractsOverlap left right =
     (let identities = (identity \<circ> the) ` set left
      in list_ex (\<lambda>item. identity (the item) \<in> identities) right)"

text \<open>Is \<open>sn\<close> not newer than what was applied?\<close>

definition stale_snapshot :: "Snapshot \<Rightarrow> Snapshot option \<Rightarrow> bool" where
  "stale_snapshot sn current =
     (case current of
        None \<Rightarrow> False
      | Some cur \<Rightarrow> sn_Generation sn < sn_Generation cur
          \<or> (sn_Generation sn = sn_Generation cur \<and> sn_Revision sn \<le> sn_Revision cur))"

definition coordinator_apply ::
  "'d coordinator_ops \<Rightarrow> int \<Rightarrow> Snapshot \<Rightarrow> 'd Coordinator \<Rightarrow> error option \<times> 'd Coordinator" where
  "coordinator_apply ops now snapshot c =
     (if stale_snapshot snapshot (co_snapshot c) then (None, c)
      else case controller_Apply (op_reconcile ops) (Some snapshot) (co_controller c) of
             (Some e, controller) \<Rightarrow>
               (Some e, c\<lparr>co_controller := controller,
                  co_fatal := (if length (sn_Services snapshot) \<noteq> 0 \<and> co_fatal c = None
                               then Some (Wrapf ''apply service dataplane'' [] e) else co_fatal c)\<rparr>)
           | (None, controller) \<Rightarrow>
               (None, c\<lparr>co_controller := controller, co_snapshot := cloneSnapshot (Some snapshot),
                  co_lastSnapshot := now, co_staleCleared := False\<rparr>))"

definition LoadSnapshot ::
  "'d coordinator_ops \<Rightarrow> (error + string \<times> string) \<Rightarrow> int \<Rightarrow> 'd Coordinator \<Rightarrow> error option \<times> 'd Coordinator" where
  "LoadSnapshot ops got now c =
     (case got of
        Inl e \<Rightarrow> if errors_Is e ErrStorageNotFound then (None, c) else (Some e, c)
      | Inr (body, _) \<Rightarrow>
          (case op_unmarshal ops body of
             Inl e \<Rightarrow> (Some (Wrapf ''decode durable service snapshot'' [] e), c)
           | Inr value \<Rightarrow>
               let services = filter (\<lambda>item. svc_NodeGroup item \<noteq> cfg_NodeGroup (co_config c))
                                (map the (sn_Services (clear_backends value)));
                   local = snd (Contract (co_controller c))
               in coordinator_apply ops now
                    (value\<lparr>sn_Services := map Some (sort_slice serviceIdentityLess (services @ local))\<rparr>) c))"

definition clearStale :: "'d coordinator_ops \<Rightarrow> int \<Rightarrow> 'd Coordinator \<Rightarrow> 'd Coordinator" where
  "clearStale ops now c =
     (case co_snapshot c of
        None \<Rightarrow> c
      | Some cur \<Rightarrow>
          if co_staleCleared c \<or> co_lastSnapshot c = 0 \<or> now - co_lastSnapshot c \<le> 35 * second then c
          else let snapshot = overlayLocalContract c (clear_backends cur)
               in case controller_Apply (op_reconcile ops) (Some snapshot) (co_controller c) of
                    (Some e, controller) \<Rightarrow> c\<lparr>co_controller := controller\<rparr>
                  | (None, controller) \<Rightarrow> c\<lparr>co_controller := controller, co_staleCleared := True\<rparr>)"

definition applyLocalTransition ::
  "'d coordinator_ops \<Rightarrow> 'd Coordinator \<Rightarrow> error option \<times> 'd Coordinator" where
  "applyLocalTransition ops c =
     (let snapshot = (case cloneSnapshot (co_snapshot c) of None \<Rightarrow> SnapshotZero | Some s \<Rightarrow> s);
          snapshot' = (if co_staleCleared c then clear_backends snapshot else snapshot);
          (e, controller) = controller_Apply (op_reconcile ops) (Some (overlayLocalContract c snapshot'))
             (co_controller c)
      in (e, c\<lparr>co_controller := controller\<rparr>))"

text \<open>A queued message is replaced, so that a slow stream receives the latest snapshot.\<close>

definition broadcast :: "Snapshot \<Rightarrow> 'd Coordinator \<Rightarrow> 'd Coordinator" where
  "broadcast snapshot c =
     c\<lparr>co_subscribers := map (\<lambda>(ch, queued). (ch, Some (hd (snapshotMessage (Some snapshot))))) (co_subscribers c)\<rparr>"

definition coordinator_Subscribe :: "nat \<Rightarrow> 'd Coordinator \<Rightarrow> 'd Coordinator" where
  "coordinator_Subscribe ch c =
     c\<lparr>co_subscribers := AList.update ch
        (case snapshotMessage (cloneSnapshot (co_snapshot c)) of [] \<Rightarrow> None | m # _ \<Rightarrow> Some m)
        (co_subscribers c)\<rparr>"

definition coordinator_Unsubscribe :: "nat \<Rightarrow> 'd Coordinator \<Rightarrow> 'd Coordinator" where
  "coordinator_Unsubscribe ch c = c\<lparr>co_subscribers := AList.delete ch (co_subscribers c)\<rparr>"

section \<open>Publication\<close>

definition peers_of :: "(string \<times> receivedNode) list \<Rightarrow> Peer list" where
  "peers_of nodes = map (\<lambda>(_, node). \<lparr>peer_Hello = rn_hello node, peer_State = rn_state node\<rparr>) nodes"

definition next_revision :: "'d Coordinator \<Rightarrow> 64 word" where
  "next_revision c =
     (case co_snapshot c of
        Some s \<Rightarrow> if sn_Generation s = co_generation c then sn_Revision s + 1 else 1
      | None \<Rightarrow> 1)"

record publish_env =
  pe_leader :: bool
  pe_get :: "error + string \<times> string"
  pe_still_leader :: bool
  pe_put :: "string \<Rightarrow> string \<Rightarrow> error option"
  pe_now :: int

text \<open>Everything before the write: the snapshot, its encoding and the tag it replaces.\<close>

definition publish_prepare ::
  "'d coordinator_ops \<Rightarrow> publish_env \<Rightarrow> 'd Coordinator \<Rightarrow> error + Snapshot \<times> string \<times> string" where
  "publish_prepare ops env c =
     (if \<not> pe_leader env then Inl (errors_New ''leadership lost'')
      else let generation = co_generation c; revision = next_revision c
      in case BuildClusterSnapshot (cfg_Cluster (co_config c)) generation revision (cfg_NodeID (co_config c))
                (peers_of (co_nodes c)) of
           Inl e \<Rightarrow> Inl e
         | Inr snapshot \<Rightarrow>
             (case pe_get env of
                Inl e \<Rightarrow> Inl e
              | Inr (body, etag) \<Rightarrow>
                  (case op_unmarshal ops body of
                     Inl e \<Rightarrow> Inl e
                   | Inr durable \<Rightarrow>
                       if sn_Generation durable \<noteq> generation \<or> sn_LeaderId durable \<noteq> cfg_NodeID (co_config c)
                       then Inl (errors_New ''durable service leader superseded this process'')
                       else if sn_Revision durable + 1 \<noteq> revision
                       then Inl (errors_New ''durable service revision changed during publication'')
                       else (case op_marshal ops snapshot of
                               Inl e \<Rightarrow> Inl e
                             | Inr encoded \<Rightarrow>
                                 if \<not> pe_still_leader env then Inl (errors_New ''leadership lost'')
                                 else Inr (snapshot, encoded, etag)))))"

definition publish_finish ::
  "'d coordinator_ops \<Rightarrow> int \<Rightarrow> Snapshot \<Rightarrow> 'd Coordinator \<Rightarrow> error option \<times> 'd Coordinator" where
  "publish_finish ops now snapshot c =
     (case coordinator_apply ops now snapshot c of
        (Some e, c') \<Rightarrow> (Some e, c')
      | (None, c') \<Rightarrow> (None, broadcast snapshot c'))"

definition publish ::
  "'d coordinator_ops \<Rightarrow> publish_env \<Rightarrow> 'd Coordinator \<Rightarrow> error option \<times> 'd Coordinator" where
  "publish ops env c =
     (case publish_prepare ops env c of
        Inl e \<Rightarrow> (Some e, c)
      | Inr (snapshot, encoded, etag) \<Rightarrow>
          (case pe_put env encoded etag of
             Some e \<Rightarrow> (Some e, c)
           | None \<Rightarrow> publish_finish ops (pe_now env) snapshot c))"

definition expired :: "int \<Rightarrow> receivedNode \<Rightarrow> bool" where
  "expired now node \<longleftrightarrow> rn_received node \<noteq> 0 \<and> now - rn_received node > 35 * second"

definition expire_nodes :: "int \<Rightarrow> 'd Coordinator \<Rightarrow> 'd Coordinator" where
  "expire_nodes now c =
     fold (\<lambda>(nid, node) c. if expired now node
             then c\<lparr>co_sessions := AList.delete (hello_SessionId (the (rn_hello node))) (co_sessions c),
                    co_nodes := AList.delete nid (co_nodes c)\<rparr>
             else c) (co_nodes c) c"

definition expireAndPublish ::
  "'d coordinator_ops \<Rightarrow> int \<Rightarrow> publish_env \<Rightarrow> 'd Coordinator \<Rightarrow> error option \<times> 'd Coordinator" where
  "expireAndPublish ops now env c =
     (if list_ex (\<lambda>(nid, node). expired now node) (co_nodes c)
      then publish ops env (expire_nodes now c)
      else (None, expire_nodes now c))"

section \<open>Acquiring leadership\<close>

record acquire_env =
  ae_get :: "error + string \<times> string"
  ae_put :: "string \<Rightarrow> string \<Rightarrow> error option"

text \<open>Everything before the write of one attempt.\<close>

definition acquire_prepare ::
  "'d coordinator_ops \<Rightarrow> (error + string \<times> string) \<Rightarrow> 'd Coordinator \<Rightarrow> error + Snapshot \<times> string \<times> string" where
  "acquire_prepare ops got c =
     (case (case got of
              Inl e \<Rightarrow> if errors_Is e ErrStorageNotFound then Inr ([], []) else Inl e
            | Inr (body, etag) \<Rightarrow> Inr (body, etag)) of
        Inl e \<Rightarrow> Inl e
      | Inr (body, etag) \<Rightarrow>
          (case (if length body > 0 then op_unmarshal ops body else Inr SnapshotZero) of
             Inl e \<Rightarrow> Inl e
           | Inr current \<Rightarrow>
               let candidate = (overlayLocalContract c (clear_backends current))
                     \<lparr>sn_Generation := sn_Generation current + 1, sn_Revision := 0,
                      sn_LeaderId := cfg_NodeID (co_config c)\<rparr>
               in case ValidateSnapshotOwnership (Some candidate) of
                    Some e \<Rightarrow> Inl e
                  | None \<Rightarrow>
                      (case op_marshal ops candidate of
                         Inl e \<Rightarrow> Inl e
                       | Inr encoded \<Rightarrow> Inr (candidate, encoded, etag))))"

definition acquire_finish ::
  "'d coordinator_ops \<Rightarrow> int \<Rightarrow> Snapshot \<Rightarrow> 'd Coordinator \<Rightarrow> error option \<times> 'd Coordinator" where
  "acquire_finish ops now candidate c =
     (case coordinator_apply ops now candidate
             (c\<lparr>co_generation := sn_Generation candidate, co_nodes := [], co_sessions := []\<rparr>) of
        (Some e, c') \<Rightarrow> (Some e, c')
      | (None, c') \<Rightarrow> (None, c'\<lparr>co_leaderReady := True\<rparr>))"

fun acquire_loop ::
  "'d coordinator_ops \<Rightarrow> int \<Rightarrow> nat \<Rightarrow> acquire_env list \<Rightarrow> 'd Coordinator \<Rightarrow> error option \<times> 'd Coordinator" where
  "acquire_loop ops now (Suc attempts) (env # envs) c =
     (case acquire_prepare ops (ae_get env) c of
        Inl e \<Rightarrow> (Some e, c)
      | Inr (candidate, encoded, etag) \<Rightarrow>
          (case ae_put env encoded etag of
             Some e \<Rightarrow> if errors_Is e ErrStoragePrecondition then acquire_loop ops now attempts envs c
                       else (Some e, c)
           | None \<Rightarrow> acquire_finish ops now candidate c))"
| "acquire_loop ops now attempts envs c =
     (Some (errors_New ''service generation CAS retries exhausted''), c)"

text \<open>Five attempts; \<open>envs\<close> has what storage answers in each.\<close>

definition acquire ::
  "'d coordinator_ops \<Rightarrow> int \<Rightarrow> acquire_env list \<Rightarrow> 'd Coordinator \<Rightarrow> error option \<times> 'd Coordinator" where
  "acquire ops now envs c = acquire_loop ops now 5 envs c"

section \<open>Messages\<close>

record handle_env =
  he_leader :: bool
  he_peer :: "error + string \<times> string"
  he_now :: int
  he_publish :: publish_env

definition hello_conflict :: "Hello \<Rightarrow> string \<times> receivedNode \<Rightarrow> error option" where
  "hello_conflict hello = (\<lambda>(nid, peer).
     case rn_hello peer of
       None \<Rightarrow> None
     | Some h \<Rightarrow>
         if nid \<noteq> hello_NodeId hello \<and> hello_NodeGroup h = hello_NodeGroup hello
            \<and> (hello_ConfigDigest h \<noteq> hello_ConfigDigest hello \<or> hello_Services h \<noteq> hello_Services hello)
         then Some (errors_New ''conflicting service contract within NodeGroup'')
         else if nid \<noteq> hello_NodeId hello \<and> hello_NodeGroup h \<noteq> hello_NodeGroup hello
            \<and> contractsOverlap (hello_Services h) (hello_Services hello)
         then Some (errors_New ''conflicting Service ownership across NodeGroups'')
         else None)"

text \<open>The checks of a Hello: the Hello with its prefix filled in, and the parsed prefix.\<close>

definition admit_hello :: "handle_env \<Rightarrow> Hello \<Rightarrow> bool \<Rightarrow> 'd Coordinator \<Rightarrow> error + Hello \<times> prefix" where
  "admit_hello env hello0 local c =
     (let config = co_config c
      in if hello_NodeId hello0 = [] \<or> hello_Cluster hello0 \<noteq> cfg_Cluster config \<or> hello_SessionId hello0 = []
            \<or> ValidateContract (cfg_Cluster config) (hello_NodeGroup hello0) (hello_ConfigDigest hello0)
                (hello_Services hello0) \<noteq> None
         then Inl (errors_New ''invalid hello'')
         else let hello = (if local \<and> hello_Ipv6Prefix hello0 = []
                           then hello0\<lparr>hello_Ipv6Prefix := prefix_String (cfg_IPv6Prefix config)\<rparr> else hello0)
         in case ParsePrefix (hello_Ipv6Prefix hello) of
              None \<Rightarrow> Inl (errors_New ''invalid delegated IPv6 prefix'')
            | Some prefix \<Rightarrow>
                if \<not> validDelegatedPrefix prefix
                then Inl (errors_New ''invalid delegated IPv6 prefix'')
                else if \<not> local \<and> he_peer env \<noteq> Inr (hello_NodeId hello, hello_NodeGroup hello)
                then Inl (errors_New ''hello does not match authenticated node identity'')
                else if local \<and> prefix \<noteq> cfg_IPv6Prefix config
                then Inl (errors_New ''invalid local hello prefix'')
                else case first_err (hello_conflict hello) (co_nodes c) of
                       Some e \<Rightarrow> Inl e
                     | None \<Rightarrow> Inr (hello, prefix))"

definition store_hello :: "int \<Rightarrow> Hello \<Rightarrow> prefix \<Rightarrow> 'd Coordinator \<Rightarrow> 'd Coordinator" where
  "store_hello now hello prefix c =
     (let sessions = (case map_of (co_nodes c) (hello_NodeId hello) of
            Some previous \<Rightarrow>
              (case rn_hello previous of
                 Some h \<Rightarrow> AList.delete (hello_SessionId h) (co_sessions c)
               | None \<Rightarrow> co_sessions c)
          | None \<Rightarrow> co_sessions c)
      in c\<lparr>co_sessions := AList.update (hello_SessionId hello) (hello_NodeId hello) sessions,
           co_nodes := AList.update (hello_NodeId hello)
             \<lparr>rn_hello = Some hello, rn_state = None, rn_received = now, rn_prefix = prefix\<rparr> (co_nodes c)\<rparr>)"

definition handle_hello ::
  "handle_env \<Rightarrow> Hello \<Rightarrow> bool \<Rightarrow> 'd Coordinator \<Rightarrow> (error + ServerMessage list) \<times> 'd Coordinator" where
  "handle_hello env hello0 local c =
     (case admit_hello env hello0 local c of
        Inl e \<Rightarrow> (Inl e, c)
      | Inr (hello, prefix) \<Rightarrow>
          let c' = store_hello (he_now env) hello prefix c
          in (Inr (snapshotMessage (cloneSnapshot (co_snapshot c'))), c'))"

definition outside_prefix :: "prefix \<Rightarrow> Endpoint option \<Rightarrow> error option" where
  "outside_prefix p endpoint =
     (case ParseAddr (ep_Address (the endpoint)) of
        None \<Rightarrow> Some (errors_New ''endpoint is outside reported delegated prefix'')
      | Some address \<Rightarrow>
          if \<not> prefix_Contains p address
          then Some (errors_New ''endpoint is outside reported delegated prefix'') else None)"

definition ack_messages :: "64 word \<Rightarrow> 'd Coordinator \<Rightarrow> ServerMessage list" where
  "ack_messages sequence c =
     SM_Ack \<lparr>ack_Sequence = sequence\<rparr> # snapshotMessage (cloneSnapshot (co_snapshot c))"

text \<open>The node that opened a session, with its Hello.\<close>

definition session_node :: "string \<Rightarrow> 'd Coordinator \<Rightarrow> (string \<times> receivedNode \<times> Hello) option" where
  "session_node session c =
     (let nid = (case map_of (co_sessions c) session of Some i \<Rightarrow> i | None \<Rightarrow> [])
      in case map_of (co_nodes c) nid of
           None \<Rightarrow> None
         | Some old \<Rightarrow>
             (case rn_hello old of
                None \<Rightarrow> None
              | Some hello \<Rightarrow>
                  if nid = [] \<or> hello_SessionId hello \<noteq> session then None else Some (nid, old, hello)))"

definition handle_state ::
  "'d coordinator_ops \<Rightarrow> handle_env \<Rightarrow> NodeState \<Rightarrow> 'd Coordinator
     \<Rightarrow> (error + ServerMessage list) \<times> 'd Coordinator" where
  "handle_state ops env state c =
     (case session_node (ns_SessionId state) c of
        None \<Rightarrow> (Inl (errors_New ''invalid node state session or config digest''), c)
      | Some (nid, old, hello) \<Rightarrow>
          if hello_ConfigDigest hello \<noteq> ns_ConfigDigest state
          then (let c' = c\<lparr>co_sessions := AList.delete (ns_SessionId state) (co_sessions c),
                           co_nodes := AList.delete nid (co_nodes c)\<rparr>
                in case publish ops (he_publish env) c' of
                     (Some e, c'') \<Rightarrow> (Inl (Wrapf ''publish retired node configuration'' [] e), c'')
                   | (None, c'') \<Rightarrow> (Inl (errors_New ''node configuration changed; reconnect required''), c''))
          else (case ValidateNodeState (hello_NodeGroup hello) (hello_Services hello) (Some state) of
                  Some e \<Rightarrow> (Inl e, c)
                | None \<Rightarrow>
                    (case first_err (outside_prefix (rn_prefix old)) (ns_Endpoints state) of
                       Some e \<Rightarrow> (Inl e, c)
                     | None \<Rightarrow>
                         if (case rn_state old of Some s \<Rightarrow> ns_Sequence state \<le> ns_Sequence s | None \<Rightarrow> False)
                         then (Inr (ack_messages (ns_Sequence state) c), c)
                         else let c' = c\<lparr>co_nodes := AList.update nid
                                  (old\<lparr>rn_state := Some state, rn_received := he_now env\<rparr>) (co_nodes c)\<rparr>
                              in case publish ops (he_publish env) c' of
                                   (Some e, c'') \<Rightarrow> (Inl e, c'')
                                 | (None, c'') \<Rightarrow> (Inr (ack_messages (ns_Sequence state) c''), c''))))"

definition handle_drain ::
  "'d coordinator_ops \<Rightarrow> handle_env \<Rightarrow> Drain \<Rightarrow> 'd Coordinator
     \<Rightarrow> (error + ServerMessage list) \<times> 'd Coordinator" where
  "handle_drain ops env d c =
     (let nid = (case map_of (co_sessions c) (drain_SessionId d) of Some nid \<Rightarrow> nid | None \<Rightarrow> []);
          nodes = (case Option.bind (map_of (co_nodes c) nid) rn_hello of
                     Some hello \<Rightarrow> if hello_SessionId hello = drain_SessionId d
                                   then AList.delete nid (co_nodes c) else co_nodes c
                   | None \<Rightarrow> co_nodes c);
          c' = c\<lparr>co_sessions := AList.delete (drain_SessionId d) (co_sessions c), co_nodes := nodes\<rparr>
      in case publish ops (he_publish env) c' of
           (Some e, c'') \<Rightarrow> (Inl e, c'')
         | (None, c'') \<Rightarrow> (Inr [], c''))"

definition handle ::
  "'d coordinator_ops \<Rightarrow> handle_env \<Rightarrow> ClientMessage \<Rightarrow> bool \<Rightarrow> 'd Coordinator
     \<Rightarrow> (error + ServerMessage list) \<times> 'd Coordinator" where
  "handle ops env message local c =
     (if \<not> he_leader env then (Inl (errors_New ''not service leader''), c)
      else if \<not> co_leaderReady c then (Inl (errors_New ''service leader is initializing''), c)
      else case message of
             CM_Hello hello \<Rightarrow> handle_hello env hello local c
           | CM_NodeState state \<Rightarrow> handle_state ops env state c
           | CM_Drain d \<Rightarrow> handle_drain ops env d c
           | CM_Empty \<Rightarrow> (Inl (errors_New ''empty coordination message''), c))"

definition Handle ::
  "'d coordinator_ops \<Rightarrow> handle_env \<Rightarrow> ClientMessage \<Rightarrow> 'd Coordinator
     \<Rightarrow> (error + ServerMessage list) \<times> 'd Coordinator" where
  "Handle ops env message c = handle ops env message False c"

section \<open>The local node and the follower\<close>

definition coordinator_hello :: "string \<Rightarrow> 'd Coordinator \<Rightarrow> Hello" where
  "coordinator_hello session c =
     (let (digest, services) = Contract (co_controller c)
      in \<lparr>hello_NodeId = cfg_NodeID (co_config c), hello_Cluster = cfg_Cluster (co_config c),
          hello_NodeGroup = cfg_NodeGroup (co_config c), hello_SessionId = session,
          hello_ConfigDigest = digest, hello_Services = map Some services,
          hello_Ipv6Prefix = prefix_String (cfg_IPv6Prefix (co_config c))\<rparr>)"

text \<open>
  \<open>registerLocal\<close> reads the Hello and the view and repeats both reads while their digests
  differ. Here nothing falls between the two reads, so they agree at once.
\<close>

definition registerLocal ::
  "'d coordinator_ops \<Rightarrow> string \<Rightarrow> error option \<Rightarrow> handle_env \<Rightarrow> handle_env \<Rightarrow> 'd Coordinator
     \<Rightarrow> error option \<times> 'd Coordinator" where
  "registerLocal ops fresh ctx_err env_hello env_state c =
     (let session = (if co_localSession c = [] then fresh else co_localSession c);
          sequence = co_localSequence c + 1;
          c1 = c\<lparr>co_localSession := session, co_localSequence := sequence\<rparr>
      in case ctx_err of
           Some e \<Rightarrow> (Some e, c1)
         | None \<Rightarrow>
             let state = controller_NodeState session sequence (co_controller c1)
             in case handle ops env_hello (CM_Hello (coordinator_hello session c1)) True c1 of
                  (Inl e, c2) \<Rightarrow> (Some e, c2)
                | (Inr _, c2) \<Rightarrow>
                    (case handle ops env_state (CM_NodeState state) True c2 of
                       (Inl e, c3) \<Rightarrow> (Some e, c3)
                     | (Inr _, c3) \<Rightarrow> (None, c3)))"

text \<open>
  What a follower sends on a stream: the Hello, and then a view for each coordinator state
  it observes, until the configuration is no longer that of the Hello. The list holds the
  states observed, one per iteration; it ends when the stream is cancelled.
\<close>

fun send_states :: "string \<Rightarrow> string \<Rightarrow> 64 word \<Rightarrow> 'd Coordinator list \<Rightarrow> ClientMessage list" where
  "send_states session digest sequence [] = []"
| "send_states session digest sequence (c # cs) =
     (let state = controller_NodeState session (sequence + 1) (co_controller c)
      in if ns_ConfigDigest state \<noteq> digest then []
         else CM_NodeState state # send_states session digest (sequence + 1) cs)"

definition sendStates :: "string \<Rightarrow> 'd Coordinator \<Rightarrow> 'd Coordinator list \<Rightarrow> ClientMessage list" where
  "sendStates session c cs =
     (let hello = coordinator_hello session c
      in CM_Hello hello # send_states session (hello_ConfigDigest hello) 0 cs)"

definition follow_message ::
  "'d coordinator_ops \<Rightarrow> int \<Rightarrow> ServerMessage \<Rightarrow> 'd Coordinator \<Rightarrow> error option \<times> 'd Coordinator" where
  "follow_message ops now message c =
     (case message of SM_Snapshot value \<Rightarrow> coordinator_apply ops now value c | SM_Ack _ \<Rightarrow> (None, c))"

text \<open>
  \<open>drain\<close>: a follower sends a Hello and a Drain to the leader, when there is one it can reach;
  the leader removes its own sessions and publishes.
\<close>

definition drain_messages :: "string \<Rightarrow> bool \<Rightarrow> 'd Coordinator \<Rightarrow> ClientMessage list" where
  "drain_messages session reachable c =
     (if \<not> reachable then []
      else [CM_Hello (coordinator_hello session c), CM_Drain \<lparr>drain_SessionId = session\<rparr>])"

definition forget_local :: "'d Coordinator \<Rightarrow> 'd Coordinator" where
  "forget_local c =
     fold (\<lambda>(session, nid) c. if nid = cfg_NodeID (co_config c)
             then c\<lparr>co_sessions := AList.delete session (co_sessions c),
                    co_nodes := AList.delete nid (co_nodes c)\<rparr>
             else c) (co_sessions c) c"

definition drain_local :: "'d coordinator_ops \<Rightarrow> publish_env \<Rightarrow> 'd Coordinator \<Rightarrow> 'd Coordinator" where
  "drain_local ops env c = snd (publish ops env (forget_local c))"

section \<open>The run loop\<close>

record 'd run_state =
  run_coordinator :: "'d Coordinator"
  run_lastDesired :: string
  run_lastLocal :: int

text \<open>What the collaborators answer during one event.\<close>

record run_env =
  re_leader :: bool
  re_now :: int
  re_acquire :: "acquire_env list"
  re_session :: string
  re_ctx :: "error option"
  re_register :: "(handle_env \<times> handle_env) \<times> (handle_env \<times> handle_env)"
  re_expire :: publish_env

datatype run_event = RunDone run_env | RunFatal | RunChanges run_env | RunTick run_env

definition register_step ::
  "'d coordinator_ops \<Rightarrow> run_env \<Rightarrow> handle_env \<times> handle_env \<Rightarrow> 'd run_state \<Rightarrow> 'd run_state" where
  "register_step ops env hs st =
     st\<lparr>run_coordinator := snd (registerLocal ops (re_session env) (re_ctx env) (fst hs) (snd hs) (run_coordinator st)),
        run_lastLocal := re_now env\<rparr>"

definition run_changes ::
  "'d coordinator_ops \<Rightarrow> run_env \<Rightarrow> 'd run_state \<Rightarrow> error option option \<times> 'd run_state" where
  "run_changes ops env st =
     (let c = run_coordinator st; currentDesired = Digest (co_controller c);
          (err, st') = (if currentDesired \<noteq> run_lastDesired st
                        then (case applyLocalTransition ops c of
                                (Some e, c') \<Rightarrow> (Some (Wrapf ''apply local service transition'' [] e),
                                                  st\<lparr>run_coordinator := c'\<rparr>)
                              | (None, c') \<Rightarrow> (None, st\<lparr>run_coordinator := c', run_lastDesired := currentDesired\<rparr>))
                        else (None, st))
      in case err of
           Some e \<Rightarrow> (Some (Some e), st')
         | None \<Rightarrow> (None, if re_leader env then register_step ops env (fst (re_register env)) st' else st'))"

definition run_tick :: "'d coordinator_ops \<Rightarrow> run_env \<Rightarrow> 'd run_state \<Rightarrow> 'd run_state" where
  "run_tick ops env st =
     (let leader = re_leader env;
          st1 = (if leader \<and> \<not> co_wasLeader (run_coordinator st)
                 then (case acquire ops (re_now env) (re_acquire env) (run_coordinator st) of
                         (Some e, c) \<Rightarrow> st\<lparr>run_coordinator := c\<rparr>
                       | (None, c) \<Rightarrow> register_step ops env (fst (re_register env))
                                         (st\<lparr>run_coordinator := c\<lparr>co_wasLeader := True\<rparr>\<rparr>))
                 else st);
          st2 = (if \<not> leader
                 then st1\<lparr>run_coordinator := clearStale ops (re_now env)
                        ((run_coordinator st1)\<lparr>co_wasLeader := False, co_leaderReady := False\<rparr>)\<rparr>
                 else st1);
          st3 = (if leader \<and> re_now env - run_lastLocal st2 \<ge> 10 * second
                 then register_step ops env (snd (re_register env)) st2 else st2)
      in if leader
         then st3\<lparr>run_coordinator := snd (expireAndPublish ops (re_now env) (re_expire env) (run_coordinator st3))\<rparr>
         else st3)"

text \<open>The result is \<^term>\<open>None\<close> when the loop goes on and what \<open>Run\<close> returns otherwise.\<close>

definition run_step ::
  "'d coordinator_ops \<Rightarrow> run_event \<Rightarrow> 'd run_state \<Rightarrow> error option option \<times> 'd run_state" where
  "run_step ops event st =
     (case event of
        RunDone env \<Rightarrow>
          (Some None, if re_leader env
                      then st\<lparr>run_coordinator := drain_local ops (re_expire env) (run_coordinator st)\<rparr> else st)
      | RunFatal \<Rightarrow>
          (case co_fatal (run_coordinator st) of
             None \<Rightarrow> (None, st)
           | Some e \<Rightarrow> (Some (Some e), st\<lparr>run_coordinator := (run_coordinator st)\<lparr>co_fatal := None\<rparr>\<rparr>))
      | RunChanges env \<Rightarrow> run_changes ops env st
      | RunTick env \<Rightarrow> (None, run_tick ops env st))"

definition run_start ::
  "'d coordinator_ops \<Rightarrow> error option \<Rightarrow> 'd Coordinator \<Rightarrow> error + 'd run_state" where
  "run_start ops start_err c =
     (case start_err of
        Some e \<Rightarrow> Inl e
      | None \<Rightarrow>
          (case applyLocalTransition ops c of
             (Some e, c') \<Rightarrow> Inl (Wrapf ''apply initial local service state'' [] e)
           | (None, c') \<Rightarrow> Inr \<lparr>run_coordinator = c', run_lastDesired = Digest (co_controller c'), run_lastLocal = 0\<rparr>))"

fun Run :: "'d coordinator_ops \<Rightarrow> run_event list \<Rightarrow> 'd run_state \<Rightarrow> error option option \<times> 'd run_state" where
  "Run ops [] st = (None, st)"
| "Run ops (e # es) st =
     (case run_step ops e st of
        (Some r, st') \<Rightarrow> (Some r, st')
      | (None, st') \<Rightarrow> Run ops es st')"

end
