(* ===== verification/Coordinator_Invariants.thy ===== *)
theory Coordinator_Invariants
  imports Coordinator
begin

text \<open>
  What every operation of the coordinator keeps: the nodes that the leader has admitted form
  a consistent set of peers, sessions lead to the node that opened them, and the applied
  snapshot only moves forward. The operations are the steps of a transition relation; the
  invariant holds in every state that is reachable from a new coordinator.
\<close>

section \<open>What the operations leave alone\<close>

definition same_nodes :: "'d Coordinator \<Rightarrow> 'd Coordinator \<Rightarrow> bool" where
  "same_nodes c c' \<longleftrightarrow> co_nodes c' = co_nodes c \<and> co_sessions c' = co_sessions c \<and>
     co_config c' = co_config c \<and> co_generation c' = co_generation c \<and> co_leaderReady c' = co_leaderReady c"

lemma same_nodes_refl [simp]: "same_nodes c c"
  by (simp add: same_nodes_def)

lemma same_nodes_trans: "same_nodes a b \<Longrightarrow> same_nodes b c \<Longrightarrow> same_nodes a c"
  by (simp add: same_nodes_def)

lemma apply_same_nodes: "same_nodes c (snd (coordinator_apply ops now sn c))"
  by (auto simp: coordinator_apply_def same_nodes_def split: prod.split option.split)

lemma publish_finish_same_nodes: "same_nodes c (snd (publish_finish ops now sn c))"
proof -
  obtain e c' where a: "coordinator_apply ops now sn c = (e, c')" by fastforce
  with apply_same_nodes[of c ops now sn] show ?thesis
    by (cases e) (simp_all add: publish_finish_def same_nodes_def broadcast_def)
qed

lemma publish_same_nodes: "same_nodes c (snd (publish ops env c))"
  using publish_finish_same_nodes
  by (auto simp: publish_def split: sum.split option.split)

lemma clearStale_same_nodes: "same_nodes c (clearStale ops now c)"
  by (auto simp: clearStale_def same_nodes_def Let_def split: option.split prod.split)

lemma transition_same_nodes: "same_nodes c (snd (applyLocalTransition ops c))"
  by (auto simp: applyLocalTransition_def same_nodes_def Let_def split: prod.split)

lemma LoadSnapshot_same_nodes: "same_nodes c (snd (LoadSnapshot ops got now c))"
  using apply_same_nodes by (auto simp: LoadSnapshot_def Let_def split: sum.split)

section \<open>The invariant\<close>

definition admitted_node :: "Config \<Rightarrow> string \<Rightarrow> receivedNode \<Rightarrow> bool" where
  "admitted_node config nid node \<longleftrightarrow>
     (case rn_hello node of
        None \<Rightarrow> False
      | Some h \<Rightarrow>
          hello_NodeId h = nid \<and> nid \<noteq> [] \<and> hello_Cluster h = cfg_Cluster config \<and> hello_SessionId h \<noteq> [] \<and>
          ValidateContract (cfg_Cluster config) (hello_NodeGroup h) (hello_ConfigDigest h) (hello_Services h) = None \<and>
          nul_free_names (hello_Services h) \<and> validDelegatedPrefix (rn_prefix node) \<and>
          ParsePrefix (hello_Ipv6Prefix h) = Some (rn_prefix node) \<and>
          (case rn_state node of
             None \<Rightarrow> True
           | Some st \<Rightarrow>
               ns_SessionId st = hello_SessionId h \<and> ns_ConfigDigest st = hello_ConfigDigest h \<and>
               ValidateNodeState (hello_NodeGroup h) (hello_Services h) (Some st) = None \<and>
               first_err (outside_prefix (rn_prefix node)) (ns_Endpoints st) = None))"

definition compatible :: "Hello \<Rightarrow> Hello \<Rightarrow> bool" where
  "compatible h k \<longleftrightarrow>
     (if hello_NodeGroup h = hello_NodeGroup k
      then hello_ConfigDigest h = hello_ConfigDigest k \<and> hello_Services h = hello_Services k
      else \<not> contractsOverlap (hello_Services h) (hello_Services k))"

definition node_hello :: "(string \<times> receivedNode) list \<Rightarrow> string \<Rightarrow> Hello option" where
  "node_hello nodes nid = Option.bind (map_of nodes nid) rn_hello"

definition nodes_inv :: "Config \<Rightarrow> (string \<times> receivedNode) list \<Rightarrow> bool" where
  "nodes_inv config nodes \<longleftrightarrow> distinct (map fst nodes) \<and>
     (\<forall>nid node. map_of nodes nid = Some node \<longrightarrow> admitted_node config nid node) \<and>
     (\<forall>i j h k. i \<noteq> j \<longrightarrow> node_hello nodes i = Some h \<longrightarrow> node_hello nodes j = Some k \<longrightarrow> compatible h k)"

definition sessions_inv :: "(string \<times> receivedNode) list \<Rightarrow> (string \<times> string) list \<Rightarrow> bool" where
  "sessions_inv nodes sessions \<longleftrightarrow> distinct (map fst sessions) \<and>
     (\<forall>s nid. map_of sessions s = Some nid \<longrightarrow>
        (\<exists>h. node_hello nodes nid = Some h \<and> hello_SessionId h = s))"

definition coordinator_inv :: "'d Coordinator \<Rightarrow> bool" where
  "coordinator_inv c \<longleftrightarrow>
     nodes_inv (co_config c) (co_nodes c) \<and> sessions_inv (co_nodes c) (co_sessions c)"

lemma coordinator_inv_same: "same_nodes c c' \<Longrightarrow> coordinator_inv c' \<longleftrightarrow> coordinator_inv c"
  by (simp add: same_nodes_def coordinator_inv_def)

lemma node_hello_simps [simp]:
  "node_hello [] i = None"
  "distinct (map fst nodes) \<Longrightarrow> node_hello (AList.delete j nodes) i = (if i = j then None else node_hello nodes i)"
  "node_hello (AList.update j n nodes) i = (if i = j then rn_hello n else node_hello nodes i)"
  by (simp_all add: node_hello_def delete_conv' update_conv')

lemma contractsOverlap_sym: "contractsOverlap xs ys \<longleftrightarrow> contractsOverlap ys xs"
  by (auto simp: contractsOverlap_def list_ex_iff Let_def image_iff) metis+

lemma compatible_sym: "compatible h k \<longleftrightarrow> compatible k h"
  using contractsOverlap_sym by (auto simp: compatible_def)

lemma hello_conflict_None:
  "hello_conflict h (i, n) = None \<longleftrightarrow>
    (case rn_hello n of None \<Rightarrow> True | Some k \<Rightarrow> i = hello_NodeId h \<or> compatible k h)"
  by (auto simp: hello_conflict_def compatible_def split: option.split)

subsection \<open>Removing a node\<close>

lemma nodes_inv_delete: "nodes_inv config nodes \<Longrightarrow> nodes_inv config (AList.delete nid nodes)"
  by (auto simp: nodes_inv_def distinct_delete delete_conv')

lemma inv_delete:
  assumes "nodes_inv config nodes" and "sessions_inv nodes sessions"
    and "node_hello nodes nid = Some h"
  shows "sessions_inv (AList.delete nid nodes) (AList.delete (hello_SessionId h) sessions)"
proof -
  have "i \<noteq> nid" if "map_of sessions s = Some i" "s \<noteq> hello_SessionId h" for s i
    using assms(2,3) that unfolding sessions_inv_def by (metis option.inject)
  then show ?thesis
    using assms by (auto simp: sessions_inv_def nodes_inv_def distinct_delete delete_conv')
qed

lemma sessions_inv_delete: "sessions_inv nodes sessions \<Longrightarrow> sessions_inv nodes (AList.delete s sessions)"
  by (auto simp: sessions_inv_def distinct_delete delete_conv')

subsection \<open>Messages\<close>

lemma outside_prefix_None:
  "outside_prefix p (Some e) = None \<longleftrightarrow> (\<exists>a. ParseAddr (ep_Address e) = Some a \<and> prefix_Contains p a)"
  by (auto simp: outside_prefix_def split: option.split)

lemma nodes_inv_update:
  assumes "nodes_inv config nodes" and "admitted_node config nid node"
    and "\<And>i k. i \<noteq> nid \<Longrightarrow> node_hello nodes i = Some k \<Longrightarrow> compatible k (the (rn_hello node))"
  shows "nodes_inv config (AList.update nid node nodes)"
  using assms compatible_sym
  by (auto simp: nodes_inv_def distinct_update update_conv' split: if_splits) (metis option.sel)+

lemma admit_hello_ok:
  assumes "admit_hello env hello0 local c = Inr (h, p)"
  shows "hello_NodeId h \<noteq> []" "hello_Cluster h = cfg_Cluster (co_config c)" "hello_SessionId h \<noteq> []"
    "ValidateContract (cfg_Cluster (co_config c)) (hello_NodeGroup h) (hello_ConfigDigest h) (hello_Services h) = None"
    "ParsePrefix (hello_Ipv6Prefix h) = Some p" "validDelegatedPrefix p"
    "first_err (hello_conflict h) (co_nodes c) = None"
    "\<not> local \<Longrightarrow> he_peer env = Inr (hello_NodeId h, hello_NodeGroup h)"
    "hello_Services h = hello_Services hello0" "hello_NodeId h = hello_NodeId hello0"
    "hello_SessionId h = hello_SessionId hello0"
proof -
  let ?h = "if local \<and> hello_Ipv6Prefix hello0 = []
      then hello0\<lparr>hello_Ipv6Prefix := prefix_String (cfg_IPv6Prefix (co_config c))\<rparr> else hello0"
  have h: "h = ?h" and guard: "hello_NodeId hello0 \<noteq> []" "hello_Cluster hello0 = cfg_Cluster (co_config c)"
    "hello_SessionId hello0 \<noteq> []"
    "ValidateContract (cfg_Cluster (co_config c)) (hello_NodeGroup hello0) (hello_ConfigDigest hello0)
       (hello_Services hello0) = None"
    and rest: "ParsePrefix (hello_Ipv6Prefix ?h) = Some p" "validDelegatedPrefix p"
    "first_err (hello_conflict ?h) (co_nodes c) = None"
    "\<not> local \<Longrightarrow> he_peer env = Inr (hello_NodeId ?h, hello_NodeGroup ?h)"
    using assms unfolding admit_hello_def Let_def
    by (simp_all only: split: if_split_asm option.split_asm) auto
  have f: "hello_NodeId ?h = hello_NodeId hello0" "hello_Cluster ?h = hello_Cluster hello0"
    "hello_SessionId ?h = hello_SessionId hello0" "hello_NodeGroup ?h = hello_NodeGroup hello0"
    "hello_ConfigDigest ?h = hello_ConfigDigest hello0" "hello_Services ?h = hello_Services hello0"
    by simp_all
  show "hello_NodeId h \<noteq> []" "hello_Cluster h = cfg_Cluster (co_config c)" "hello_SessionId h \<noteq> []"
    "ValidateContract (cfg_Cluster (co_config c)) (hello_NodeGroup h) (hello_ConfigDigest h) (hello_Services h) = None"
    "hello_Services h = hello_Services hello0" "hello_NodeId h = hello_NodeId hello0"
    "hello_SessionId h = hello_SessionId hello0"
    unfolding h f by (fact guard refl)+
  show "ParsePrefix (hello_Ipv6Prefix h) = Some p" "validDelegatedPrefix p"
    "first_err (hello_conflict h) (co_nodes c) = None" unfolding h by (fact rest)+
  show "he_peer env = Inr (hello_NodeId h, hello_NodeGroup h)" if "\<not> local" unfolding h by (rule rest(4)[OF that])
qed

lemma store_hello_inv:
  assumes "coordinator_inv c" and "admitted_node (co_config c) (hello_NodeId h)
      \<lparr>rn_hello = Some h, rn_state = None, rn_received = now, rn_prefix = p\<rparr>"
    and "first_err (hello_conflict h) (co_nodes c) = None"
  shows "coordinator_inv (store_hello now h p c)"
proof -
  let ?node = "\<lparr>rn_hello = Some h, rn_state = None, rn_received = now, rn_prefix = p\<rparr>"
  let ?nid = "hello_NodeId h"
  have inv: "nodes_inv (co_config c) (co_nodes c)" "sessions_inv (co_nodes c) (co_sessions c)"
    using assms(1) by (simp_all add: coordinator_inv_def)
  have "compatible k h" if "i \<noteq> ?nid" "node_hello (co_nodes c) i = Some k" for i k
  proof -
    from that(2) obtain n where n: "map_of (co_nodes c) i = Some n" "rn_hello n = Some k"
      by (auto simp: node_hello_def bind_eq_Some_conv)
    with assms(3) have "hello_conflict h (i, n) = None" by (auto dest: map_of_SomeD)
    with n that(1) show ?thesis by (simp add: hello_conflict_None)
  qed
  then have nodes: "nodes_inv (co_config c) (AList.update ?nid ?node (co_nodes c))"
    using inv(1) assms(2) by (intro nodes_inv_update) simp_all
  define sessions where "sessions = (case node_hello (co_nodes c) ?nid of
      Some k \<Rightarrow> AList.delete (hello_SessionId k) (co_sessions c) | None \<Rightarrow> co_sessions c)"
  have d: "distinct (map fst sessions)"
    using inv(2) by (auto simp: sessions_inv_def sessions_def distinct_delete split: option.split)
  have old: "i \<noteq> ?nid \<and> (\<exists>k. node_hello (co_nodes c) i = Some k \<and> hello_SessionId k = s)"
    if m: "map_of sessions s = Some i" for s i
  proof -
    from m have "map_of (co_sessions c) s = Some i"
      by (simp add: sessions_def delete_conv' split: option.splits if_splits)
    then obtain k where k: "node_hello (co_nodes c) i = Some k" "hello_SessionId k = s"
      using inv(2) unfolding sessions_inv_def by blast
    with m have "i \<noteq> ?nid" by (auto simp: sessions_def delete_conv')
    with k show ?thesis by blast
  qed
  then have "sessions_inv (AList.update ?nid ?node (co_nodes c)) (AList.update (hello_SessionId h) ?nid sessions)"
    unfolding sessions_inv_def using d
    by (auto simp: distinct_update update_conv' simp del: map_of_eq_Some_iff split: if_splits)
  moreover have "store_hello now h p c = c\<lparr>co_sessions := AList.update (hello_SessionId h) ?nid sessions,
      co_nodes := AList.update ?nid ?node (co_nodes c)\<rparr>"
    by (simp add: store_hello_def sessions_def node_hello_def Let_def split: option.split)
  ultimately show ?thesis using nodes by (simp add: coordinator_inv_def)
qed

lemma handle_hello_inv:
  assumes "coordinator_inv c" and "nul_free_names (hello_Services hello)"
  shows "coordinator_inv (snd (handle_hello env hello local c))"
proof (cases "admit_hello env hello local c")
  case (Inr hp)
  obtain h p where hp: "hp = (h, p)" by fastforce
  note ok = admit_hello_ok[OF Inr[unfolded hp]]
  have "admitted_node (co_config c) (hello_NodeId h)
      \<lparr>rn_hello = Some h, rn_state = None, rn_received = he_now env, rn_prefix = p\<rparr>"
    using ok assms(2) by (simp add: admitted_node_def)
  from store_hello_inv[OF assms(1) this ok(7)] show ?thesis
    by (simp add: handle_hello_def Inr hp Let_def)
qed (use assms in \<open>simp add: handle_hello_def\<close>)

lemma session_node_Some:
  assumes "session_node session c = Some (nid, old, hello)"
  shows "map_of (co_nodes c) nid = Some old" "rn_hello old = Some hello" "hello_SessionId hello = session" "nid \<noteq> []"
    "node_hello (co_nodes c) nid = Some hello"
  using assms by (auto simp: session_node_def Let_def node_hello_def split: option.splits if_splits)

lemma remove_node_inv:
  assumes "coordinator_inv c" and "node_hello (co_nodes c) nid = Some hello"
  shows "coordinator_inv (c\<lparr>co_sessions := AList.delete (hello_SessionId hello) (co_sessions c),
    co_nodes := AList.delete nid (co_nodes c)\<rparr>)"
  using assms inv_delete[of "co_config c" "co_nodes c" "co_sessions c" nid hello] nodes_inv_delete
  by (simp add: coordinator_inv_def)

lemma store_state_inv:
  assumes "coordinator_inv c" and "map_of (co_nodes c) nid = Some old" and "rn_hello old = Some hello"
    and "ns_SessionId state = hello_SessionId hello" and "ns_ConfigDigest state = hello_ConfigDigest hello"
    and "ValidateNodeState (hello_NodeGroup hello) (hello_Services hello) (Some state) = None"
    and "first_err (outside_prefix (rn_prefix old)) (ns_Endpoints state) = None"
  shows "coordinator_inv (c\<lparr>co_nodes := AList.update nid
    (old\<lparr>rn_state := Some state, rn_received := now\<rparr>) (co_nodes c)\<rparr>)"
proof -
  let ?node = "old\<lparr>rn_state := Some state, rn_received := now\<rparr>"
  have inv: "nodes_inv (co_config c) (co_nodes c)" "sessions_inv (co_nodes c) (co_sessions c)"
    using assms(1) by (simp_all add: coordinator_inv_def)
  have hello: "node_hello (AList.update nid ?node (co_nodes c)) i = node_hello (co_nodes c) i" for i
    using assms(2,3) by (simp add: node_hello_def update_conv')
  have "admitted_node (co_config c) nid old" using inv(1) assms(2) unfolding nodes_inv_def by blast
  then have admitted: "admitted_node (co_config c) nid ?node"
    using assms(3-7) by (simp add: admitted_node_def)
  have "compatible k hello" if "i \<noteq> nid" "node_hello (co_nodes c) i = Some k" for i k
    using inv(1) that assms(2,3) unfolding nodes_inv_def
    by (metis bind_eq_Some_conv node_hello_def)
  then have "nodes_inv (co_config c) (AList.update nid ?node (co_nodes c))"
    using inv(1) admitted assms(3) by (intro nodes_inv_update) simp_all
  moreover have "sessions_inv (AList.update nid ?node (co_nodes c)) (co_sessions c)"
    using inv(2) unfolding sessions_inv_def hello by blast
  ultimately show ?thesis by (simp add: coordinator_inv_def)
qed

lemma publish_inv: "coordinator_inv (snd (publish ops env c)) \<longleftrightarrow> coordinator_inv c"
  by (rule coordinator_inv_same[OF publish_same_nodes])

lemma handle_state_inv:
  assumes "coordinator_inv c"
  shows "coordinator_inv (snd (handle_state ops env state c))"
proof (cases "session_node (ns_SessionId state) c")
  case (Some t)
  obtain nid old hello where t: "t = (nid, old, hello)" by (cases t)
  note node = session_node_Some[OF Some[unfolded t]]
  let ?removed = "c\<lparr>co_sessions := AList.delete (ns_SessionId state) (co_sessions c),
      co_nodes := AList.delete nid (co_nodes c)\<rparr>"
  let ?stored = "c\<lparr>co_nodes := AList.update nid
      (old\<lparr>rn_state := Some state, rn_received := he_now env\<rparr>) (co_nodes c)\<rparr>"
  have removed: "coordinator_inv ?removed"
    using remove_node_inv[OF assms node(5)] by (simp add: node(3))
  show ?thesis
  proof (cases "hello_ConfigDigest hello = ns_ConfigDigest state
      \<and> ValidateNodeState (hello_NodeGroup hello) (hello_Services hello) (Some state) = None
      \<and> first_err (outside_prefix (rn_prefix old)) (ns_Endpoints state) = None")
    case True
    then have "coordinator_inv ?stored"
      using node by (intro store_state_inv[OF assms node(1,2)]) (auto simp del: first_err_None)
    with True Some t assms publish_inv[of ops "he_publish env" ?stored] show ?thesis
      by (cases "publish ops (he_publish env) ?stored")
        (auto simp: handle_state_def Let_def simp del: first_err_None split: option.split)
  next
    case False
    with Some t assms removed publish_inv[of ops "he_publish env" ?removed] show ?thesis
      by (cases "publish ops (he_publish env) ?removed")
        (auto simp: handle_state_def Let_def simp del: first_err_None split: option.split)
  qed
qed (use assms in \<open>simp add: handle_state_def\<close>)

lemma handle_drain_inv:
  assumes "coordinator_inv c"
  shows "coordinator_inv (snd (handle_drain ops env d c))"
proof -
  let ?nid = "case map_of (co_sessions c) (drain_SessionId d) of Some i \<Rightarrow> i | None \<Rightarrow> []"
  let ?nodes = "case Option.bind (map_of (co_nodes c) ?nid) rn_hello of
      Some hello \<Rightarrow> if hello_SessionId hello = drain_SessionId d
                    then AList.delete ?nid (co_nodes c) else co_nodes c
    | None \<Rightarrow> co_nodes c"
  let ?c = "c\<lparr>co_sessions := AList.delete (drain_SessionId d) (co_sessions c), co_nodes := ?nodes\<rparr>"
  have "coordinator_inv ?c"
  proof (cases "node_hello (co_nodes c) ?nid")
    case None
    then show ?thesis
      using assms sessions_inv_delete by (simp add: coordinator_inv_def node_hello_def)
  next
    case (Some hello)
    with assms remove_node_inv[OF assms Some] sessions_inv_delete show ?thesis
      by (auto simp: coordinator_inv_def node_hello_def)
  qed
  with publish_inv[of ops "he_publish env" ?c] show ?thesis
    by (cases "publish ops (he_publish env) ?c") (auto simp: handle_drain_def Let_def split: option.split)
qed

lemma handle_inv:
  assumes "coordinator_inv c"
    and "\<And>h. message = CM_Hello h \<Longrightarrow> nul_free_names (hello_Services h)"
  shows "coordinator_inv (snd (handle ops env message local c))"
  using assms handle_hello_inv[OF assms(1)] handle_state_inv[OF assms(1)] handle_drain_inv[OF assms(1)]
  by (auto simp: handle_def split: ClientMessage.split)

subsection \<open>Expiry, drain and acquisition\<close>

lemma expire_fold_inv:
  assumes "coordinator_inv c" and "distinct (map fst xs)"
    and "\<And>i n. (i, n) \<in> set xs \<Longrightarrow> map_of (co_nodes c) i = Some n"
  shows "coordinator_inv (fold (\<lambda>(nid, node) c. if expired now node
             then c\<lparr>co_sessions := AList.delete (hello_SessionId (the (rn_hello node))) (co_sessions c),
                    co_nodes := AList.delete nid (co_nodes c)\<rparr>
             else c) xs c)"
  using assms
proof (induction xs arbitrary: c)
  case (Cons x xs)
  obtain i n where x: "x = (i, n)" by fastforce
  have n: "map_of (co_nodes c) i = Some n" using Cons.prems(3) x by simp
  then have "admitted_node (co_config c) i n"
    using Cons.prems(1) unfolding coordinator_inv_def nodes_inv_def by blast
  then obtain h where "rn_hello n = Some h" by (auto simp: admitted_node_def split: option.splits)
  with n have h: "rn_hello n = Some h" "node_hello (co_nodes c) i = Some h" by (simp_all add: node_hello_def)
  have fresh: "j \<noteq> i" if "(j, m) \<in> set xs" for j m
    using Cons.prems(2) x that by force
  show ?case
  proof (cases "expired now n")
    case True
    have *: "coordinator_inv (c\<lparr>co_sessions := AList.delete (hello_SessionId h) (co_sessions c),
        co_nodes := AList.delete i (co_nodes c)\<rparr>)" by (rule remove_node_inv[OF Cons.prems(1) h(2)])
    have "map_of (AList.delete i (co_nodes c)) j = Some m" if "(j, m) \<in> set xs" for j m
      using Cons.prems(3)[of j m] fresh[OF that] that by (simp add: delete_conv')
    with Cons.IH[OF *] Cons.prems(2) True x h show ?thesis by simp
  next
    case False
    with Cons x show ?thesis by auto
  qed
qed simp

lemma expire_nodes_inv: "coordinator_inv c \<Longrightarrow> coordinator_inv (expire_nodes now c)"
  unfolding expire_nodes_def
  by (rule expire_fold_inv) (auto simp: coordinator_inv_def nodes_inv_def)

lemma expireAndPublish_inv: "coordinator_inv c \<Longrightarrow> coordinator_inv (snd (expireAndPublish ops now env c))"
  by (simp add: expireAndPublish_def publish_inv expire_nodes_inv)

lemma drain_fold_inv:
  assumes "coordinator_inv c" and "distinct (map fst xs)"
    and "\<And>s i. (s, i) \<in> set xs \<Longrightarrow> map_of (co_sessions c) s = Some i"
  shows "coordinator_inv (fold (\<lambda>(session, nid) c. if nid = cfg_NodeID (co_config c)
                then c\<lparr>co_sessions := AList.delete session (co_sessions c),
                       co_nodes := AList.delete nid (co_nodes c)\<rparr>
                else c) xs c)"
  using assms
proof (induction xs arbitrary: c)
  case (Cons x xs)
  obtain s i where x: "x = (s, i)" by fastforce
  then obtain h where h: "node_hello (co_nodes c) i = Some h" "hello_SessionId h = s"
    using Cons.prems(1) Cons.prems(3)[of s i] unfolding coordinator_inv_def sessions_inv_def by (auto simp del: map_of_eq_Some_iff)
  show ?case
  proof (cases "i = cfg_NodeID (co_config c)")
    case True
    have *: "coordinator_inv (c\<lparr>co_sessions := AList.delete s (co_sessions c),
        co_nodes := AList.delete i (co_nodes c)\<rparr>)" using remove_node_inv[OF Cons.prems(1) h(1)] h(2) by simp
    have "map_of (AList.delete s (co_sessions c)) r = Some j" if "(r, j) \<in> set xs" for r j
      using Cons.prems(2) Cons.prems(3)[of r j] that x by (force simp: delete_conv')
    with Cons.IH[OF *] Cons.prems(2) True x show ?thesis by simp
  next
    case False
    with Cons x show ?thesis by auto
  qed
qed simp

lemma drain_local_inv: "coordinator_inv c \<Longrightarrow> coordinator_inv (drain_local ops env c)"
  unfolding drain_local_def forget_local_def publish_inv
  by (rule drain_fold_inv) (auto simp: coordinator_inv_def sessions_inv_def)

lemma fresh_inv: "coordinator_inv (c\<lparr>co_generation := g, co_nodes := [], co_sessions := []\<rparr>)"
  by (simp add: coordinator_inv_def nodes_inv_def sessions_inv_def)

lemma acquire_finish_inv: "coordinator_inv (snd (acquire_finish ops now sn c))"
proof -
  let ?c = "c\<lparr>co_generation := sn_Generation sn, co_nodes := [], co_sessions := []\<rparr>"
  obtain e c' where a: "coordinator_apply ops now sn ?c = (e, c')" by fastforce
  with apply_same_nodes[of ?c ops now sn] fresh_inv[of "sn_Generation sn" c] have "coordinator_inv c'"
    using coordinator_inv_same by fastforce
  then have "coordinator_inv (c'\<lparr>co_leaderReady := True\<rparr>)" by (simp add: coordinator_inv_def)
  with \<open>coordinator_inv c'\<close> a show ?thesis by (cases e) (simp_all add: acquire_finish_def)
qed

lemma acquire_loop_inv: "coordinator_inv c \<Longrightarrow> coordinator_inv (snd (acquire_loop ops now n envs c))"
  by (induction ops now n envs c rule: acquire_loop.induct)
    (auto simp: acquire_finish_inv split: sum.split option.split)

lemma acquire_inv: "coordinator_inv c \<Longrightarrow> coordinator_inv (snd (acquire ops now envs c))"
  by (simp add: acquire_def acquire_loop_inv)

section \<open>The admitted nodes are peers that can be merged\<close>

lemma valid_state_nil_free:
  assumes "ValidateNodeState g contract (Some st) = None"
  shows "list_all nil_free_endpoint (ns_Endpoints st)"
  using assms
  by (fastforce simp: ValidateNodeState_iff list_all_iff valid_endpoint_def nil_free_endpoint_def)

lemma admitted_nodes_peers:
  assumes "coordinator_inv c"
  shows "admitted_peers (cfg_Cluster (co_config c)) (peers_of (co_nodes c))"
proof -
  let ?cluster = "cfg_Cluster (co_config c)" and ?peers = "peers_of (co_nodes c)"
  have nodes: "nodes_inv (co_config c) (co_nodes c)" using assms by (simp add: coordinator_inv_def)
  then have d: "distinct (map fst (co_nodes c))" by (simp add: nodes_inv_def)
  have node: "\<exists>i n. map_of (co_nodes c) i = Some n \<and> admitted_node (co_config c) i n \<and>
      p = \<lparr>peer_Hello = rn_hello n, peer_State = rn_state n\<rparr>" if "p \<in> set ?peers" for p
  proof -
    from that obtain i n where "(i, n) \<in> set (co_nodes c)" and p: "p = \<lparr>peer_Hello = rn_hello n, peer_State = rn_state n\<rparr>"
      by (auto simp: peers_of_def)
    with d have "map_of (co_nodes c) i = Some n" by simp
    with nodes p show ?thesis unfolding nodes_inv_def by blast
  qed
  have hello: "\<exists>i. node_hello (co_nodes c) i = Some h" if "h \<in> hellos ?peers" for h
  proof -
    from that obtain p where "p \<in> set ?peers" "peer_Hello p = Some h" by (auto simp: hellos_def)
    moreover from this(1) obtain i n where "map_of (co_nodes c) i = Some n"
      "p = \<lparr>peer_Hello = rn_hello n, peer_State = rn_state n\<rparr>" using node by blast
    ultimately have "node_hello (co_nodes c) i = Some h" by (simp add: node_hello_def)
    then show ?thesis ..
  qed
  have valid: "ValidateContract ?cluster (hello_NodeGroup h) (hello_ConfigDigest h) (hello_Services h) = None
      \<and> nul_free_names (hello_Services h)" if "h \<in> hellos ?peers" for h
  proof -
    from that obtain p where "p \<in> set ?peers" "peer_Hello p = Some h" by (auto simp: hellos_def)
    with node[of p] show ?thesis by (auto simp: admitted_node_def)
  qed
  have state: "list_all nil_free_endpoint (ns_Endpoints st) \<and> (\<exists>h. peer_Hello p = Some h \<and>
      ValidateNodeState (hello_NodeGroup h) (hello_Services h) (Some st) = None)"
    if "p \<in> set ?peers" "peer_State p = Some st" for p st
  proof -
    from node[OF that(1)] that(2) obtain h where "peer_Hello p = Some h"
      "ValidateNodeState (hello_NodeGroup h) (hello_Services h) (Some st) = None"
      by (auto simp: admitted_node_def split: option.splits)
    with valid_state_nil_free show ?thesis by blast
  qed
  have pair: "h = k \<or> compatible h k" if "h \<in> hellos ?peers" "k \<in> hellos ?peers" for h k
    using hello[OF that(1)] hello[OF that(2)] nodes unfolding nodes_inv_def by (metis option.inject)
  have disjoint: "(identity \<circ> the) ` set (hello_Services h) \<inter> (identity \<circ> the) ` set (hello_Services k) = {}"
    if "h \<in> hellos ?peers" "k \<in> hellos ?peers" "hello_NodeGroup h \<noteq> hello_NodeGroup k" for h k
    using pair[OF that(1,2)] that(3) by (auto simp: compatible_def contractsOverlap_def Let_def list_ex_iff) (metis image_eqI)
  have same: "hello_ConfigDigest h = hello_ConfigDigest k \<and> hello_Services h = hello_Services k"
    if "h \<in> hellos ?peers" "k \<in> hellos ?peers" "hello_NodeGroup h = hello_NodeGroup k" for h k
    using pair[OF that(1,2)] that(3) by (auto simp: compatible_def)
  have "consistent_peers ?cluster ?peers"
    unfolding consistent_peers_def using valid same disjoint state by blast
  moreover have "ValidID (hello_NodeGroup h)" if "h \<in> hellos ?peers" for h
    using valid[OF that] by (simp add: ValidateContract_iff)
  ultimately show ?thesis
    unfolding admitted_peers_def using valid state by (metis option.inject)
qed

section \<open>Transitions\<close>

definition names_ok :: "ClientMessage \<Rightarrow> bool" where
  "names_ok message = (case message of CM_Hello h \<Rightarrow> nul_free_names (hello_Services h) | _ \<Rightarrow> True)"

text \<open>
  One operation of the coordinator, whatever the storage, the elector, the clock and the
  peers answer. The controller changes its desired Services and Pods on its own.
\<close>

inductive coordinator_step :: "'d coordinator_ops \<Rightarrow> 'd Coordinator \<Rightarrow> 'd Coordinator \<Rightarrow> bool"
  for ops :: "'d coordinator_ops" where
  step_handle: "names_ok message \<Longrightarrow> coordinator_step ops c (snd (handle ops env message local c))"
| step_expire: "coordinator_step ops c (snd (expireAndPublish ops now env c))"
| step_acquire: "coordinator_step ops c (snd (acquire ops now envs c))"
| step_load: "coordinator_step ops c (snd (LoadSnapshot ops got now c))"
| step_follow: "coordinator_step ops c (snd (follow_message ops now message c))"
| step_stale: "coordinator_step ops c (clearStale ops now c)"
| step_transition: "coordinator_step ops c (snd (applyLocalTransition ops c))"
| step_drain: "coordinator_step ops c (drain_local ops env c)"
| step_session: "coordinator_step ops c (c\<lparr>co_localSession := s, co_localSequence := n\<rparr>)"
| step_elected: "coordinator_step ops c (c\<lparr>co_wasLeader := True\<rparr>)"
| step_deposed: "coordinator_step ops c (c\<lparr>co_wasLeader := False, co_leaderReady := False\<rparr>)"
| step_fatal: "coordinator_step ops c (c\<lparr>co_fatal := None\<rparr>)"
| step_services: "coordinator_step ops c (c\<lparr>co_controller := SetServices services (co_controller c)\<rparr>)"
| step_pods: "coordinator_step ops c (c\<lparr>co_controller := SetPods pods (co_controller c)\<rparr>)"
| step_subscribe: "coordinator_step ops c (coordinator_Subscribe ch c)"
| step_unsubscribe: "coordinator_step ops c (coordinator_Unsubscribe ch c)"

inductive_cases coordinator_stepE: "coordinator_step ops c c'"

abbreviation coordinator_steps :: "'d coordinator_ops \<Rightarrow> 'd Coordinator \<Rightarrow> 'd Coordinator \<Rightarrow> bool" where
  "coordinator_steps ops \<equiv> (coordinator_step ops)\<^sup>*\<^sup>*"

lemma coordinator_step_inv:
  assumes "coordinator_step ops c c'" and "coordinator_inv c"
  shows "coordinator_inv c'"
  using assms
proof (induction rule: coordinator_step.induct)
  case (step_handle message c env local)
  then show ?case by (intro handle_inv) (simp_all add: names_ok_def)
next
  case (step_follow c now message)
  then show ?case
    using apply_same_nodes coordinator_inv_same by (fastforce simp: follow_message_def split: ServerMessage.split)
qed (simp_all add: expireAndPublish_inv acquire_inv drain_local_inv
    coordinator_inv_same[OF LoadSnapshot_same_nodes] coordinator_inv_same[OF clearStale_same_nodes]
    coordinator_inv_same[OF transition_same_nodes], simp_all add: coordinator_inv_def
    coordinator_Subscribe_def coordinator_Unsubscribe_def)

lemma coordinator_steps_inv:
  "coordinator_steps ops c c' \<Longrightarrow> coordinator_inv c \<Longrightarrow> coordinator_inv c'"
  by (induction rule: rtranclp_induct) (auto intro: coordinator_step_inv)

lemma coordinator_New_inv: "coordinator_New config controller = Inr c \<Longrightarrow> coordinator_inv c"
  by (auto simp: coordinator_New_def coordinator_inv_def nodes_inv_def sessions_inv_def split: if_splits)

section \<open>Applied snapshots only advance\<close>

definition advances :: "Snapshot option \<Rightarrow> Snapshot option \<Rightarrow> bool" where
  "advances old new \<longleftrightarrow> new = old \<or> (\<exists>s. new = Some s \<and> \<not> stale_snapshot s old)"

lemma advances_refl [simp]: "advances s s"
  by (simp add: advances_def)

lemma advances_trans: "advances a b \<Longrightarrow> advances b c \<Longrightarrow> advances a c"
proof -
  have "\<not> stale_snapshot t (Some s) \<Longrightarrow> \<not> stale_snapshot s a \<Longrightarrow> \<not> stale_snapshot t a" for s t
    by (cases a) (auto simp: stale_snapshot_def)
  moreover assume "advances a b" and "advances b c"
  ultimately show ?thesis unfolding advances_def by metis
qed

lemma apply_advances: "advances (co_snapshot c) (co_snapshot (snd (coordinator_apply ops now sn c)))"
  by (auto simp: coordinator_apply_def advances_def cloneSnapshot_def split: option.splits prod.split)

lemma publish_finish_advances: "advances (co_snapshot c) (co_snapshot (snd (publish_finish ops now sn c)))"
  using apply_advances[of c ops now sn]
  by (auto simp: publish_finish_def broadcast_def split: prod.split option.split)

lemma publish_advances: "advances (co_snapshot c) (co_snapshot (snd (publish ops env c)))"
  using publish_finish_advances by (auto simp: publish_def split: sum.split option.split)

lemma expire_nodes_frame:
  "co_snapshot (expire_nodes now c) = co_snapshot c \<and> co_controller (expire_nodes now c) = co_controller c
   \<and> co_config (expire_nodes now c) = co_config c"
proof -
  have "co_snapshot (fold f xs c) = co_snapshot c \<and> co_controller (fold f xs c) = co_controller c
      \<and> co_config (fold f xs c) = co_config c"
    if "\<And>x c. co_snapshot (f x c) = co_snapshot c \<and> co_controller (f x c) = co_controller c \<and> co_config (f x c) = co_config c"
    for f :: "'x \<Rightarrow> 'b Coordinator \<Rightarrow> 'b Coordinator" and xs c
    using that by (induction xs arbitrary: c) auto
  from this[of "\<lambda>(nid, node) c. if expired now node
             then c\<lparr>co_sessions := AList.delete (hello_SessionId (the (rn_hello node))) (co_sessions c),
                    co_nodes := AList.delete nid (co_nodes c)\<rparr> else c" "co_nodes c" c]
  show ?thesis unfolding expire_nodes_def by (auto split: prod.split)
qed

lemma forget_local_snapshot [simp]: "co_snapshot (forget_local c) = co_snapshot c"
proof -
  have "co_snapshot (fold (\<lambda>(session, nid) c. if nid = cfg_NodeID (co_config c)
      then c\<lparr>co_sessions := AList.delete session (co_sessions c), co_nodes := AList.delete nid (co_nodes c)\<rparr>
      else c) xs c) = co_snapshot c" for xs and c :: "'a Coordinator"
    by (induction xs arbitrary: c) auto
  then show ?thesis by (simp add: forget_local_def)
qed

lemma acquire_advances: "advances (co_snapshot c) (co_snapshot (snd (acquire ops now envs c)))"
proof -
  have fin: "advances (co_snapshot c) (co_snapshot (snd (acquire_finish ops now sn c)))"
    for ops now sn and c :: "'a Coordinator"
    using apply_advances[of "c\<lparr>co_generation := sn_Generation sn, co_nodes := [], co_sessions := []\<rparr>" ops now sn]
    by (auto simp: acquire_finish_def split: prod.split option.split)
  have "advances (co_snapshot c) (co_snapshot (snd (acquire_loop ops now n envs c)))" for n
    by (induction ops now n envs c rule: acquire_loop.induct) (auto simp: fin split: sum.split option.split)
  then show ?thesis by (simp add: acquire_def)
qed

lemma handle_state_advances: "advances (co_snapshot c) (co_snapshot (snd (handle_state ops env state c)))"
proof (cases "session_node (ns_SessionId state) c")
  case (Some t)
  obtain nid old hello where t: "t = (nid, old, hello)" by (cases t)
  let ?pub = "\<lambda>c'. publish ops (he_publish env) c'"
  have "advances (co_snapshot c) (co_snapshot (snd (?pub (c\<lparr>co_sessions := ss, co_nodes := ns\<rparr>))))"
    "advances (co_snapshot c) (co_snapshot (snd (?pub (c\<lparr>co_nodes := ns\<rparr>))))" for ss ns
    using publish_advances[of "c\<lparr>co_sessions := ss, co_nodes := ns\<rparr>"] publish_advances[of "c\<lparr>co_nodes := ns\<rparr>"] by simp_all
  then show ?thesis
    unfolding handle_state_def Let_def Some t
    by (auto simp del: first_err_None split: option.split prod.split) (metis snd_conv)+
qed (simp add: handle_state_def)

lemma handle_advances: "advances (co_snapshot c) (co_snapshot (snd (handle ops env message local c)))"
proof -
  have "advances (co_snapshot c) (co_snapshot (snd (handle_drain ops env d c)))" for d
  proof -
    have p: "advances (co_snapshot c) (co_snapshot (snd (publish ops (he_publish env) (c\<lparr>co_sessions := ss, co_nodes := ns\<rparr>))))"
      for ss ns using publish_advances[of "c\<lparr>co_sessions := ss, co_nodes := ns\<rparr>" ops "he_publish env"] by simp
    have q: "snd (case r of (Some e, c) \<Rightarrow> (Inl e, c) | (None, c) \<Rightarrow> (Inr [], c)) = snd r"
      for r :: "error option \<times> 'a Coordinator" by (auto split: prod.split option.split)
    show ?thesis unfolding handle_drain_def Let_def q by (rule p)
  qed
  moreover have "co_snapshot (snd (handle_hello env h local c)) = co_snapshot c" for h
    by (auto simp: handle_hello_def store_hello_def Let_def split: sum.split)
  ultimately show ?thesis
    using handle_state_advances by (auto simp: handle_def split: ClientMessage.split)
qed

lemma coordinator_step_advances:
  assumes "coordinator_step ops c c'"
  shows "advances (co_snapshot c) (co_snapshot c')"
  using assms
proof (induction rule: coordinator_step.induct)
  case (step_expire c now env)
  then show ?case
    using publish_advances[of "expire_nodes now c" ops env] expire_nodes_frame[of now c]
    by (simp add: expireAndPublish_def)
next
  case (step_load c got now)
  show ?case using apply_advances by (auto simp: LoadSnapshot_def Let_def split: sum.split)
next
  case (step_follow c now message)
  show ?case using apply_advances by (auto simp: follow_message_def split: ServerMessage.split)
next
  case (step_stale c now)
  show ?case by (auto simp: clearStale_def Let_def split: option.split prod.split)
next
  case (step_transition c)
  show ?case by (auto simp: applyLocalTransition_def Let_def split: prod.split)
next
  case (step_drain c env)
  show ?case
    using publish_advances[of "forget_local c" ops env] by (simp add: drain_local_def)
qed (simp_all add: handle_advances acquire_advances coordinator_Subscribe_def coordinator_Unsubscribe_def)

lemma coordinator_steps_advance:
  "coordinator_steps ops c c' \<Longrightarrow> advances (co_snapshot c) (co_snapshot c')"
  by (induction rule: rtranclp_induct) (auto intro: coordinator_step_advances advances_trans)

end
