(* ===== verification/Coordinator_Publish.thy ===== *)
theory Coordinator_Publish
  imports Coordinator_Invariants
begin

text \<open>
  What the coordinator promises to the nodes: in every reachable state the leader can build a
  snapshot that every node of the cluster accepts, a reported endpoint view is published and
  acknowledged, a node that stops reporting loses its lease, and a follower that receives no
  snapshots withdraws its backends.
\<close>

section \<open>Building and applying\<close>

lemma coordinator_build:
  assumes "coordinator_inv c"
  obtains sn ss where
    "BuildClusterSnapshot (cfg_Cluster (co_config c)) generation revision leader (peers_of (co_nodes c)) = Inr sn"
    "sn_Generation sn = generation" "sn_Revision sn = revision" "sn_LeaderId sn = leader"
    "sn_Services sn = map Some ss" "set ss = cluster_services_spec (peers_of (co_nodes c))"
proof -
  have "consistent_peers (cfg_Cluster (co_config c)) (peers_of (co_nodes c))"
    using admitted_nodes_peers[OF assms] by (simp add: admitted_peers_def)
  from this show ?thesis
    by (rule BuildClusterSnapshot_ok[of _ _ generation revision leader]) (rule that, assumption, simp_all)
qed

text \<open>The controller of a node belongs to the cluster and has valid desired Services.\<close>

definition member :: "string \<Rightarrow> 'd Controller \<Rightarrow> bool" where
  "member cluster k \<longleftrightarrow> c_Cluster k = cluster \<and> ValidID (c_NodeGroup k) \<and> valid_desired (c_services k)"

lemma coordinator_apply_ok:
  assumes "\<not> stale_snapshot sn (co_snapshot c)" and "can_apply (co_controller c) sn"
    and "fst (op_reconcile ops (dataplane_view (co_controller c) sn) (c_Dataplane (co_controller c))) = None"
  shows "\<exists>k. coordinator_apply ops now sn c =
    (None, c\<lparr>co_controller := k, co_snapshot := Some sn, co_lastSnapshot := now, co_staleCleared := False\<rparr>)"
  using assms Apply_ok[OF assms(2), of "op_reconcile ops"]
  by (auto simp: coordinator_apply_def cloneSnapshot_def split: prod.splits)

text \<open>
  The conditions under which a publication goes through: this process is the leader, the
  durable snapshot is the last one that it wrote, the write succeeds and the dataplane
  accepts the tables.
\<close>

definition publish_ready :: "'d coordinator_ops \<Rightarrow> publish_env \<Rightarrow> 'd Coordinator \<Rightarrow> bool" where
  "publish_ready ops env c \<longleftrightarrow> pe_leader env \<and> pe_still_leader env \<and>
     (\<exists>body etag durable. pe_get env = Inr (body, etag) \<and> op_unmarshal ops body = Inr durable \<and>
        sn_Generation durable = co_generation c \<and> sn_LeaderId durable = cfg_NodeID (co_config c) \<and>
        sn_Revision durable + 1 = next_revision c \<and>
        (\<forall>sn. \<exists>encoded. op_marshal ops sn = Inr encoded \<and> pe_put env encoded etag = None)) \<and>
     (\<forall>view d. fst (op_reconcile ops view d) = None) \<and>
     (case co_snapshot c of
        None \<Rightarrow> True
      | Some s \<Rightarrow> sn_Generation s < co_generation c \<or>
          sn_Generation s = co_generation c \<and> sn_Revision s \<noteq> - 1)"

lemma publish_ready_same:
  assumes "co_generation c' = co_generation c" and "co_config c' = co_config c" and "co_snapshot c' = co_snapshot c"
  shows "next_revision c' = next_revision c" "publish_ready ops env c' \<longleftrightarrow> publish_ready ops env c"
proof -
  show rev: "next_revision c' = next_revision c" unfolding next_revision_def assms ..
  show "publish_ready ops env c' \<longleftrightarrow> publish_ready ops env c" unfolding publish_ready_def rev assms ..
qed

lemma next_revision_fresh:
  assumes "publish_ready ops env c" and "sn_Generation sn = co_generation c" and "sn_Revision sn = next_revision c"
  shows "\<not> stale_snapshot sn (co_snapshot c)"
proof (cases "co_snapshot c")
  case (Some s)
  have "\<not> x + 1 \<le> x" if "x \<noteq> - 1" for x :: "64 word"
    using that inc_less_eq_triv_imp[of x] by blast
  with assms Some show ?thesis
    by (auto simp: publish_ready_def stale_snapshot_def next_revision_def split: if_splits)
qed (simp add: stale_snapshot_def)

lemma publish_ok:
  assumes "coordinator_inv c" and "publish_ready ops env c" and "member (cfg_Cluster (co_config c)) (co_controller c)"
  obtains sn ss k where "sn_Generation sn = co_generation c" "sn_Revision sn = next_revision c"
    "sn_LeaderId sn = cfg_NodeID (co_config c)"
    "sn_Services sn = map Some ss" "set ss = cluster_services_spec (peers_of (co_nodes c))"
    "publish ops env c = (None, c\<lparr>co_controller := k, co_snapshot := Some sn, co_lastSnapshot := pe_now env,
       co_staleCleared := False, co_subscribers := map (\<lambda>(ch, _). (ch, Some (SM_Snapshot sn))) (co_subscribers c)\<rparr>)"
proof -
  obtain sn ss where sn:
    "BuildClusterSnapshot (cfg_Cluster (co_config c)) (co_generation c) (next_revision c)
       (cfg_NodeID (co_config c)) (peers_of (co_nodes c)) = Inr sn"
    "sn_Generation sn = co_generation c" "sn_Revision sn = next_revision c"
    "sn_LeaderId sn = cfg_NodeID (co_config c)"
    "sn_Services sn = map Some ss" "set ss = cluster_services_spec (peers_of (co_nodes c))"
    by (rule coordinator_build[OF assms(1)])
  have "can_apply (co_controller c) sn"
    using assms(3) by (intro leader_snapshot_applies[OF admitted_nodes_peers[OF assms(1)] sn(1)]) (simp_all add: member_def)
  moreover have "fst (op_reconcile ops view d) = None" for view d
    using assms(2) by (simp add: publish_ready_def)
  ultimately obtain k where k: "coordinator_apply ops (pe_now env) sn c =
      (None, c\<lparr>co_controller := k, co_snapshot := Some sn, co_lastSnapshot := pe_now env, co_staleCleared := False\<rparr>)"
    using coordinator_apply_ok next_revision_fresh[OF assms(2) sn(2,3)] by metis
  obtain encoded etag where "publish_prepare ops env c = Inr (sn, encoded, etag)" "pe_put env encoded etag = None"
  proof -
    obtain body tag durable where "pe_leader env" "pe_still_leader env" "pe_get env = Inr (body, tag)"
      "op_unmarshal ops body = Inr durable" "sn_Generation durable = co_generation c"
      "sn_LeaderId durable = cfg_NodeID (co_config c)" "sn_Revision durable + 1 = next_revision c"
      and writes: "\<forall>sn. \<exists>encoded. op_marshal ops sn = Inr encoded \<and> pe_put env encoded tag = None"
      using assms(2) unfolding publish_ready_def by blast
    moreover from writes obtain code where "op_marshal ops sn = Inr code" "pe_put env code tag = None" by blast
    ultimately show ?thesis using sn(1) that by (simp add: publish_prepare_def Let_def)
  qed
  with k have "publish ops env c = (None, c\<lparr>co_controller := k, co_snapshot := Some sn, co_lastSnapshot := pe_now env,
       co_staleCleared := False, co_subscribers := map (\<lambda>(ch, _). (ch, Some (SM_Snapshot sn))) (co_subscribers c)\<rparr>)"
    by (simp add: publish_def publish_finish_def broadcast_def snapshotMessage_def split_def)
  with sn show ?thesis using that by blast
qed

section \<open>A reported view\<close>

lemma session_node_update:
  assumes "session_node session c = Some (nid, old, hello)" and "rn_hello old' = Some hello"
    and "co_sessions c' = co_sessions c" and "co_nodes c' = AList.update nid old' (co_nodes c)"
  shows "session_node session c' = Some (nid, old', hello)"
  using assms by (auto simp: session_node_def Let_def update_conv' split: option.splits if_splits)

definition acceptable_state :: "receivedNode \<Rightarrow> Hello \<Rightarrow> NodeState \<Rightarrow> bool" where
  "acceptable_state old hello state \<longleftrightarrow> hello_ConfigDigest hello = ns_ConfigDigest state \<and>
     ValidateNodeState (hello_NodeGroup hello) (hello_Services hello) (Some state) = None \<and>
     first_err (outside_prefix (rn_prefix old)) (ns_Endpoints state) = None"

definition fresh_sequence :: "receivedNode \<Rightarrow> NodeState \<Rightarrow> bool" where
  "fresh_sequence old state = (case rn_state old of Some s \<Rightarrow> ns_Sequence s < ns_Sequence state | None \<Rightarrow> True)"

definition with_state :: "int \<Rightarrow> string \<Rightarrow> receivedNode \<Rightarrow> NodeState \<Rightarrow> 'd Coordinator \<Rightarrow> 'd Coordinator" where
  "with_state now nid old state c =
     c\<lparr>co_nodes := AList.update nid (old\<lparr>rn_state := Some state, rn_received := now\<rparr>) (co_nodes c)\<rparr>"

lemma handle_state_cases:
  assumes "session_node (ns_SessionId state) c = Some (nid, old, hello)" and "acceptable_state old hello state"
  shows "handle_state ops env state c =
    (if fresh_sequence old state
     then (case publish ops (he_publish env) (with_state (he_now env) nid old state c) of
             (Some e, c') \<Rightarrow> (Inl e, c') | (None, c') \<Rightarrow> (Inr (ack_messages (ns_Sequence state) c'), c'))
     else (Inr (ack_messages (ns_Sequence state) c), c))"
  using assms
  by (auto simp: handle_state_def acceptable_state_def fresh_sequence_def with_state_def Let_def not_less
      simp del: first_err_None split: option.split)

lemma handle_state_accepts:
  assumes "fst (handle_state ops env state c) = Inr ms"
  obtains nid old hello where "session_node (ns_SessionId state) c = Some (nid, old, hello)"
    "acceptable_state old hello state"
proof (cases "session_node (ns_SessionId state) c")
  case None
  with assms show ?thesis by (simp add: handle_state_def)
next
  case (Some t)
  obtain nid old hello where t: "t = (nid, old, hello)" by (cases t)
  have "acceptable_state old hello state"
  proof (rule ccontr)
    assume "\<not> acceptable_state old hello state"
    then have "\<exists>e. fst (handle_state ops env state c) = Inl e"
      by (auto simp: Some t handle_state_def acceptable_state_def Let_def simp del: first_err_None
          split: option.split prod.split)
    with assms show False by simp
  qed
  with Some t that show ?thesis by blast
qed

lemma handle_state_ready: "co_leaderReady (snd (handle_state ops env state c)) = co_leaderReady c"
proof (cases "session_node (ns_SessionId state) c")
  case (Some t)
  obtain nid old hello where t: "t = (nid, old, hello)" by (cases t)
  have pub: "co_leaderReady (snd (publish ops (he_publish env) c')) = co_leaderReady c'" for c' :: "'a Coordinator"
    using publish_same_nodes[of c' ops "he_publish env"] by (simp add: same_nodes_def)
  have "co_leaderReady (snd (publish ops (he_publish env) (c\<lparr>co_sessions := ss, co_nodes := ns\<rparr>))) = co_leaderReady c"
    "co_leaderReady (snd (publish ops (he_publish env) (c\<lparr>co_nodes := ns\<rparr>))) = co_leaderReady c" for ss ns
    by (simp_all add: pub)
  then show ?thesis
    unfolding handle_state_def Let_def Some t
    by (auto simp del: first_err_None split: option.split prod.split) (metis snd_conv)+
qed (simp add: handle_state_def)

lemma replayed_state:
  assumes "coordinator_inv c" and "fst (handle_state ops env state c) = Inr ms"
  shows "handle_state ops env' state (snd (handle_state ops env state c)) = (Inr ms, snd (handle_state ops env state c))"
proof -
  obtain nid old hello where node: "session_node (ns_SessionId state) c = Some (nid, old, hello)"
    and ok: "acceptable_state old hello state" by (rule handle_state_accepts[OF assms(2)])
  note cases = handle_state_cases[OF node ok]
  show ?thesis
  proof (cases "fresh_sequence old state")
    case False
    with assms(2) show ?thesis by (simp add: cases)
  next
    case True
    let ?old = "old\<lparr>rn_state := Some state, rn_received := he_now env\<rparr>"
    let ?c = "with_state (he_now env) nid old state c"
    obtain e c' where pub: "publish ops (he_publish env) ?c = (e, c')" by fastforce
    with assms(2) True have handled: "handle_state ops env state c = (Inr ms, c')"
      and ms: "ms = ack_messages (ns_Sequence state) c'" by (auto simp: cases split: option.splits)
    have "same_nodes ?c c'" using publish_same_nodes[of ?c ops "he_publish env"] by (simp add: pub)
    then have "session_node (ns_SessionId state) c' = Some (nid, ?old, hello)"
      using session_node_Some(2)[OF node]
      by (intro session_node_update[OF node]) (simp_all add: same_nodes_def with_state_def)
    moreover have "acceptable_state ?old hello state" using ok by (simp add: acceptable_state_def)
    ultimately show ?thesis
      by (simp add: handled ms handle_state_cases fresh_sequence_def)
  qed
qed

lemma state_published:
  assumes "coordinator_inv c" and "member (cfg_Cluster (co_config c)) (co_controller c)"
    and "session_node (ns_SessionId state) c = Some (nid, old, hello)" and "acceptable_state old hello state"
    and "fresh_sequence old state" and "publish_ready ops (he_publish env) c"
  obtains sn ss k where "sn_Generation sn = co_generation c" "sn_Revision sn = next_revision c"
    "sn_Services sn = map Some ss"
    "set ss = cluster_services_spec (peers_of (co_nodes (with_state (he_now env) nid old state c)))"
    "handle_state ops env state c = (Inr [SM_Ack \<lparr>ack_Sequence = ns_Sequence state\<rparr>, SM_Snapshot sn],
       (with_state (he_now env) nid old state c)\<lparr>co_controller := k, co_snapshot := Some sn,
         co_lastSnapshot := pe_now (he_publish env), co_staleCleared := False,
         co_subscribers := map (\<lambda>(ch, _). (ch, Some (SM_Snapshot sn))) (co_subscribers c)\<rparr>)"
proof -
  let ?c = "with_state (he_now env) nid old state c"
  note node = session_node_Some[OF assms(3)]
  have inv: "coordinator_inv ?c"
    unfolding with_state_def using assms(4) node
    by (intro store_state_inv[OF assms(1) node(1,2)]) (auto simp: acceptable_state_def simp del: first_err_None)
  have same: "co_generation ?c = co_generation c" "co_config ?c = co_config c" "co_snapshot ?c = co_snapshot c"
    by (simp_all add: with_state_def)
  have "publish_ready ops (he_publish env) ?c" using assms(6) publish_ready_same(2)[OF same] by simp
  moreover have "member (cfg_Cluster (co_config ?c)) (co_controller ?c)" using assms(2) by (simp add: with_state_def)
  ultimately obtain sn ss k where sn: "sn_Generation sn = co_generation ?c" "sn_Revision sn = next_revision ?c"
    "sn_Services sn = map Some ss" "set ss = cluster_services_spec (peers_of (co_nodes ?c))"
    and pub: "publish ops (he_publish env) ?c = (None, ?c\<lparr>co_controller := k, co_snapshot := Some sn,
       co_lastSnapshot := pe_now (he_publish env), co_staleCleared := False,
       co_subscribers := map (\<lambda>(ch, _). (ch, Some (SM_Snapshot sn))) (co_subscribers ?c)\<rparr>)"
    using publish_ok[OF inv] by metis
  show ?thesis
  proof (rule that)
    show "sn_Generation sn = co_generation c" "sn_Revision sn = next_revision c"
      using sn publish_ready_same(1)[OF same] same by simp_all
    show "handle_state ops env state c = (Inr [SM_Ack \<lparr>ack_Sequence = ns_Sequence state\<rparr>, SM_Snapshot sn],
       ?c\<lparr>co_controller := k, co_snapshot := Some sn, co_lastSnapshot := pe_now (he_publish env),
         co_staleCleared := False, co_subscribers := map (\<lambda>(ch, _). (ch, Some (SM_Snapshot sn))) (co_subscribers c)\<rparr>)"
      using assms(5) pub by (simp add: handle_state_cases[OF assms(3,4)] ack_messages_def snapshotMessage_def
          cloneSnapshot_def with_state_def)
  qed (fact sn)+
qed

section \<open>Leases\<close>

lemma expire_nodes_exact:
  assumes "distinct (map fst (co_nodes c))"
  shows "co_nodes (expire_nodes now c) = filter (\<lambda>(_, node). \<not> expired now node) (co_nodes c)"
proof -
  have "co_nodes (fold (\<lambda>(nid, node) c. if expired now node
      then c\<lparr>co_sessions := AList.delete (hello_SessionId (the (rn_hello node))) (co_sessions c),
             co_nodes := AList.delete nid (co_nodes c)\<rparr> else c) xs c) =
      filter (\<lambda>(i, _). \<not> (\<exists>n. (i, n) \<in> set xs \<and> expired now n)) (co_nodes c)" for xs and c :: "'a Coordinator"
  proof (induction xs arbitrary: c)
    case (Cons x xs)
    show ?case
      by (cases x) (auto simp: Cons.IH AList.delete_eq intro!: filter_cong)
  qed simp
  from this[of "co_nodes c" c] have "co_nodes (expire_nodes now c) =
      filter (\<lambda>(i, _). \<not> (\<exists>n. (i, n) \<in> set (co_nodes c) \<and> expired now n)) (co_nodes c)"
    by (simp add: expire_nodes_def)
  also have "\<dots> = filter (\<lambda>(_, node). \<not> expired now node) (co_nodes c)"
    using assms by (intro filter_cong[OF refl]) (auto dest: eq_key_imp_eq_value)
  finally show ?thesis .
qed

lemma expire_nodes_generation: "co_generation (expire_nodes now c) = co_generation c"
proof -
  have "co_generation (fold (\<lambda>(nid, node) c. if expired now node
      then c\<lparr>co_sessions := AList.delete (hello_SessionId (the (rn_hello node))) (co_sessions c),
             co_nodes := AList.delete nid (co_nodes c)\<rparr> else c) xs c) = co_generation c"
    for xs and c :: "'a Coordinator" by (induction xs arbitrary: c) auto
  then show ?thesis by (simp add: expire_nodes_def)
qed

lemma expire_nodes_none:
  assumes "\<not> list_ex (\<lambda>(nid, node). expired now node) (co_nodes c)"
  shows "expire_nodes now c = c"
proof -
  have "fold (\<lambda>(nid, node) c. if expired now node
      then c\<lparr>co_sessions := AList.delete (hello_SessionId (the (rn_hello node))) (co_sessions c),
             co_nodes := AList.delete nid (co_nodes c)\<rparr> else c) xs c = c"
    if "\<not> list_ex (\<lambda>(nid, node). expired now node) xs" for xs and c :: "'a Coordinator"
    using that by (induction xs) auto
  with assms show ?thesis by (simp add: expire_nodes_def)
qed

section \<open>Stale snapshots\<close>

lemma effective_all:
  assumes "\<And>s. s \<in> set ls \<Longrightarrow> P s" and "\<And>s. s \<in> set ss \<Longrightarrow> P s" and "s \<in> set (effective_services g ls ss)"
  shows "P s"
proof -
  have upd: "snd ` set (AList.update k v m) \<subseteq> insert v (snd ` set m)" for k :: string and v :: api_Service and m
    by (induction m) auto
  have "snd ` set (fold (\<lambda>item m. AList.update (identity item) item m) ls m) \<subseteq> set ls \<union> snd ` set m" for m
  proof (induction ls arbitrary: m)
    case (Cons a ls)
    from Cons[of "AList.update (identity a) a m"] upd[of "identity a" a m] show ?case by auto
  qed simp
  from this[of "[]"] have locals: "snd ` set (local_identities ls) \<subseteq> set ls" by (simp add: local_identities_def)
  have fold: "snd ` set (fst (fold (overlay_item g) ss (m, ks))) \<subseteq> snd ` set m \<and>
      set (snd (fold (overlay_item g) ss (m, ks))) \<subseteq> set ss \<union> set ks" for m ks
  proof (induction ss arbitrary: m ks)
    case (Cons a ss)
    have "snd ` set (AList.delete k m) \<subseteq> snd ` set m" for k by (auto simp: AList.delete_eq)
    then have "snd ` set (fst (overlay_item g a (m, ks))) \<subseteq> snd ` set m"
      "set (snd (overlay_item g a (m, ks))) \<subseteq> insert a (set ks)" by (auto simp: overlay_item_def Let_def)
    moreover obtain m' ks' where step: "overlay_item g a (m, ks) = (m', ks')" by fastforce
    ultimately have sub: "snd ` set m' \<subseteq> snd ` set m" "set ks' \<subseteq> insert a (set ks)" by simp_all
    note Cons[of m' ks']
    then have "snd ` set (fst (fold (overlay_item g) ss (m', ks'))) \<subseteq> snd ` set m"
      and "set (snd (fold (overlay_item g) ss (m', ks'))) \<subseteq> set ss \<union> insert a (set ks)"
      using sub by (meson order_trans, meson Un_mono order_refl order_trans)
    then show ?case by (simp add: step)
  qed simp
  obtain m ks where "fold (overlay_item g) ss (local_identities ls, []) = (m, ks)" by fastforce
  then have "set (effective_services g ls ss) \<subseteq> set ls \<union> set ss"
    using locals fold[of "local_identities ls" "[]"] by (simp add: effective_services_def) blast
  with assms show ?thesis by blast
qed

lemma overlay_can_apply:
  assumes "ValidID (c_NodeGroup (co_controller c))" "valid_desired (c_services (co_controller c))"
    and "sn_Services sn = []"
  shows "can_apply (co_controller c) (overlayLocalContract c sn)"
proof -
  let ?k = "co_controller c" and ?ls = "snd (Contract (co_controller c))"
  let ?ss = "sort_slice serviceIdentityLess ?ls"
  have ls: "?ls = desiredContract (c_Cluster ?k) (c_NodeGroup ?k) (c_services ?k)" by (simp add: Contract_def Let_def)
  have d: "distinct (map identity ?ls)"
    unfolding ls by (rule valid_contract_distinct[OF desiredContract_valid(1,2)[OF assms(2)]])
  have services: "sn_Services (overlayLocalContract c sn) = map Some ?ss"
    by (simp add: overlayLocalContract_def assms(3) Let_def)
  have own: "applicable_service (c_Cluster ?k) w \<and> nil_free_service w" if "w \<in> set ?ls" for w
    using own_contract_applicable[OF assms(2,1)] that valid_contract_nil_free
      desiredContract_valid(2)[OF assms(2), of "c_Cluster ?k" "c_NodeGroup ?k"]
    unfolding ls list_all_iff by blast
  have view: "snapshot_view ?k (overlayLocalContract c sn) = effective_services (c_NodeGroup ?k) ?ls ?ss"
    by (simp add: snapshot_view_def services)
  have "applicable_service (c_Cluster ?k) w" if "w \<in> set (effective_services (c_NodeGroup ?k) ?ls ?ss)" for w
    by (rule effective_all[OF _ _ that]) (use own in simp_all)
  moreover have "distinct (map identity (effective_services (c_NodeGroup ?k) ?ls ?ss))"
    using d by (intro effective_distinct) simp_all
  ultimately show ?thesis using own by (auto simp: can_apply_def view services list_all_iff)
qed

lemma cleared_view:
  assumes "None \<notin> set (sn_Services s)"
    and "svc \<in> set (snapshot_view (co_controller c) (overlayLocalContract c (clear_backends s)))"
  shows "svc_Backends svc = []"
proof -
  have own: "svc_Backends w = []" if "w \<in> set (snd (Contract (co_controller c)))" for w
    using that by (auto simp: Contract_def Let_def desiredContract_def desired_item_def)
  have "svc_Backends (the x) = []" if "x \<in> set (sn_Services (clear_backends s))" for x
  proof -
    from that obtain y where y: "y \<in> set (sn_Services s)"
      "x = map_option (\<lambda>item. item\<lparr>svc_Backends := []\<rparr>) y" by (auto simp: clear_backends_def)
    with assms(1) show ?thesis by (cases y) auto
  qed
  then have "svc_Backends w = []" if "w \<in> set (map the (sn_Services (overlayLocalContract c (clear_backends s))))" for w
    using that own by (auto simp: overlayLocalContract_def Let_def)
  from own this assms(2)[unfolded snapshot_view_def] show ?thesis by (rule effective_all)
qed

section \<open>What the coordinator promises\<close>

definition sample_prefix :: prefix where
  "sample_prefix = \<lparr>prefix_Addr = Addr6 0x20010db8000000000000000000000000 [], prefix_Bits = Some 80\<rparr>"

definition example_config :: Config where
  "example_config = \<lparr>cfg_NodeID = ''n1'', cfg_Cluster = ''prod'', cfg_NodeGroup = ''apps'', cfg_IPv6Prefix = sample_prefix\<rparr>"

definition example_controller :: "unit Controller" where
  "example_controller = (NewController ''prod'' ''apps'' AddrZero NewServer ())\<lparr>c_services := [example_service]\<rparr>"

definition example_durable :: Snapshot where
  "example_durable = \<lparr>sn_Generation = 3, sn_Revision = 0, sn_LeaderId = ''n1'', sn_ConfigDigest = [], sn_Services = []\<rparr>"

definition sample_ops :: "unit coordinator_ops" where
  "sample_ops = \<lparr>op_marshal = (\<lambda>sn. Inr ''encoded''), op_unmarshal = (\<lambda>b. Inr example_durable),
     op_reconcile = (\<lambda>view d. (None, d))\<rparr>"

definition example_publish :: publish_env where
  "example_publish = \<lparr>pe_leader = True, pe_get = Inr (''encoded'', ''tag''), pe_still_leader = True,
     pe_put = (\<lambda>body tag. None), pe_now = 90 * second\<rparr>"

definition example_env :: handle_env where
  "example_env = \<lparr>he_leader = True, he_peer = Inr (''n1'', ''apps''), he_now = 90 * second, he_publish = example_publish\<rparr>"

definition example_leader :: "unit Coordinator" where
  "example_leader = \<lparr>co_config = example_config, co_controller = example_controller, co_nodes = [], co_sessions = [],
     co_snapshot = Some example_durable, co_generation = 3, co_wasLeader = True, co_leaderReady = True,
     co_lastSnapshot = 50 * second, co_staleCleared = False, co_subscribers = [(0, None)], co_fatal = None,
     co_localSession = [], co_localSequence = 0\<rparr>"

definition example_admitted :: "unit Coordinator" where
  "example_admitted = store_hello (50 * second) example_hello sample_prefix example_leader"

definition example_view :: NodeState where
  "example_view = node_state ''apps'' [example_service] [(''u1'', example_pod)] ''s'' 1"

lemma example_hello_facts:
  "ParsePrefix (hello_Ipv6Prefix example_hello) = Some sample_prefix" "validDelegatedPrefix sample_prefix"
  "ValidateContract ''prod'' ''apps'' (hello_ConfigDigest example_hello) (hello_Services example_hello) = None"
  "nul_free_names (hello_Services example_hello)"
proof -
  show "ParsePrefix (hello_Ipv6Prefix example_hello) = Some sample_prefix"
  proof -
    have "ParsePrefix ''2001:db8::/80'' = Some sample_prefix" by code_simp
    then show ?thesis by (simp add: example_hello_def)
  qed
  show "validDelegatedPrefix sample_prefix" by code_simp
  show "ValidateContract ''prod'' ''apps'' (hello_ConfigDigest example_hello) (hello_Services example_hello) = None"
    using own_contract_valid[OF example_valid(1,3)] by (simp add: example_hello_def)
  show "nul_free_names (hello_Services example_hello)"
    by (auto simp: example_hello_def nul_free_names_def desiredContract_def sortedDesired_key
        example_service_def wirePort_def desired_item_def)
qed

lemma example_admitted_inv: "coordinator_inv example_admitted"
  unfolding example_admitted_def
proof (rule store_hello_inv)
  show "coordinator_inv example_leader"
    by (simp add: coordinator_inv_def nodes_inv_def sessions_inv_def example_leader_def)
  show "admitted_node (co_config example_leader) (hello_NodeId example_hello)
     \<lparr>rn_hello = Some example_hello, rn_state = None, rn_received = 50 * second, rn_prefix = sample_prefix\<rparr>"
    using example_hello_facts
    by (simp add: admitted_node_def example_leader_def example_config_def example_hello_def)
qed (simp add: example_leader_def)

lemma example_session:
  "session_node (ns_SessionId example_view) example_admitted = Some (''n1'',
     \<lparr>rn_hello = Some example_hello, rn_state = None, rn_received = 50 * second, rn_prefix = sample_prefix\<rparr>, example_hello)"
  by (simp add: session_node_def example_admitted_def example_view_def node_state_def store_hello_def
      example_leader_def example_hello_def Let_def)

lemma example_acceptable: "rn_prefix old = sample_prefix \<Longrightarrow> acceptable_state old example_hello example_view"
proof -
  assume p: "rn_prefix old = sample_prefix"
  have "ns_Endpoints example_view = map Some (sort_slice endpointLess
      (local_endpoints ''apps'' (sortedDesired [example_service]) [(''u1'', example_pod)]))"
    by (simp add: example_view_def ns_Endpoints_node_state)
  moreover have "prefix_Contains sample_prefix (pod_Address example_pod)" by code_simp
  moreover have "ParseAddr (addr_String (pod_Address example_pod)) = Some (pod_Address example_pod)"
    unfolding example_pod_def Pod.select_convs by (rule ParseAddr_String) (simp add: Is4In6_def)
  ultimately have "first_err (outside_prefix (rn_prefix old)) (ns_Endpoints example_view) = None"
    using p by (auto simp: outside_prefix_None set_local_endpoints endpoint_of_def)
  moreover have "ValidateNodeState ''apps'' (map Some (desiredContract ''prod'' ''apps'' [example_service]))
      (Some example_view) = None"
    unfolding example_view_def by (rule own_state_valid[OF example_valid(1,2)]) (simp add: local_endpoints_def)
  ultimately show ?thesis
    by (simp add: acceptable_state_def example_hello_def example_view_def node_state_def)
qed

lemma example_ready: "publish_ready sample_ops example_publish example_admitted"
  by (simp add: publish_ready_def sample_ops_def example_publish_def example_admitted_def store_hello_def
      example_leader_def example_durable_def next_revision_def example_config_def Let_def)

lemma example_member: "member (cfg_Cluster (co_config example_admitted)) (co_controller example_admitted)"
  using example_valid(1,3)
  by (simp add: member_def example_admitted_def store_hello_def example_leader_def example_config_def
      example_controller_def NewController_def Let_def)


text \<open>
  C11: along every sequence of operations the applied snapshot either stays or is replaced by
  one with a larger generation, or with the same generation and a larger revision.
\<close>

theorem applied_snapshot_monotone:
  assumes "coordinator_steps ops c c'" and "co_snapshot c = Some old" and "co_snapshot c' = Some new"
    and "new \<noteq> old"
  shows "sn_Generation old < sn_Generation new \<or>
    sn_Generation old = sn_Generation new \<and> sn_Revision old < sn_Revision new"
  using coordinator_steps_advance[OF assms(1)] assms(2-4)
  by (auto simp: advances_def stale_snapshot_def not_less not_le)


text \<open>
  C14: a view that was accepted can be sent again: the second reply is the same and the state of
  the coordinator stays, whatever storage would answer.
\<close>

theorem replayed_state_idempotent:
  assumes "coordinator_inv c" and "fst (handle ops env (CM_NodeState state) local c) = Inr ms" and "he_leader env'"
  shows "handle ops env' (CM_NodeState state) local (snd (handle ops env (CM_NodeState state) local c)) =
    (Inr ms, snd (handle ops env (CM_NodeState state) local c))"
proof -
  have ready: "he_leader env" "co_leaderReady c" using assms(2) by (auto simp: handle_def split: if_splits)
  with assms(2) have "fst (handle_state ops env state c) = Inr ms" by (simp add: handle_def)
  note replay = replayed_state[OF assms(1) this, of env']
  have "co_leaderReady (snd (handle_state ops env state c))"
    using ready(2) handle_state_ready[of ops env state c] by simp
  with ready replay assms(3) show ?thesis by (simp add: handle_def)
qed



lemma example_fresh: "fresh_sequence \<lparr>rn_hello = h, rn_state = None, rn_received = t, rn_prefix = p\<rparr> state"
  by (simp add: fresh_sequence_def)


theorem replayed_state_idempotent_witness:
  "handle sample_ops (example_env\<lparr>he_now := 91\<rparr>) (CM_NodeState example_view) False
      (snd (handle sample_ops example_env (CM_NodeState example_view) False example_admitted)) =
    handle sample_ops example_env (CM_NodeState example_view) False example_admitted"
proof -
  have "he_leader example_env" "co_leaderReady example_admitted"
    "publish_ready sample_ops (he_publish example_env) example_admitted"
    using example_ready by (simp_all add: example_env_def example_admitted_def store_hello_def example_leader_def Let_def)
  then obtain ms where "fst (handle sample_ops example_env (CM_NodeState example_view) False example_admitted) = Inr ms"
    by (rule_tac state_published[OF example_admitted_inv example_member example_session example_acceptable
        example_fresh, of sample_ops example_env]) (simp_all add: handle_def)
  from replayed_state_idempotent[OF example_admitted_inv this, of "example_env\<lparr>he_now := 91\<rparr>"] this
  show ?thesis by (simp add: example_env_def prod_eq_iff)
qed



theorem applied_snapshot_monotone_witness:
  "\<exists>c' sn. coordinator_steps sample_ops example_admitted c' \<and> co_snapshot c' = Some sn \<and>
    (3 < sn_Generation sn \<or> 3 = sn_Generation sn \<and> 0 < sn_Revision sn)"
proof -
  let ?c = "snd (handle sample_ops example_env (CM_NodeState example_view) False example_admitted)"
  have ready: "he_leader example_env" "co_leaderReady example_admitted"
    "publish_ready sample_ops (he_publish example_env) example_admitted"
    using example_ready by (simp_all add: example_env_def example_admitted_def store_hello_def example_leader_def Let_def)
  then obtain sn where sn: "co_snapshot ?c = Some sn" "sn_Revision sn = next_revision example_admitted"
    by (rule_tac state_published[OF example_admitted_inv example_member example_session example_acceptable
        example_fresh, of sample_ops example_env]) (simp_all add: handle_def)
  have "coordinator_steps sample_ops example_admitted ?c"
    by (rule r_into_rtranclp, rule step_handle) (simp add: names_ok_def)
  moreover have "co_snapshot example_admitted = Some example_durable" "next_revision example_admitted = 1"
    by (simp_all add: example_admitted_def store_hello_def example_leader_def next_revision_def example_durable_def Let_def)
  moreover from sn(2) this(2) have "sn \<noteq> example_durable" by (auto simp: example_durable_def)
  ultimately show ?thesis
    using applied_snapshot_monotone[of sample_ops example_admitted ?c example_durable sn] sn
    by (intro exI[of _ ?c] exI[of _ sn]) (auto simp: example_durable_def)
qed

subsection \<open>A leader from the start\<close>

lemma can_apply_services: "sn_Services sn = sn_Services sn' \<Longrightarrow> can_apply k sn \<longleftrightarrow> can_apply k sn'"
  by (simp add: can_apply_def snapshot_view_def)

lemma acquire_fresh:
  assumes "co_snapshot c = None" and "ValidID (c_NodeGroup (co_controller c))" "valid_desired (c_services (co_controller c))"
    and "ae_get env = Inl ErrStorageNotFound" and "\<And>sn. \<exists>b. op_marshal ops sn = Inr b \<and> ae_put env b [] = None"
    and "\<And>view d. fst (op_reconcile ops view d) = None"
  shows "\<exists>k s. acquire ops now (env # envs) c = (None, c\<lparr>co_generation := 1, co_nodes := [], co_sessions := [],
    co_controller := k, co_snapshot := Some s, co_lastSnapshot := now, co_staleCleared := False, co_leaderReady := True\<rparr>)"
proof -
  let ?o = "overlayLocalContract c (clear_backends SnapshotZero)"
  let ?s = "?o\<lparr>sn_Generation := 1, sn_Revision := 0, sn_LeaderId := cfg_NodeID (co_config c)\<rparr>"
  let ?c = "c\<lparr>co_generation := 1, co_nodes := [], co_sessions := []\<rparr>"
  have "can_apply (co_controller c) ?o"
    by (rule overlay_can_apply[OF assms(2,3)]) (simp add: clear_backends_def SnapshotZero_def)
  then have ok: "can_apply (co_controller ?c) ?s" using can_apply_services[of ?s ?o "co_controller c"] by simp
  have "distinct (map identity (snd (Contract (co_controller c))))"
    using valid_contract_distinct[OF desiredContract_valid(1,2)[OF assms(3)]] by (simp add: Contract_def Let_def)
  then have owned: "ValidateSnapshotOwnership (Some ?s) = None"
    unfolding ValidateSnapshotOwnership_iff
    by (auto simp: overlayLocalContract_def clear_backends_def SnapshotZero_def Let_def)
  obtain b where b: "op_marshal ops ?s = Inr b" "ae_put env b [] = None" using assms(5) by blast
  have prepare: "acquire_prepare ops (ae_get env) c = Inr (?s, b, [])"
    using owned b(1) by (simp add: acquire_prepare_def assms(4) Let_def) (simp add: SnapshotZero_def)
  obtain k where "coordinator_apply ops now ?s ?c =
      (None, ?c\<lparr>co_controller := k, co_snapshot := Some ?s, co_lastSnapshot := now, co_staleCleared := False\<rparr>)"
    using coordinator_apply_ok[OF _ ok, of ops now] assms(1,6) by (auto simp: stale_snapshot_def)
  then show ?thesis
    using prepare b(2) by (auto simp: acquire_def eval_nat_numeral acquire_finish_def)
qed


end
