(* ===== verification/Versioned_Storage.thy ===== *)
theory Versioned_Storage
  imports Go_Prelude "HOL-Library.Sublist"
begin

text \<open>
  Object storage is outside the repository. What the code relies on is that storage keeps an
  object under a tag, that \<open>Get\<close> returns the object with its tag, and that \<open>PutIfMatch\<close>
  writes only when the tag still is the one given, the empty tag standing for a missing
  object. The state of one object is the list of all bodies written to it so far, the newest
  first; \<open>tag\<close> names a version by its number and its body, so that tags may be counters or
  hashes of the content. The errors are the sentinels of the storage package that a client
  uses.
\<close>

definition current_tag :: "(nat \<Rightarrow> string \<Rightarrow> string) \<Rightarrow> string list \<Rightarrow> string" where
  "current_tag tag h = (case h of [] \<Rightarrow> [] | body # _ \<Rightarrow> tag (length h) body)"

definition storage_Get :: "error \<Rightarrow> (nat \<Rightarrow> string \<Rightarrow> string) \<Rightarrow> string list \<Rightarrow> error + string \<times> string" where
  "storage_Get notFound tag h = (case h of [] \<Rightarrow> Inl notFound | body # _ \<Rightarrow> Inr (body, current_tag tag h))"

definition storage_PutIfMatch ::
  "error \<Rightarrow> (nat \<Rightarrow> string \<Rightarrow> string) \<Rightarrow> string \<Rightarrow> string \<Rightarrow> string list \<Rightarrow> error option \<times> string list" where
  "storage_PutIfMatch precondition tag body etag h =
     (if current_tag tag h = etag then (None, body # h) else (Some precondition, h))"

text \<open>Different bodies have different tags, none of them empty.\<close>

definition tag_laws :: "(nat \<Rightarrow> string \<Rightarrow> string) \<Rightarrow> bool" where
  "tag_laws tag \<longleftrightarrow> (\<forall>m n a b. tag m a = tag n b \<longrightarrow> a = b) \<and> (\<forall>n a. tag n a \<noteq> [])"

text \<open>A tag that still matches was read from a version with the present body.\<close>

lemma current_tag_Get:
  assumes "tag_laws tag" and "current_tag tag h = current_tag tag h0"
  shows "storage_Get notFound tag h0 = storage_Get notFound tag h"
proof -
  have tags: "a = b" if "tag m a = tag n b" for m n a b using assms(1) that by (auto simp: tag_laws_def)
  have "tag n a \<noteq> []" for n a using assms(1) by (auto simp: tag_laws_def)
  moreover from this have "[] \<noteq> tag n a" for n a by metis
  ultimately show ?thesis using assms(2) by (auto simp: storage_Get_def current_tag_def split: list.splits dest: tags)
qed

section \<open>The contract of a conditional store\<close>

text \<open>
  What a client relies on: no call forgets a version, the tag that \<open>Get\<close> returns names the
  body it returns, and a conditional write that succeeds extends the version with the given
  tag. A write that fails its condition found another version.
\<close>

locale conditional_store =
  fixes lawful :: bool
    and Get :: "string \<Rightarrow> 's \<Rightarrow> (error + string \<times> string) \<times> 's"
    and PutIfMatch :: "string \<Rightarrow> string \<Rightarrow> string \<Rightarrow> 's \<Rightarrow> error option \<times> 's"
    and versions :: "'s \<Rightarrow> string \<Rightarrow> string list"
    and tagged :: "string \<Rightarrow> string list \<Rightarrow> bool"
  assumes get_extends: "lawful \<Longrightarrow> Get key s = (r, s') \<Longrightarrow> suffix (versions s k) (versions s' k)"
    and put_extends: "lawful \<Longrightarrow> PutIfMatch key body etag s = (e, s') \<Longrightarrow> suffix (versions s k) (versions s' k)"
    and get_tag: "lawful \<Longrightarrow> Get key s = (Inr (body, etag), s') \<Longrightarrow> tagged etag h \<Longrightarrow> \<exists>older. h = body # older"
    and empty_tag: "lawful \<Longrightarrow> tagged [] h \<Longrightarrow> h = []"
    and put_tag: "lawful \<Longrightarrow> PutIfMatch key body etag s = (None, s') \<Longrightarrow>
      \<exists>h. versions s' key = body # h \<and> tagged etag h"
begin

definition read_tag :: "error + string \<times> string \<Rightarrow> string" where
  "read_tag got = (case got of Inr (_, etag) \<Rightarrow> etag | Inl _ \<Rightarrow> [])"

text \<open>A read followed by a successful conditional write replaced the body that was read.\<close>

lemma read_modify_write:
  assumes lawful and "Get key s = (got, s1)" and "PutIfMatch key body (read_tag got) s1' = (None, s2)"
  shows "(\<exists>e. got = Inl e) \<and> versions s2 key = [body] \<or>
    (\<exists>old etag older. got = Inr (old, etag) \<and> versions s2 key = body # old # older)"
proof -
  obtain h where h: "versions s2 key = body # h" "tagged (read_tag got) h"
    using put_tag[OF assms(1,3)] by blast
  show ?thesis
  proof (cases got)
    case (Inl e)
    with h assms(1) show ?thesis by (auto simp: read_tag_def dest: empty_tag)
  next
    case (Inr r)
    obtain old etag where r: "r = (old, etag)" by fastforce
    from h(2) Inr r have "tagged etag h" by (simp add: read_tag_def)
    with get_tag[OF assms(1) assms(2)[unfolded Inr r]] h(1) Inr r show ?thesis by auto
  qed
qed

end

section \<open>Tags made of the content\<close>

definition content_tag :: "nat \<Rightarrow> string \<Rightarrow> string" where
  "content_tag n body = CHR ''v'' # body"

lemma content_tag_laws: "tag_laws content_tag"
  by (auto simp: tag_laws_def content_tag_def)

end
