(* ===== verification/Coordinator_Storage.thy ===== *)
theory Coordinator_Storage
  imports Coordinator_Publish Versioned_Storage
begin

text \<open>
  The coordinators of a cluster share one durable object in versioned storage. Any number of
  them may read it, and write what they prepared from what they read at any later time.
\<close>

section \<open>Conditional writes\<close>

text \<open>
  The writes of coordinators: \<open>h0\<close> is what storage held when a coordinator read it, \<open>h\<close> what it
  holds when the write arrives.
\<close>

inductive storage_run :: "'d coordinator_ops \<Rightarrow> (nat \<Rightarrow> string \<Rightarrow> string) \<Rightarrow> string list \<Rightarrow> bool"
  for ops :: "'d coordinator_ops" and tag where
  start: "storage_run ops tag []"
| acquire_write: "storage_run ops tag h \<Longrightarrow> suffix h0 h \<Longrightarrow>
    acquire_prepare ops (storage_Get ErrStorageNotFound tag h0) c = Inr (s, encoded, etag) \<Longrightarrow>
    storage_PutIfMatch ErrStoragePrecondition tag encoded etag h = (e, h') \<Longrightarrow> storage_run ops tag h'"
| publish_write: "storage_run ops tag h \<Longrightarrow> suffix h0 h \<Longrightarrow> pe_get env = storage_Get ErrStorageNotFound tag h0 \<Longrightarrow>
    publish_prepare ops env c = Inr (s, encoded, etag) \<Longrightarrow>
    storage_PutIfMatch ErrStoragePrecondition tag encoded etag h = (e, h') \<Longrightarrow> storage_run ops tag h'"

section \<open>What a coordinator writes\<close>

lemma BuildClusterSnapshot_header:
  assumes "BuildClusterSnapshot cluster generation revision leader peers = Inr sn"
  shows "sn_Generation sn = generation \<and> sn_Revision sn = revision \<and> sn_LeaderId sn = leader"
  using assms by (auto simp: BuildClusterSnapshot_def Let_def split: option.splits sum.splits if_splits)

lemma acquire_prepare_ok:
  assumes "acquire_prepare ops got c = Inr (s, encoded, etag)"
  obtains (missing) e where "got = Inl e" "errors_Is e ErrStorageNotFound" "etag = []"
      "sn_Generation s = 1" "sn_Revision s = 0" "op_marshal ops s = Inr encoded"
  | (present) body current where "got = Inr (body, etag)"
      "(if length body > 0 then op_unmarshal ops body else Inr SnapshotZero) = Inr current"
      "sn_Generation s = sn_Generation current + 1" "sn_Revision s = 0" "op_marshal ops s = Inr encoded"
      "sn_LeaderId s = cfg_NodeID (co_config c)"
proof (cases got)
  case (Inl e)
  with assms show ?thesis
    by (intro missing) (auto simp: acquire_prepare_def Let_def SnapshotZero_def split: if_splits option.splits sum.splits)
next
  case (Inr r)
  obtain body tag where r: "r = (body, tag)" by fastforce
  from assms[unfolded acquire_prepare_def Inr r Let_def] obtain current where
    "(if length body > 0 then op_unmarshal ops body else Inr SnapshotZero) = Inr current"
    "tag = etag" "sn_Generation s = sn_Generation current + 1" "sn_Revision s = 0" "op_marshal ops s = Inr encoded"
    "sn_LeaderId s = cfg_NodeID (co_config c)"
    by (simp split: option.splits sum.splits) (auto split: option.splits sum.splits)
  with Inr r present show ?thesis by blast
qed

lemma publish_prepare_ok:
  assumes "publish_prepare ops env c = Inr (s, encoded, etag)"
  obtains body durable where "pe_get env = Inr (body, etag)" "op_unmarshal ops body = Inr durable"
    "sn_Generation durable = sn_Generation s" "sn_LeaderId durable = sn_LeaderId s"
    "sn_Revision durable + 1 = sn_Revision s" "op_marshal ops s = Inr encoded"
    "sn_LeaderId s = cfg_NodeID (co_config c)"
  using assms BuildClusterSnapshot_header
  by (auto simp: publish_prepare_def Let_def split: if_splits option.splits sum.splits)

section \<open>Fencing\<close>

text \<open>Storage keeps its laws, and a decoder reads back what the encoder wrote.\<close>

definition storage_laws :: "'d coordinator_ops \<Rightarrow> (nat \<Rightarrow> string \<Rightarrow> string) \<Rightarrow> bool" where
  "storage_laws ops tag \<longleftrightarrow> tag_laws tag \<and>
     (\<forall>s b. op_marshal ops s = Inr b \<longrightarrow> op_unmarshal ops b = Inr s) \<and>
     (\<forall>s b. op_marshal ops s = Inr b \<longrightarrow> sn_Generation s \<noteq> 0 \<longrightarrow> b \<noteq> [])"

definition decoded :: "'d coordinator_ops \<Rightarrow> string list \<Rightarrow> Snapshot list" where
  "decoded ops h = map (projr \<circ> op_unmarshal ops) h"

text \<open>A later snapshot supersedes an earlier one: a new generation, or the same leader's next revision.\<close>

definition supersedes :: "Snapshot \<Rightarrow> Snapshot \<Rightarrow> bool" where
  "supersedes new old \<longleftrightarrow> sn_Generation old < sn_Generation new \<or>
     sn_Generation old = sn_Generation new \<and> sn_LeaderId old = sn_LeaderId new \<and> sn_Revision old < sn_Revision new"

lemma supersedes_trans: "supersedes c b \<Longrightarrow> supersedes b a \<Longrightarrow> supersedes c a"
  by (auto simp: supersedes_def)

definition history_inv :: "'d coordinator_ops \<Rightarrow> string list \<Rightarrow> bool" where
  "history_inv ops h \<longleftrightarrow> sorted_wrt supersedes (decoded ops h) \<and>
     (\<forall>b \<in> set h. \<exists>s. op_unmarshal ops b = Inr s \<and> b \<noteq> [] \<and> sn_Generation s \<noteq> 0 \<and>
        unat (sn_Generation s) \<le> length h \<and> unat (sn_Revision s) < length h)"

lemma history_inv_Cons:
  assumes "history_inv ops h" and "op_unmarshal ops b = Inr s" and "b \<noteq> []" and "sn_Generation s \<noteq> 0"
    and "unat (sn_Generation s) \<le> Suc (length h)" and "unat (sn_Revision s) < Suc (length h)"
    and "h \<noteq> [] \<Longrightarrow> supersedes s (hd (decoded ops h))"
  shows "history_inv ops (b # h)"
proof -
  have "supersedes s x" if "x \<in> set (decoded ops h)" for x
  proof (cases h)
    case (Cons y ys)
    with assms(1,7) that show ?thesis
      by (auto simp: history_inv_def decoded_def intro: supersedes_trans)
  qed (use that in \<open>simp add: decoded_def\<close>)
  then show ?thesis
    using assms(1-6) by (auto simp: history_inv_def decoded_def intro: le_SucI less_SucI)
qed

lemma unat_next: "unat (x :: 64 word) \<le> n \<Longrightarrow> n < 2 ^ 64 - 1 \<Longrightarrow> unat (x + 1) = Suc (unat x) \<and> x < x + 1"
  by (simp add: unat_word_ariths word_less_nat_alt)

lemma write_history_inv:
  assumes "storage_laws ops tag" and "history_inv ops h" and "length h < 2 ^ 64 - 1"
    and "acquire_prepare ops (storage_Get ErrStorageNotFound tag h) c = Inr (s, encoded, etag) \<or>
      pe_get env = storage_Get ErrStorageNotFound tag h \<and> publish_prepare ops env c = Inr (s, encoded, etag)"
  shows "history_inv ops (encoded # h)"
proof (cases h)
  case Nil
  with assms(4) have "acquire_prepare ops (Inl ErrStorageNotFound) c = Inr (s, encoded, etag)"
    by (auto simp: storage_Get_def elim: publish_prepare_ok)
  then have "sn_Generation s = 1" "sn_Revision s = 0" "op_marshal ops s = Inr encoded"
    by (auto elim: acquire_prepare_ok)
  with assms(1,2) Nil show ?thesis by (intro history_inv_Cons) (auto simp: storage_laws_def)
next
  case (Cons body rest)
  from assms(2) Cons obtain cur where cur: "op_unmarshal ops body = Inr cur" "body \<noteq> []" "sn_Generation cur \<noteq> 0"
    "unat (sn_Generation cur) \<le> length h" "unat (sn_Revision cur) < length h" by (auto simp: history_inv_def)
  have hd: "hd (decoded ops h) = cur" using Cons cur(1) by (simp add: decoded_def)
  have got: "storage_Get ErrStorageNotFound tag h = Inr (body, current_tag tag h)" by (simp add: storage_Get_def Cons)
  note gen = unat_next[OF cur(4) assms(3)]
  note rev = unat_next[OF less_imp_le[OF cur(5)] assms(3)]
  have new: "op_marshal ops s = Inr encoded \<and> supersedes s cur \<and> sn_Generation s \<noteq> 0 \<and>
      unat (sn_Generation s) \<le> Suc (length h) \<and> unat (sn_Revision s) < Suc (length h)"
    using assms(4)
  proof
    assume "acquire_prepare ops (storage_Get ErrStorageNotFound tag h) c = Inr (s, encoded, etag)"
    then show ?thesis
    proof (cases rule: acquire_prepare_ok)
      case missing
      with got show ?thesis by simp
    next
      case (present b current)
      then have "current = cur" using got cur(1,2) by auto
      with present gen cur show ?thesis by (auto simp: supersedes_def)
    qed
  next
    assume "pe_get env = storage_Get ErrStorageNotFound tag h \<and> publish_prepare ops env c = Inr (s, encoded, etag)"
    then obtain durable where "op_unmarshal ops body = Inr durable"
      "sn_Generation durable = sn_Generation s" "sn_LeaderId durable = sn_LeaderId s"
      "sn_Revision durable + 1 = sn_Revision s" "op_marshal ops s = Inr encoded"
      using got by (auto elim!: publish_prepare_ok)
    then show ?thesis using rev cur by (auto simp: supersedes_def)
  qed
  with assms(1,2) hd show ?thesis by (intro history_inv_Cons) (auto simp: storage_laws_def)
qed

lemma storage_run_inv:
  assumes "storage_run ops tag h" and "storage_laws ops tag" and "length h < 2 ^ 64"
  shows "history_inv ops h"
  using assms
proof (induction rule: storage_run.induct)
  case start
  show ?case by (simp add: history_inv_def decoded_def)
next
  case (acquire_write h h0 c s encoded etag e h')
  show ?case
  proof (cases "current_tag tag h = etag")
    case True
    have "etag = current_tag tag h0"
      using acquire_write.hyps(3) by (auto simp: storage_Get_def current_tag_def split: list.splits elim: acquire_prepare_ok)
    with True acquire_write have "storage_Get ErrStorageNotFound tag h0 = storage_Get ErrStorageNotFound tag h"
      by (intro current_tag_Get[of tag]) (auto simp: storage_laws_def)
    with acquire_write True show ?thesis
      by (auto simp: storage_PutIfMatch_def intro!: write_history_inv)
  qed (use acquire_write in \<open>auto simp: storage_PutIfMatch_def\<close>)
next
  case (publish_write h h0 env c s encoded etag e h')
  show ?case
  proof (cases "current_tag tag h = etag")
    case True
    have "etag = current_tag tag h0"
      using publish_write.hyps(3,4) by (auto simp: storage_Get_def current_tag_def split: list.splits elim!: publish_prepare_ok)
    with True publish_write have "storage_Get ErrStorageNotFound tag h0 = storage_Get ErrStorageNotFound tag h"
      by (intro current_tag_Get[of tag]) (auto simp: storage_laws_def)
    with publish_write True show ?thesis
      by (auto simp: storage_PutIfMatch_def intro!: write_history_inv)
  qed (use publish_write in \<open>auto simp: storage_PutIfMatch_def\<close>)
qed

text \<open>
  C8: in the history of the durable snapshot, under any interleaving of any number of
  coordinators, each snapshot has a larger generation than every earlier one, or the same
  generation, the same leader and a larger revision. So a generation has one leader, and a
  leader that was superseded cannot write again in its generation. The history is shorter
  than \<open>2\<^sup>6\<^sup>4\<close>, so that the counters do not wrap.
\<close>

theorem durable_history_fenced:
  assumes "storage_run ops tag h" and "storage_laws ops tag" and "length h < 2 ^ 64"
    and "i < j" and "j < length h"
    and "op_unmarshal ops (h ! i) = Inr new" and "op_unmarshal ops (h ! j) = Inr old"
  shows "sn_Generation old < sn_Generation new \<or>
    sn_Generation old = sn_Generation new \<and> sn_LeaderId old = sn_LeaderId new \<and> sn_Revision old < sn_Revision new"
proof -
  have "sorted_wrt supersedes (decoded ops h)"
    using storage_run_inv[OF assms(1-3)] by (simp add: history_inv_def)
  with assms(4,5) have "supersedes (decoded ops h ! i) (decoded ops h ! j)"
    by (auto simp: sorted_wrt_iff_nth_less decoded_def)
  with assms(4-7) show ?thesis by (simp add: decoded_def supersedes_def)
qed

definition two_snapshots :: "64 word \<Rightarrow> string \<Rightarrow> Snapshot" where
  "two_snapshots g leader = SnapshotZero\<lparr>sn_Generation := g, sn_LeaderId := leader\<rparr>"

definition two_ops :: "unit coordinator_ops" where
  "two_ops = \<lparr>op_marshal = (\<lambda>s. if s = two_snapshots 1 ''n1'' then Inr ''a'' else if s = two_snapshots 2 ''n2'' then Inr ''b''
       else Inl (errors_New ''codec'')),
     op_unmarshal = (\<lambda>b. if b = ''a'' then Inr (two_snapshots 1 ''n1'') else if b = ''b'' then Inr (two_snapshots 2 ''n2'')
       else Inl (errors_New ''codec'')),
     op_reconcile = (\<lambda>view d. (None, d))\<rparr>"

definition two_coordinator :: "string \<Rightarrow> unit Coordinator" where
  "two_coordinator nid = example_leader\<lparr>co_config := example_config\<lparr>cfg_NodeID := nid\<rparr>,
     co_controller := example_controller\<lparr>c_services := []\<rparr>\<rparr>"

lemma two_laws: "storage_laws two_ops content_tag"
  using content_tag_laws by (auto simp: storage_laws_def two_ops_def two_snapshots_def split: if_splits)

lemma two_prepare:
  "acquire_prepare two_ops (storage_Get ErrStorageNotFound content_tag []) (two_coordinator ''n1'') = Inr (two_snapshots 1 ''n1'', ''a'', [])"
  "acquire_prepare two_ops (storage_Get ErrStorageNotFound content_tag [''a'']) (two_coordinator ''n2'')
     = Inr (two_snapshots 2 ''n2'', ''b'', content_tag 1 ''a'')"
proof -
  have overlay: "overlayLocalContract (two_coordinator nid) (clear_backends s) = s" if "sn_Services s = []" for nid s
    using that by (simp add: overlayLocalContract_def clear_backends_def two_coordinator_def Contract_def
        example_controller_def desiredContract_def sortedDesired_def Let_def)
  have own: "ValidateSnapshotOwnership (Some s) = None" if "sn_Services s = []" for s
    using that by (simp add: ValidateSnapshotOwnership_iff)
  show "acquire_prepare two_ops (storage_Get ErrStorageNotFound content_tag []) (two_coordinator ''n1'') = Inr (two_snapshots 1 ''n1'', ''a'', [])"
    using overlay[of SnapshotZero "''n1''"] own
    by (simp add: acquire_prepare_def storage_Get_def two_ops_def two_snapshots_def SnapshotZero_def
        two_coordinator_def Let_def)
  show "acquire_prepare two_ops (storage_Get ErrStorageNotFound content_tag [''a'']) (two_coordinator ''n2'')
     = Inr (two_snapshots 2 ''n2'', ''b'', content_tag 1 ''a'')"
    using overlay[of "two_snapshots 1 ''n1''" "''n2''"] own
    by (simp add: acquire_prepare_def storage_Get_def two_ops_def two_snapshots_def SnapshotZero_def
        two_coordinator_def current_tag_def Let_def)
qed

theorem durable_history_fenced_witness:
  "storage_run two_ops content_tag [''b'', ''a''] \<and>
   sn_Generation (two_snapshots 1 ''n1'') < sn_Generation (two_snapshots 2 ''n2'')"
proof -
  have "storage_run two_ops content_tag [''a'']"
    by (rule acquire_write[OF start _ two_prepare(1)]) (simp_all add: storage_PutIfMatch_def current_tag_def)
  from acquire_write[OF this _ two_prepare(2)] have run: "storage_run two_ops content_tag [''b'', ''a'']"
    by (simp add: storage_PutIfMatch_def current_tag_def)
  from durable_history_fenced[OF this two_laws, of 0 1 "two_snapshots 2 ''n2''" "two_snapshots 1 ''n1''"] run show ?thesis
    by (simp add: two_ops_def two_snapshots_def SnapshotZero_def)
qed

end
