(* ===== verification/Go_Json.thy ===== *)
theory Go_Json
  imports Go_Prelude
begin

text \<open>
  What Podmin uses of the standard package \<open>encoding/json\<close>: reading a text into a value tree
  and writing one. An object keeps its members in the order of the text, duplicates
  included, because the code looks for them; a number keeps its literal. Reading follows
  the scanner of the package: insignificant space, literals, numbers, strings with escapes,
  and bytes that are not UTF-8 replaced by U+FFFD. Objects and arrays may be nested without
  a bound; the package stops at ten thousand levels.
\<close>

datatype json =
    JNull
  | JBool bool
  | JNumber string
  | JString string
  | JArray "json list"
  | JObject "(string \<times> json) list"

section \<open>Runes\<close>

abbreviation byte_of :: "char \<Rightarrow> nat" where
  "byte_of \<equiv> of_char"

definition cont_byte :: "char \<Rightarrow> bool" where
  "cont_byte c \<longleftrightarrow> 0x80 \<le> byte_of c \<and> byte_of c \<le> 0xBF"

definition between :: "nat \<Rightarrow> nat \<Rightarrow> char \<Rightarrow> bool" where
  "between a b c \<longleftrightarrow> a \<le> byte_of c \<and> byte_of c \<le> b"

text \<open>The length of the UTF-8 encoding at the start of a text; 0 when there is none.\<close>

definition rune_length :: "string \<Rightarrow> nat" where
  "rune_length s =
     (case s of
        [] \<Rightarrow> 0
      | c # t \<Rightarrow>
          if byte_of c < 0x80 then 1
          else (case t of
            [] \<Rightarrow> 0
          | d # u \<Rightarrow>
              if between 0xC2 0xDF c \<and> cont_byte d then 2
              else (case u of
                [] \<Rightarrow> 0
              | e # v \<Rightarrow>
                  if (byte_of c = 0xE0 \<and> between 0xA0 0xBF d \<or> between 0xE1 0xEC c \<and> cont_byte d
                      \<or> byte_of c = 0xED \<and> between 0x80 0x9F d \<or> between 0xEE 0xEF c \<and> cont_byte d) \<and> cont_byte e
                  then 3
                  else (case v of
                    [] \<Rightarrow> 0
                  | f # _ \<Rightarrow>
                      if (byte_of c = 0xF0 \<and> between 0x90 0xBF d \<or> between 0xF1 0xF3 c \<and> cont_byte d
                          \<or> byte_of c = 0xF4 \<and> between 0x80 0x8F d) \<and> cont_byte e \<and> cont_byte f
                      then 4 else 0))))"

definition utf8_encode :: "nat \<Rightarrow> string" where
  "utf8_encode r =
     (if r < 0x80 then [char_of r]
      else if r < 0x800 then [char_of (0xC0 + r div 64), char_of (0x80 + r mod 64)]
      else if r < 0x10000
      then [char_of (0xE0 + r div 4096), char_of (0x80 + (r div 64) mod 64), char_of (0x80 + r mod 64)]
      else [char_of (0xF0 + r div 262144), char_of (0x80 + (r div 4096) mod 64),
            char_of (0x80 + (r div 64) mod 64), char_of (0x80 + r mod 64)])"

definition RuneError :: nat where
  "RuneError = 0xFFFD"

definition is_surrogate :: "nat \<Rightarrow> bool" where
  "is_surrogate r \<longleftrightarrow> 0xD800 \<le> r \<and> r < 0xE000"

definition surrogate_pair :: "nat \<Rightarrow> nat \<Rightarrow> nat option" where
  "surrogate_pair r r' =
     (if 0xD800 \<le> r \<and> r < 0xDC00 \<and> 0xDC00 \<le> r' \<and> r' < 0xE000
      then Some ((r - 0xD800) * 1024 + (r' - 0xDC00) + 0x10000) else None)"

section \<open>Reading\<close>

fun hex4 :: "string \<Rightarrow> (nat \<times> string) option" where
  "hex4 (a # b # c # d # s) =
     (case (hex_digit a, hex_digit b, hex_digit c, hex_digit d) of
        (Some w, Some x, Some y, Some z) \<Rightarrow> Some (((w * 16 + x) * 16 + y) * 16 + z, s)
      | _ \<Rightarrow> None)"
| "hex4 s = None"

definition simple_escape :: "char \<Rightarrow> string option" where
  "simple_escape c =
     (if c = CHR 0x22 \<or> c = CHR 0x5C \<or> c = CHR ''/'' then Some [c]
      else if c = CHR ''b'' then Some [CHR 0x08]
      else if c = CHR ''f'' then Some [CHR 0x0C]
      else if c = CHR ''n'' then Some [CHR 0x0A]
      else if c = CHR ''r'' then Some [CHR 0x0D]
      else if c = CHR ''t'' then Some [CHR 0x09]
      else None)"

text \<open>A second half of a surrogate pair, when one follows.\<close>

definition low_half :: "nat \<Rightarrow> string \<Rightarrow> (nat \<times> string) option" where
  "low_half r s =
     (case s of
        b # u # s' \<Rightarrow>
          if b = CHR 0x5C \<and> u = CHR ''u''
          then (case hex4 s' of
                  None \<Rightarrow> None
                | Some (r', s'') \<Rightarrow> (case surrogate_pair r r' of None \<Rightarrow> None | Some q \<Rightarrow> Some (q, s'')))
          else None
      | _ \<Rightarrow> None)"

lemma hex4_length: "hex4 s = Some (r, t) \<Longrightarrow> length t < length s"
  by (induction s rule: hex4.induct) (auto split: option.splits)

lemma low_half_length: "low_half r s = Some (q, t) \<Longrightarrow> length t < length s"
  by (auto simp: low_half_def dest!: hex4_length split: list.splits if_splits option.splits)

text \<open>The text of a string after its opening quote.\<close>

function parse_string :: "string \<Rightarrow> (string \<times> string) option" where
  "parse_string s =
     (case s of
        [] \<Rightarrow> None
      | c # t \<Rightarrow>
          if c = CHR 0x22 then Some ([], t)
          else if c = CHR 0x5C
          then (case t of
                  [] \<Rightarrow> None
                | e # u \<Rightarrow>
                    if e = CHR ''u''
                    then (case hex4 u of
                            None \<Rightarrow> None
                          | Some (r, v) \<Rightarrow>
                              (case (if is_surrogate r then low_half r v else None) of
                                 Some (q, w) \<Rightarrow> map_option (\<lambda>(x, y). (utf8_encode q @ x, y)) (parse_string w)
                               | None \<Rightarrow> map_option (\<lambda>(x, y).
                                   (utf8_encode (if is_surrogate r then RuneError else r) @ x, y)) (parse_string v)))
                    else (case simple_escape e of
                            None \<Rightarrow> None
                          | Some b \<Rightarrow> map_option (\<lambda>(x, y). (b @ x, y)) (parse_string u)))
          else if byte_of c < 0x20 then None
          else let n = rune_length s
               in if n = 0 then map_option (\<lambda>(x, y). (utf8_encode RuneError @ x, y)) (parse_string t)
                  else map_option (\<lambda>(x, y). (take n s @ x, y)) (parse_string (drop n s)))"
  by pat_completeness auto
termination
  by (relation "measure length") (auto dest!: hex4_length low_half_length split: if_splits)

declare parse_string.simps [simp del]

definition json_space :: "char \<Rightarrow> bool" where
  "json_space c \<longleftrightarrow> c = CHR 0x20 \<or> c = CHR 0x09 \<or> c = CHR 0x0A \<or> c = CHR 0x0D"

definition skip_space :: "string \<Rightarrow> string" where
  "skip_space s = dropWhile json_space s"

definition json_digit :: "char \<Rightarrow> bool" where
  "json_digit c \<longleftrightarrow> CHR ''0'' \<le> c \<and> c \<le> CHR ''9''"

text \<open>The parts of a number literal; an empty list of digits is an error.\<close>

definition int_part :: "string \<Rightarrow> (string \<times> string) option" where
  "int_part s =
     (case s of
        [] \<Rightarrow> None
      | c # t \<Rightarrow>
          if c = CHR ''0'' then Some ([c], t)
          else if json_digit c then Some (c # takeWhile json_digit t, dropWhile json_digit t) else None)"

definition frac_part :: "string \<Rightarrow> (string \<times> string) option" where
  "frac_part s =
     (case s of
        [] \<Rightarrow> Some ([], s)
      | c # t \<Rightarrow>
          if c \<noteq> CHR ''.'' then Some ([], s)
          else if takeWhile json_digit t = [] then None
          else Some (c # takeWhile json_digit t, dropWhile json_digit t))"

definition exp_part :: "string \<Rightarrow> (string \<times> string) option" where
  "exp_part s =
     (case s of
        [] \<Rightarrow> Some ([], s)
      | c # t \<Rightarrow>
          if c \<noteq> CHR ''e'' \<and> c \<noteq> CHR ''E'' then Some ([], s)
          else let sign = (case t of [] \<Rightarrow> [] | d # _ \<Rightarrow> if d = CHR ''+'' \<or> d = CHR ''-'' then [d] else []);
                   u = drop (length sign) t
               in if takeWhile json_digit u = [] then None
                  else Some (c # sign @ takeWhile json_digit u, dropWhile json_digit u))"

definition parse_number :: "string \<Rightarrow> (string \<times> string) option" where
  "parse_number s =
     (let sign = (case s of [] \<Rightarrow> [] | c # _ \<Rightarrow> if c = CHR ''-'' then [c] else [])
      in case int_part (drop (length sign) s) of
           None \<Rightarrow> None
         | Some (i, t) \<Rightarrow>
             (case frac_part t of
                None \<Rightarrow> None
              | Some (f, u) \<Rightarrow>
                  (case exp_part u of None \<Rightarrow> None | Some (e, v) \<Rightarrow> Some (sign @ i @ f @ e, v))))"

text \<open>
  A value, the members of an object after its brace or a comma, and the elements of an
  array. Every call has read a byte, so that the length of the text is enough fuel.
\<close>

fun parse_value :: "nat \<Rightarrow> string \<Rightarrow> (json \<times> string) option"
  and parse_members :: "nat \<Rightarrow> string \<Rightarrow> ((string \<times> json) list \<times> string) option"
  and parse_elements :: "nat \<Rightarrow> string \<Rightarrow> (json list \<times> string) option" where
  "parse_value 0 s = None"
| "parse_value (Suc n) s =
     (case skip_space s of
        [] \<Rightarrow> None
      | c # t \<Rightarrow>
          if c = CHR ''{''
          then (case skip_space t of
                  d # u \<Rightarrow> if d = CHR ''}'' then Some (JObject [], u)
                           else map_option (\<lambda>(ms, v). (JObject ms, v)) (parse_members n t)
                | [] \<Rightarrow> None)
          else if c = CHR ''[''
          then (case skip_space t of
                  d # u \<Rightarrow> if d = CHR '']'' then Some (JArray [], u)
                           else map_option (\<lambda>(es, v). (JArray es, v)) (parse_elements n t)
                | [] \<Rightarrow> None)
          else if c = CHR 0x22 then map_option (\<lambda>(x, u). (JString x, u)) (parse_string t)
          else if HasPrefix (c # t) ''null'' then Some (JNull, drop 4 (c # t))
          else if HasPrefix (c # t) ''true'' then Some (JBool True, drop 4 (c # t))
          else if HasPrefix (c # t) ''false'' then Some (JBool False, drop 5 (c # t))
          else map_option (\<lambda>(x, u). (JNumber x, u)) (parse_number (c # t)))"
| "parse_members 0 s = None"
| "parse_members (Suc n) s =
     (case skip_space s of
        [] \<Rightarrow> None
      | q # t \<Rightarrow>
          if q \<noteq> CHR 0x22 then None
          else case parse_string t of
            None \<Rightarrow> None
          | Some (key, u) \<Rightarrow>
              (case skip_space u of
                 [] \<Rightarrow> None
               | colon # v \<Rightarrow>
                   if colon \<noteq> CHR '':'' then None
                   else case parse_value n v of
                     None \<Rightarrow> None
                   | Some (j, w) \<Rightarrow>
                       (case skip_space w of
                          [] \<Rightarrow> None
                        | d # x \<Rightarrow>
                            if d = CHR ''}'' then Some ([(key, j)], x)
                            else if d = CHR '','' then map_option (\<lambda>(ms, y). ((key, j) # ms, y)) (parse_members n x)
                            else None)))"
| "parse_elements 0 s = None"
| "parse_elements (Suc n) s =
     (case parse_value n s of
        None \<Rightarrow> None
      | Some (j, w) \<Rightarrow>
          (case skip_space w of
             [] \<Rightarrow> None
           | d # x \<Rightarrow>
               if d = CHR '']'' then Some ([j], x)
               else if d = CHR '','' then map_option (\<lambda>(es, y). (j # es, y)) (parse_elements n x)
               else None))"

text \<open>One value and nothing but space after it.\<close>

definition parse_json :: "string \<Rightarrow> json option" where
  "parse_json s =
     (case parse_value (Suc (length s)) s of
        None \<Rightarrow> None
      | Some (j, rest) \<Rightarrow> if skip_space rest = [] then Some j else None)"

section \<open>Writing\<close>

definition hex_escape :: "nat \<Rightarrow> string" where
  "hex_escape n = [CHR 0x5C, CHR ''u'', digit_char (n div 4096 mod 16), digit_char (n div 256 mod 16),
     digit_char (n div 16 mod 16), digit_char (n mod 16)]"

definition escape_byte :: "char \<Rightarrow> string" where
  "escape_byte c =
     (if c = CHR 0x22 \<or> c = CHR 0x5C then [CHR 0x5C, c]
      else if c = CHR 0x08 then [CHR 0x5C, CHR ''b'']
      else if c = CHR 0x0C then [CHR 0x5C, CHR ''f'']
      else if c = CHR 0x0A then [CHR 0x5C, CHR ''n'']
      else if c = CHR 0x0D then [CHR 0x5C, CHR ''r'']
      else if c = CHR 0x09 then [CHR 0x5C, CHR ''t'']
      else if byte_of c < 0x20 \<or> c = CHR ''<'' \<or> c = CHR ''>'' \<or> c = CHR ''&''
      then hex_escape (byte_of c)
      else [c])"

definition line_separators :: "string list" where
  "line_separators = [[CHR 0xE2, CHR 0x80, CHR 0xA8], [CHR 0xE2, CHR 0x80, CHR 0xA9]]"

function escape_string :: "string \<Rightarrow> string" where
  "escape_string s =
     (case s of
        [] \<Rightarrow> []
      | c # t \<Rightarrow>
          if byte_of c < 0x80 then escape_byte c @ escape_string t
          else let n = rune_length s
               in if n = 0 then hex_escape RuneError @ escape_string t
                  else (if take n s = line_separators ! 0 then hex_escape 0x2028
                        else if take n s = line_separators ! 1 then hex_escape 0x2029
                        else take n s) @ escape_string (drop n s))"
  by pat_completeness auto
termination
  by (relation "measure length") auto

declare escape_string.simps [simp del]

definition json_string :: "string \<Rightarrow> string" where
  "json_string s = CHR 0x22 # escape_string s @ [CHR 0x22]"

fun json_text :: "json \<Rightarrow> string" where
  "json_text JNull = ''null''"
| "json_text (JBool b) = (if b then ''true'' else ''false'')"
| "json_text (JNumber x) = x"
| "json_text (JString s) = json_string s"
| "json_text (JArray es) = ''['' @ strings_Join (map json_text es) '','' @ '']''"
| "json_text (JObject ms) =
     ''{'' @ strings_Join (map (\<lambda>(k, v). json_string k @ '':'' @ json_text v) ms) '','' @ ''}''"

section \<open>Reading what was written\<close>

text \<open>Characters that stand for themselves in both directions.\<close>

definition plain_char :: "char \<Rightarrow> bool" where
  "plain_char c \<longleftrightarrow> 0x20 \<le> byte_of c \<and> byte_of c < 0x80 \<and> c \<notin> {CHR 0x22, CHR 0x5C, CHR ''<'', CHR ''>'', CHR ''&''}"

lemma plain_not_control:
  "plain_char c \<Longrightarrow> c \<noteq> CHR 0x08" "plain_char c \<Longrightarrow> c \<noteq> CHR 0x0C" "plain_char c \<Longrightarrow> c \<noteq> CHR 0x0A"
  "plain_char c \<Longrightarrow> c \<noteq> CHR 0x0D" "plain_char c \<Longrightarrow> c \<noteq> CHR 0x09"
  unfolding plain_char_def by force+

lemma escape_byte_plain:
  assumes "plain_char c"
  shows "escape_byte c = [c]"
proof -
  have "\<not> byte_of c < 0x20" "c \<noteq> CHR 0x22" "c \<noteq> CHR 0x5C" "c \<noteq> CHR ''<''" "c \<noteq> CHR ''>''" "c \<noteq> CHR ''&''"
    using assms unfolding plain_char_def by simp_all
  with plain_not_control[OF assms] show ?thesis unfolding escape_byte_def by simp
qed

lemma escape_plain: "list_all plain_char s \<Longrightarrow> escape_string s = s"
proof (induction s)
  case (Cons c s)
  then have "escape_byte c = [c]" by (simp add: escape_byte_plain)
  with Cons show ?case by (simp add: escape_string.simps[of "c # s"] plain_char_def)
qed (simp add: escape_string.simps)

lemma parse_string_plain: "list_all plain_char s \<Longrightarrow> parse_string (s @ CHR 0x22 # rest) = Some (s, rest)"
proof (induction s)
  case (Cons c s)
  then have c: "plain_char c" "rune_length (c # s @ CHR 0x22 # rest) = 1" by (simp_all add: rune_length_def plain_char_def)
  with Cons show ?case
    by (simp add: parse_string.simps[of "c # s @ CHR 0x22 # rest"] plain_char_def Let_def)
qed (simp add: parse_string.simps)

fun plain_json :: "json \<Rightarrow> bool" where
  "plain_json JNull = True"
| "plain_json (JBool b) = True"
| "plain_json (JNumber x) = False"
| "plain_json (JString s) = list_all plain_char s"
| "plain_json (JArray es) = list_all plain_json es"
| "plain_json (JObject ms) = list_all (\<lambda>(k, v). list_all plain_char k \<and> plain_json v) ms"

lemma skip_space_simps [simp]:
  "skip_space [] = []" "\<not> json_space c \<Longrightarrow> skip_space (c # s) = c # s"
  by (simp_all add: skip_space_def)

lemma not_space [simp]:
  "\<not> json_space CHR ''{''" "\<not> json_space CHR ''}''" "\<not> json_space CHR ''[''" "\<not> json_space CHR '']''"
  "\<not> json_space CHR 0x22" "\<not> json_space CHR '':''" "\<not> json_space CHR '',''"
  "\<not> json_space CHR ''n''" "\<not> json_space CHR ''t''" "\<not> json_space CHR ''f''"
  by (simp_all add: json_space_def)

lemma json_string_plain: "list_all plain_char s \<Longrightarrow> json_string s = CHR 0x22 # s @ [CHR 0x22]"
  by (simp add: json_string_def escape_plain)

text \<open>The first byte of a value is not a space and not a closing bracket.\<close>

lemma json_text_start:
  assumes "plain_json j"
  obtains c t where "json_text j = c # t" "\<not> json_space c" "c \<noteq> CHR '']''" "c \<noteq> CHR ''}''"
proof (cases j)
  case (JBool b)
  then show ?thesis using that by (cases b) auto
qed (use assms that in \<open>auto simp: json_string_def\<close>)

lemma parse_members_text:
  assumes "ms \<noteq> []" and "\<And>k v. (k, v) \<in> set ms \<Longrightarrow> list_all plain_char k"
    and "\<And>k v m r. (k, v) \<in> set ms \<Longrightarrow> length (json_text v) \<le> m \<Longrightarrow> parse_value m (json_text v @ r) = Some (v, r)"
    and "length (strings_Join (map (\<lambda>(k, v). json_string k @ '':'' @ json_text v) ms) '','') < n"
  shows "parse_members n (strings_Join (map (\<lambda>(k, v). json_string k @ '':'' @ json_text v) ms) '','' @ CHR ''}'' # rest)
    = Some (ms, rest)"
  using assms
proof (induction ms arbitrary: n)
  case (Cons m ms)
  obtain k v where m: "m = (k, v)" by fastforce
  obtain n' where n: "n = Suc n'" using Cons.prems(4) by (cases n) auto
  have k: "list_all plain_char k" using Cons.prems(2)[of k v] m by simp
  note val = Cons.prems(3)[of k v]
  show ?case
  proof (cases ms)
    case Nil
    with Cons.prems(4) have "length (json_text v) \<le> n'" by (simp add: m n json_string_def)
    with k val show ?thesis by (simp add: Nil m n json_string_plain parse_string_plain)
  next
    case (Cons m' ms')
    let ?rest = "strings_Join (map (\<lambda>(k, v). json_string k @ '':'' @ json_text v) ms) '',''"
    have join: "strings_Join (map (\<lambda>(k, v). json_string k @ '':'' @ json_text v) (m # ms)) '','' =
        json_string k @ '':'' @ json_text v @ '','' @ ?rest" by (simp add: Cons m split_def)
    have len: "length (json_text v) \<le> n'" "length ?rest < n'"
      using Cons.prems(4) unfolding join by (auto simp: n json_string_def)
    have "parse_members n' (?rest @ CHR ''}'' # rest) = Some (ms, rest)"
    proof (rule Cons.IH)
      show "ms \<noteq> []" using Cons by simp
      show "list_all plain_char k" if "(k, v) \<in> set ms" for k v using Cons.prems(2)[of k v] that by simp
      show "parse_value m (json_text v @ r) = Some (v, r)" if "(k, v) \<in> set ms" "length (json_text v) \<le> m"
        for k v m r using Cons.prems(3)[of k v] that by simp
      show "length ?rest < n'" by (fact len(2))
    qed
    with k val[OF _ len(1)] show ?thesis
      unfolding join by (simp add: m n json_string_plain parse_string_plain)
  qed
qed simp

lemma parse_elements_text:
  assumes "es \<noteq> []"
    and "\<And>v m r. v \<in> set es \<Longrightarrow> length (json_text v) \<le> m \<Longrightarrow> parse_value m (json_text v @ r) = Some (v, r)"
    and "length (strings_Join (map json_text es) '','') < n"
  shows "parse_elements n (strings_Join (map json_text es) '','' @ CHR '']'' # rest) = Some (es, rest)"
  using assms
proof (induction es arbitrary: n)
  case (Cons e es)
  obtain n' where n: "n = Suc n'" using Cons.prems(3) by (cases n) auto
  note val = Cons.prems(2)[of e]
  show ?case
  proof (cases es)
    case Nil
    with Cons.prems(3) val show ?thesis by (simp add: n)
  next
    case (Cons e' es')
    let ?rest = "strings_Join (map json_text es) '',''"
    have join: "strings_Join (map json_text (e # es)) '','' = json_text e @ '','' @ ?rest" by (simp add: Cons)
    have len: "length (json_text e) \<le> n'" "length ?rest < n'"
      using Cons.prems(3) unfolding join by (auto simp: n)
    have "parse_elements n' (?rest @ CHR '']'' # rest) = Some (es, rest)"
    proof (rule Cons.IH)
      show "es \<noteq> []" using Cons by simp
      show "parse_value m (json_text v @ r) = Some (v, r)" if "v \<in> set es" "length (json_text v) \<le> m" for v m r
        using Cons.prems(2)[of v] that by simp
      show "length ?rest < n'" by (fact len(2))
    qed
    with val[OF _ len(1)] show ?thesis unfolding join by (simp add: n)
  qed
qed simp

lemma strings_Join_start:
  assumes "xs \<noteq> []" and "hd xs = c # t"
  shows "\<exists>u. strings_Join xs sep = c # u"
  using assms by (cases xs; cases "tl xs") auto

lemma parse_value_text:
  assumes "plain_json j" and "length (json_text j) \<le> n"
  shows "parse_value n (json_text j @ rest) = Some (j, rest)"
  using assms
proof (induction j arbitrary: n rest)
  case JNull
  then show ?case by (cases n) (simp_all add: HasPrefix_def)
next
  case (JBool b)
  then show ?case by (cases n; cases b) (simp_all add: HasPrefix_def)
next
  case (JString s)
  then show ?case by (cases n) (simp_all add: json_string_plain parse_string_plain)
next
  case (JArray es)
  then obtain n' where n: "n = Suc n'" by (cases n) auto
  show ?case
  proof (cases "es = []")
    case True
    then show ?thesis by (simp add: n)
  next
    case False
    with JArray.prems(1) have "plain_json (hd es)" by (simp add: list_all_iff)
    then obtain c t where hd: "json_text (hd es) = c # t" "\<not> json_space c" "c \<noteq> CHR '']''"
      by (rule json_text_start)
    with False obtain u where u: "strings_Join (map json_text es) '','' = c # u"
      using strings_Join_start[of "map json_text es" c t "'',''"] by (auto simp: hd_map)
    have "parse_elements n' (strings_Join (map json_text es) '','' @ CHR '']'' # rest) = Some (es, rest)"
      using JArray False by (intro parse_elements_text) (auto simp: n list_all_iff)
    then show ?thesis using hd by (simp add: n u)
  qed
next
  case (JObject ms)
  then obtain n' where n: "n = Suc n'" by (cases n) auto
  show ?case
  proof (cases "ms = []")
    case True
    then show ?thesis by (simp add: n)
  next
    case False
    then obtain u where u: "strings_Join (map (\<lambda>(k, v). json_string k @ '':'' @ json_text v) ms) '','' = CHR 0x22 # u"
      using strings_Join_start[of "map (\<lambda>(k, v). json_string k @ '':'' @ json_text v) ms" "CHR 0x22" _ "'',''"]
      by (auto simp: hd_map json_string_def split_def)
    have "parse_members n' (strings_Join (map (\<lambda>(k, v). json_string k @ '':'' @ json_text v) ms) '','' @ CHR ''}'' # rest)
        = Some (ms, rest)"
      using JObject False by (intro parse_members_text) (force simp: n list_all_iff)+
    then show ?thesis using u by (simp add: n)
  qed
qed simp

lemma parse_json_text:
  assumes "plain_json j" and "skip_space space = []"
  shows "parse_json (json_text j @ space) = Some j"
  using parse_value_text[OF assms(1), of "Suc (length (json_text j @ space))" space] assms(2)
  by (simp add: parse_json_def)

end
