(* ===== verification/Manifest_Index.thy ===== *)
theory Manifest_Index
  imports Go_Json Manifest_Ids Sha512
begin

text \<open>
  The committed desired state of a cluster, \<open>src/internal/manifest/index.go\<close>: one JSON object
  that maps \<open>nodegroup/name\<close> to the content-addressed keys of a Pod and, optionally, of its
  Service. The map is an association list with distinct keys. Reading is strict: duplicate
  and unknown members, trailing text, malformed keys and two references to one Service are
  refused. When a text both is malformed and has duplicate members, the error of the
  malformed text is the one returned here.
\<close>

section \<open>Keys\<close>

record IndexDeployment =
  id_Pod :: string
  id_Service :: string

type_synonym Index = "(string \<times> IndexDeployment) list"

definition manifest_Digest :: "string \<Rightarrow> string" where
  "manifest_Digest body = hex_EncodeToString (sha512 body)"

definition objectDigest :: "string \<Rightarrow> string \<times> bool" where
  "objectDigest key =
     (let filename = drop (nat (LastIndex key CHR ''/'' + 1)) key;
          digest = TrimSuffix filename ''.yaml''
      in (digest, HasSuffix filename ''.yaml''
            \<and> (case hex_DecodeString digest of Some decoded \<Rightarrow> length decoded = 64 | None \<Rightarrow> False)
            \<and> digest = ToLower digest))"

definition Verify :: "string \<Rightarrow> string \<Rightarrow> error option" where
  "Verify object body =
     (let (digest, ok) = objectDigest object
      in if \<not> ok \<or> manifest_Digest body \<noteq> digest then Some (errors_New ''SHA-512 mismatch'') else None)"

definition DeploymentKey :: "string \<Rightarrow> string \<Rightarrow> string" where
  "DeploymentKey nodeGroup name = nodeGroup @ ''/'' @ name"

definition DeploymentIdentity :: "string \<Rightarrow> (string \<times> string) option" where
  "DeploymentIdentity key =
     (case Split key CHR ''/'' of
        [nodeGroup, name] \<Rightarrow> if \<not> ValidID nodeGroup \<or> \<not> ValidID name then None else Some (nodeGroup, name)
      | _ \<Rightarrow> None)"

definition ServiceIdentity :: "string \<Rightarrow> (string \<times> string \<times> string) option" where
  "ServiceIdentity key =
     (case Split key CHR ''/'' of
        [services, namespace, name, algorithm, _] \<Rightarrow>
          if services \<noteq> ''services'' \<or> \<not> ValidNamespace namespace \<or> \<not> ValidID name \<or> algorithm \<noteq> ''sha512''
             \<or> \<not> snd (objectDigest key)
          then None else Some (namespace, name, namespace @ ''/'' @ name)
      | _ \<Rightarrow> None)"

definition podObject :: "string \<Rightarrow> string \<Rightarrow> bool" where
  "podObject key nodeGroup =
     (case Split key CHR ''/'' of
        [kind, owner, pods, algorithm, _] \<Rightarrow>
          kind = ''nodegroups'' \<and> owner = nodeGroup \<and> pods = ''pods'' \<and> algorithm = ''sha512'' \<and> snd (objectDigest key)
      | _ \<Rightarrow> False)"

section \<open>Reading\<close>

text \<open>One value of the text and every object in it: no member name appears twice.\<close>

fun scanJSONValue :: "json \<Rightarrow> error option" where
  "scanJSONValue (JObject members) =
     (case fold_res (\<lambda>(key, v) seen.
              if key \<in> seen then Inl (Errorf ''duplicate JSON object key %q'' [key])
              else case scanJSONValue v of Some e \<Rightarrow> Inl e | None \<Rightarrow> Inr (insert key seen)) members {} of
        Inl e \<Rightarrow> Some e
      | Inr _ \<Rightarrow> None)"
| "scanJSONValue (JArray elements) = first_err scanJSONValue elements"
| "scanJSONValue _ = None"

definition syntax_error :: error where
  "syntax_error = Sentinel ''JSON syntax error''"

definition rejectDuplicateJSONKeys :: "string \<Rightarrow> error option" where
  "rejectDuplicateJSONKeys body =
     (case parse_value (Suc (length body)) body of
        None \<Rightarrow> Some syntax_error
      | Some (j, rest) \<Rightarrow>
          (case scanJSONValue j of
             Some e \<Rightarrow> Some e
           | None \<Rightarrow> if skip_space rest \<noteq> [] then Some (errors_New ''index contains invalid trailing JSON'') else None))"

text \<open>
  A member belongs to the field whose name it equals up to case; U+017F folds to \<open>s\<close>.
\<close>

fun fold_name :: "string \<Rightarrow> string" where
  "fold_name (a # b # s) =
     (if a = CHR 0xC5 \<and> b = CHR 0xBF then CHR ''s'' # fold_name s else to_lower_char a # fold_name (b # s))"
| "fold_name s = ToLower s"

definition string_member :: "json \<Rightarrow> string \<Rightarrow> error + string" where
  "string_member v old =
     (case v of
        JString s \<Rightarrow> Inr s
      | JNull \<Rightarrow> Inr old
      | _ \<Rightarrow> Inl (errors_New ''json: cannot unmarshal value into Go value of type manifest.IndexObject''))"

definition decode_member :: "string \<times> json \<Rightarrow> IndexDeployment \<Rightarrow> error + IndexDeployment" where
  "decode_member = (\<lambda>(key, v) deployment.
     if fold_name key = ''pod''
     then (case string_member v (id_Pod deployment) of Inl e \<Rightarrow> Inl e | Inr s \<Rightarrow> Inr (deployment\<lparr>id_Pod := s\<rparr>))
     else if fold_name key = ''service''
     then (case string_member v (id_Service deployment) of Inl e \<Rightarrow> Inl e | Inr s \<Rightarrow> Inr (deployment\<lparr>id_Service := s\<rparr>))
     else Inl (Errorf ''json: unknown field %q'' [key]))"

definition decode_deployment :: "json \<Rightarrow> error + IndexDeployment" where
  "decode_deployment v =
     (case v of
        JNull \<Rightarrow> Inr \<lparr>id_Pod = [], id_Service = []\<rparr>
      | JObject members \<Rightarrow> fold_res decode_member members \<lparr>id_Pod = [], id_Service = []\<rparr>
      | _ \<Rightarrow> Inl (errors_New ''json: cannot unmarshal value into Go value of type manifest.IndexDeployment''))"

text \<open>The index, or \<^term>\<open>None\<close> for the nil map that \<open>null\<close> leaves.\<close>

definition decode_index :: "json \<Rightarrow> error + Index option" where
  "decode_index v =
     (case v of
        JNull \<Rightarrow> Inr None
      | JObject members \<Rightarrow>
          (case fold_res (\<lambda>(key, v) index. case decode_deployment v of
                  Inl e \<Rightarrow> Inl e | Inr deployment \<Rightarrow> Inr (AList.update key deployment index)) members [] of
             Inl e \<Rightarrow> Inl e
           | Inr index \<Rightarrow> Inr (Some index))
      | _ \<Rightarrow> Inl (errors_New ''json: cannot unmarshal value into Go value of type manifest.Index''))"

definition check_entry :: "string \<times> IndexDeployment \<Rightarrow> string set \<Rightarrow> error + string set" where
  "check_entry = (\<lambda>(key, deployment) services.
     if (case DeploymentIdentity key of Some (nodeGroup, _) \<Rightarrow> \<not> podObject (id_Pod deployment) nodeGroup | None \<Rightarrow> True)
     then Inl (Errorf ''invalid index deployment %q'' [key])
     else if id_Service deployment = [] then Inr services
     else case ServiceIdentity (id_Service deployment) of
            None \<Rightarrow> Inl (Errorf ''invalid or duplicate Service reference for deployment %q'' [key])
          | Some (_, _, identity) \<Rightarrow>
              if identity \<in> services
              then Inl (Errorf ''invalid or duplicate Service reference for deployment %q'' [key])
              else Inr (insert identity services))"

definition ParseIndex :: "string \<Rightarrow> error + Index" where
  "ParseIndex body =
     (case rejectDuplicateJSONKeys body of
        Some e \<Rightarrow> Inl (Wrapf ''parse index'' [] e)
      | None \<Rightarrow>
          (case parse_json body of
             None \<Rightarrow> Inl (Wrapf ''parse index'' [] syntax_error)
           | Some v \<Rightarrow>
               (case decode_index v of
                  Inl e \<Rightarrow> Inl (Wrapf ''parse index'' [] e)
                | Inr None \<Rightarrow> Inl (errors_New ''incomplete index'')
                | Inr (Some index) \<Rightarrow>
                    (case fold_res check_entry index {} of Inl e \<Rightarrow> Inl e | Inr _ \<Rightarrow> Inr index))))"

section \<open>Writing\<close>

definition deployment_json :: "IndexDeployment \<Rightarrow> json" where
  "deployment_json d = JObject ((''pod'', JString (id_Pod d)) #
     (if id_Service d = [] then [] else [(''service'', JString (id_Service d))]))"

definition index_json :: "Index \<Rightarrow> json" where
  "index_json index =
     JObject (map (\<lambda>(key, d). (key, deployment_json d)) (sort_slice (\<lambda>x y. fst x < fst y) index))"

definition MarshalIndex :: "Index \<Rightarrow> error + string" where
  "MarshalIndex index =
     (let body = json_text (index_json index)
      in case ParseIndex body of Inl e \<Rightarrow> Inl e | Inr _ \<Rightarrow> Inr (body @ [CHR 0x0A]))"

section \<open>What a valid index is\<close>

definition service_identity :: "string \<times> IndexDeployment \<Rightarrow> string" where
  "service_identity = (\<lambda>(key, d). case ServiceIdentity (id_Service d) of Some (_, _, i) \<Rightarrow> i | None \<Rightarrow> [])"

definition valid_entry :: "string \<times> IndexDeployment \<Rightarrow> bool" where
  "valid_entry = (\<lambda>(key, d).
     (\<exists>nodeGroup name. DeploymentIdentity key = Some (nodeGroup, name) \<and> podObject (id_Pod d) nodeGroup) \<and>
     (id_Service d \<noteq> [] \<longrightarrow> ServiceIdentity (id_Service d) \<noteq> None))"

definition valid_index :: "Index \<Rightarrow> bool" where
  "valid_index index \<longleftrightarrow> distinct (map fst index) \<and> list_all valid_entry index \<and>
     distinct (map service_identity (filter (\<lambda>(_, d). id_Service d \<noteq> []) index))"

lemma check_entries:
  "(\<exists>s. fold_res check_entry index seen = Inr s) \<longleftrightarrow> list_all valid_entry index \<and>
     distinct (map service_identity (filter (\<lambda>(_, d). id_Service d \<noteq> []) index)) \<and>
     service_identity ` set (filter (\<lambda>(_, d). id_Service d \<noteq> []) index) \<inter> seen = {}"
proof (induction index arbitrary: seen)
  case (Cons x index)
  obtain key d where x: "x = (key, d)" by fastforce
  show ?case
  proof (cases "valid_entry x")
    case False
    then have "\<exists>e. check_entry x seen = Inl e"
      by (auto simp: x check_entry_def valid_entry_def split: option.splits)
    with False show ?thesis by auto
  next
    case True
    show ?thesis
    proof (cases "id_Service d = []")
      case empty: True
      with True have "check_entry x seen = Inr seen"
        by (auto simp: x check_entry_def valid_entry_def split: option.splits)
      with empty True Cons show ?thesis by (simp add: x)
    next
      case False
      with True obtain ns n i where i: "ServiceIdentity (id_Service d) = Some (ns, n, i)"
        by (auto simp: x valid_entry_def)
      then have s: "service_identity x = i" by (simp add: x service_identity_def)
      from True False i have "check_entry x seen =
          (if i \<in> seen then Inl (Errorf ''invalid or duplicate Service reference for deployment %q'' [key])
           else Inr (insert i seen))"
        by (auto simp: x check_entry_def valid_entry_def split: option.splits)
      with True False Cons[of "insert i seen"] s show ?thesis by (auto simp: x)
    qed
  qed
qed simp

lemma decode_entries:
  assumes "fold_res (\<lambda>(key, v) index. case decode_deployment v of
      Inl e \<Rightarrow> Inl e | Inr deployment \<Rightarrow> Inr (AList.update key deployment index)) members acc = Inr index"
    and "distinct (map fst acc)"
  shows "distinct (map fst index)"
  using assms
  by (induction members arbitrary: acc) (auto simp: distinct_update split: sum.splits)

lemma ParseIndex_valid: "ParseIndex body = Inr index \<Longrightarrow> valid_index index"
proof -
  assume "ParseIndex body = Inr index"
  then obtain v where v: "decode_index v = Inr (Some index)" and c: "\<exists>s. fold_res check_entry index {} = Inr s"
    by (auto simp: ParseIndex_def split: option.splits sum.splits)
  from v have "distinct (map fst index)"
    by (auto simp: decode_index_def split: json.splits sum.splits dest: decode_entries)
  with c show ?thesis unfolding check_entries valid_index_def by simp
qed

section \<open>Reading back what was written\<close>

subsection \<open>The characters of keys\<close>

lemma char_bounds: "a \<le> c \<Longrightarrow> byte_of a \<le> (byte_of c :: nat)" for a c :: char
  by (simp add: less_eq_char_def)

lemma label_plain: "label_char c \<Longrightarrow> plain_char c"
proof -
  assume "label_char c"
  then have "c = CHR ''-'' \<or> (byte_of CHR ''a'' \<le> (byte_of c :: nat) \<and> byte_of c \<le> (byte_of CHR ''z'' :: nat))
      \<or> (byte_of CHR ''0'' \<le> (byte_of c :: nat) \<and> byte_of c \<le> (byte_of CHR ''9'' :: nat))"
    by (auto simp: label_char_def alnum_char_def lower_char_def digit_byte_def less_eq_char_def)
  then show ?thesis unfolding plain_char_def by (elim disjE conjE) auto
qed

lemma hex_plain: "hex_digit c = Some n \<Longrightarrow> plain_char c"
proof -
  assume "hex_digit c = Some n"
  then have "(byte_of CHR ''0'' \<le> (byte_of c :: nat) \<and> byte_of c \<le> (byte_of CHR ''9'' :: nat))
      \<or> (byte_of CHR ''a'' \<le> (byte_of c :: nat) \<and> byte_of c \<le> (byte_of CHR ''f'' :: nat))
      \<or> (byte_of CHR ''A'' \<le> (byte_of c :: nat) \<and> byte_of c \<le> (byte_of CHR ''F'' :: nat))"
    by (auto simp: hex_digit_def less_eq_char_def split: if_splits)
  then show ?thesis unfolding plain_char_def by (elim disjE conjE) auto
qed

definition plain_string :: "string \<Rightarrow> bool" where
  "plain_string s = list_all plain_char s"

lemma hex_string_plain: "hex_DecodeString s = Some bs \<Longrightarrow> plain_string s"
  unfolding plain_string_def
  by (induction s arbitrary: bs rule: hex_DecodeString.induct) (auto split: option.splits dest: hex_plain)

lemma ValidNamespace_plain: "ValidNamespace v \<Longrightarrow> plain_string v"
  by (auto simp: plain_string_def list_all_iff dest: ValidNamespace_chars label_plain)

lemmas ValidID_plain = ValidNamespace_plain[OF ValidID_Namespace]

lemma plain_literals:
  "plain_string ''nodegroups''" "plain_string ''pods''" "plain_string ''sha512''"
  "plain_string ''services''" "plain_string ''pod''" "plain_string ''service''" "plain_string ''.yaml''"
  by (simp_all add: plain_string_def plain_char_def)

lemma objectDigest_plain:
  assumes "snd (objectDigest key)"
  shows "plain_string (last (Split key CHR ''/''))"
proof -
  let ?f = "last (Split key CHR ''/'')"
  from assms obtain bs where "HasSuffix ?f ''.yaml''" "hex_DecodeString (TrimSuffix ?f ''.yaml'') = Some bs"
    by (auto simp: objectDigest_def Let_def drop_LastIndex split: option.splits)
  then obtain t where "?f = t @ ''.yaml''" "hex_DecodeString t = Some bs" by (auto simp: HasSuffix_iff)
  with hex_string_plain plain_literals(7) show ?thesis by (simp add: plain_string_def)
qed

lemma Split_plain:
  assumes "Split s CHR ''/'' = ps" and "list_all plain_string ps"
  shows "plain_string s"
proof -
  have "list_all plain_char (strings_Join ps ''/'')" if "list_all plain_string ps" for ps
    using that by (induction ps "''/''" rule: strings_Join.induct) (auto simp: plain_string_def plain_char_def)
  from this[OF assms(2)] show ?thesis by (simp add: Join_Split plain_string_def assms(1)[symmetric])
qed

lemma DeploymentIdentity_Some:
  "DeploymentIdentity key = Some (g, n) \<longleftrightarrow> Split key CHR ''/'' = [g, n] \<and> ValidID g \<and> ValidID n"
  by (auto simp: DeploymentIdentity_def split: list.splits)

lemma DeploymentIdentity_key: "DeploymentIdentity key = Some (g, n) \<Longrightarrow> key = DeploymentKey g n"
  using Join_Split[of key "CHR ''/''"] by (auto simp: DeploymentIdentity_Some DeploymentKey_def)

lemma DeploymentKey_identity:
  "ValidID g \<Longrightarrow> ValidID n \<Longrightarrow> DeploymentIdentity (DeploymentKey g n) = Some (g, n)"
  using ValidID_no_sep(2)[of g] ValidID_no_sep(2)[of n]
  by (simp add: DeploymentIdentity_Some DeploymentKey_def Split_append_sep)

lemma valid_entry_plain:
  assumes "valid_entry (key, d)"
  shows "plain_string key" "plain_string (id_Pod d)" "plain_string (id_Service d)"
proof -
  from assms obtain g n where id: "DeploymentIdentity key = Some (g, n)" and pod: "podObject (id_Pod d) g"
    by (auto simp: valid_entry_def)
  from id have v: "ValidID g" "ValidID n" "Split key CHR ''/'' = [g, n]" by (simp_all add: DeploymentIdentity_Some)
  show "plain_string key" by (rule Split_plain[OF v(3)]) (simp add: ValidID_plain v)
  from pod obtain f where f: "Split (id_Pod d) CHR ''/'' = [''nodegroups'', g, ''pods'', ''sha512'', f]"
    "snd (objectDigest (id_Pod d))" by (auto simp: podObject_def split: list.splits)
  show "plain_string (id_Pod d)"
    using objectDigest_plain[OF f(2)] by (intro Split_plain[OF f(1)]) (simp add: f(1) plain_literals ValidID_plain v)
  show "plain_string (id_Service d)"
  proof (cases "id_Service d = []")
    case False
    with assms obtain t where "ServiceIdentity (id_Service d) = Some t" by (auto simp: valid_entry_def)
    then obtain ns m h where h: "Split (id_Service d) CHR ''/'' = [''services'', ns, m, ''sha512'', h]"
      "snd (objectDigest (id_Service d))" "ValidNamespace ns" "ValidID m"
      by (auto simp: ServiceIdentity_def split: list.splits if_splits)
    show ?thesis
      using objectDigest_plain[OF h(2)]
      by (intro Split_plain[OF h(1)]) (simp add: h plain_literals ValidID_plain ValidNamespace_plain)
  qed (simp add: plain_string_def)
qed

subsection \<open>The tree\<close>

lemma scan_deployment [simp]: "scanJSONValue (deployment_json d) = None"
  by (simp add: deployment_json_def)

lemma fold_name_fields [simp]: "fold_name ''pod'' = ''pod''" "fold_name ''service'' = ''service''"
  by (simp_all add: to_lower_char_def ToLower_def)

lemma decode_deployment_json [simp]: "decode_deployment (deployment_json d) = Inr d"
  by (simp add: decode_deployment_def deployment_json_def decode_member_def string_member_def
      del: fold_name.simps)

lemma decode_index_entries:
  assumes "distinct (map fst (acc @ xs))"
  shows "fold_res (\<lambda>(key, v) index. case decode_deployment v of
      Inl e \<Rightarrow> Inl e | Inr deployment \<Rightarrow> Inr (AList.update key deployment index))
      (map (\<lambda>(key, d). (key, deployment_json d)) xs) acc = Inr (acc @ xs)"
  using assms
proof (induction xs arbitrary: acc)
  case (Cons x xs)
  obtain k d where x: "x = (k, d)" by fastforce
  have upd: "AList.update k d acc = acc @ [(k, d)]"
    using Cons.prems x by (induction acc) auto
  from Cons.IH[of "acc @ [(k, d)]"] Cons.prems show ?case by (simp add: x upd)
qed simp

abbreviation sorted_index :: "Index \<Rightarrow> Index" where
  "sorted_index index \<equiv> sort_slice (\<lambda>x y. fst x < fst y) index"

lemma decode_index_json: "distinct (map fst index) \<Longrightarrow> decode_index (index_json index) = Inr (Some (sorted_index index))"
  using decode_index_entries[of "[]" "sorted_index index"] by (simp add: decode_index_def index_json_def)

lemma scan_index_json:
  assumes "distinct (map fst index)"
  shows "scanJSONValue (index_json index) = None"
proof -
  have "\<exists>s. fold_res (\<lambda>(key, v) seen.
      if key \<in> seen then Inl (Errorf ''duplicate JSON object key %q'' [key])
      else case scanJSONValue v of Some e \<Rightarrow> Inl e | None \<Rightarrow> Inr (insert key seen))
      (map (\<lambda>(key, d). (key, deployment_json d)) xs) seen = Inr s"
    if "distinct (map fst xs)" "fst ` set xs \<inter> seen = {}" for xs seen
    using that
  proof (induction xs arbitrary: seen)
    case (Cons x xs)
    then show ?case by (cases x) (force simp: image_iff)
  qed simp
  from this[of "sorted_index index" "{}"] assms show ?thesis by (auto simp: index_json_def)
qed

lemma index_json_plain:
  assumes "list_all valid_entry index"
  shows "plain_json (index_json index)"
proof -
  have "plain_json (deployment_json d)" if "valid_entry (k, d)" for k d
    using valid_entry_plain[OF that] plain_literals(5,6) by (simp add: deployment_json_def plain_string_def)
  with assms valid_entry_plain(1) show ?thesis
    by (fastforce simp: index_json_def list_all_iff plain_string_def)
qed

lemma valid_index_sorted: "valid_index index \<Longrightarrow> valid_index (sorted_index index)"
proof -
  assume "valid_index index"
  moreover have "mset (map service_identity (filter P (sorted_index index))) = mset (map service_identity (filter P index))" for P
    by simp
  ultimately show ?thesis
    unfolding valid_index_def by (metis (no_types, lifting) distinct_map_sort_slice list_all_iff mset_eq_imp_distinct_iff set_sort_slice)
qed

lemma ParseIndex_text:
  assumes "valid_index index" and "skip_space space = []"
  shows "ParseIndex (json_text (index_json index) @ space) = Inr (sorted_index index)"
proof -
  have d: "distinct (map fst index)" and v: "list_all valid_entry index" using assms(1) by (simp_all add: valid_index_def)
  note plain = index_json_plain[OF v]
  have "rejectDuplicateJSONKeys (json_text (index_json index) @ space) = None"
    using parse_value_text[OF plain, of "Suc (length (json_text (index_json index) @ space))" space]
      scan_index_json[OF d] assms(2) by (simp add: rejectDuplicateJSONKeys_def)
  moreover have "\<exists>s. fold_res check_entry (sorted_index index) {} = Inr s"
    unfolding check_entries using valid_index_sorted[OF assms(1)] by (simp add: valid_index_def)
  ultimately show ?thesis
    using parse_json_text[OF plain assms(2)] decode_index_json[OF d] by (auto simp: ParseIndex_def)
qed

lemma MarshalIndex_valid:
  assumes "valid_index index"
  shows "MarshalIndex index = Inr (json_text (index_json index) @ [CHR 0x0A])"
  using ParseIndex_text[OF assms, of "[]"] by (simp add: MarshalIndex_def)

end
