(* ===== verification/Go_Path.thy ===== *)
theory Go_Path
  imports Go_Prelude
begin

text \<open>
  What Podmin uses of the standard package \<open>path/filepath\<close> on Unix. A cleaned path is the
  list of its elements: empty elements and single dots are dropped, and a double dot removes
  the element before it. \<open>Rel\<close> is given for two paths of which one is rooted, which is how it
  is called; it fails when the other one is not.
\<close>

definition path_elements :: "string \<Rightarrow> string list" where
  "path_elements path = filter (\<lambda>p. p \<noteq> [] \<and> p \<noteq> ''.'') (Split path CHR ''/'')"

definition rooted :: "string \<Rightarrow> bool" where
  "rooted path \<longleftrightarrow> (\<exists>rest. path = CHR ''/'' # rest)"

lemma rooted_code [code]: "rooted path = (case path of [] \<Rightarrow> False | c # _ \<Rightarrow> c = CHR ''/'')"
  by (cases path) (auto simp: rooted_def)

definition clean_step :: "bool \<Rightarrow> string \<Rightarrow> string list \<Rightarrow> string list" where
  "clean_step absolute p out =
     (if p = ''..''
      then (if out \<noteq> [] \<and> last out \<noteq> ''..'' then butlast out
            else if absolute then out else out @ [p])
      else out @ [p])"

definition clean_elements :: "string \<Rightarrow> string list" where
  "clean_elements path = fold (clean_step (rooted path)) (path_elements path) []"

definition filepath_Clean :: "string \<Rightarrow> string" where
  "filepath_Clean path =
     (if rooted path then ''/'' @ strings_Join (clean_elements path) ''/''
      else if clean_elements path = [] then ''.''
      else strings_Join (clean_elements path) ''/'')"

text \<open>Leading empty elements are skipped; without any other element the result is empty.\<close>

definition filepath_Join :: "string list \<Rightarrow> string" where
  "filepath_Join elements =
     (case dropWhile (\<lambda>e. e = []) elements of
        [] \<Rightarrow> []
      | es \<Rightarrow> filepath_Clean (strings_Join es ''/''))"

definition filepath_Dir :: "string \<Rightarrow> string" where
  "filepath_Dir path = filepath_Clean (take (nat (LastIndex path CHR ''/'' + 1)) path)"

definition filepath_Base :: "string \<Rightarrow> string" where
  "filepath_Base path =
     (if path = [] then ''.''
      else let stripped = rev (dropWhile (\<lambda>c. c = CHR ''/'') (rev path))
           in if stripped = [] then ''/'' else last (Split stripped CHR ''/''))"

fun strip_common :: "string list \<Rightarrow> string list \<Rightarrow> string list \<times> string list" where
  "strip_common (x # xs) (y # ys) = (if x = y then strip_common xs ys else (x # xs, y # ys))"
| "strip_common xs ys = (xs, ys)"

definition filepath_Rel :: "string \<Rightarrow> string \<Rightarrow> string option" where
  "filepath_Rel basepath targpath =
     (if rooted basepath \<noteq> rooted targpath then None
      else let (up, down) = strip_common (clean_elements basepath) (clean_elements targpath)
      in if up = [] \<and> down = [] then Some ''.''
         else if up \<noteq> [] \<and> down \<noteq> [] \<and> hd up = ''..'' then None
         else Some (strings_Join (replicate (length up) ''..'' @ down) ''/''))"

section \<open>Elements\<close>

definition clean_element :: "string \<Rightarrow> bool" where
  "clean_element p \<longleftrightarrow> p \<noteq> [] \<and> p \<noteq> ''.'' \<and> CHR ''/'' \<notin> set p"

lemma path_elements_clean: "p \<in> set (path_elements path) \<Longrightarrow> clean_element p"
  by (auto simp: path_elements_def clean_element_def dest: Split_parts)

lemma clean_step_set: "set (clean_step a p out) \<subseteq> insert p (set out)"
  by (auto simp: clean_step_def dest: in_set_butlastD)

lemma fold_clean_step_set: "set (fold (clean_step a) ps out) \<subseteq> set ps \<union> set out"
proof (induction ps arbitrary: out)
  case (Cons p ps)
  from Cons[of "clean_step a p out"] clean_step_set[of a p out] show ?case by auto
qed simp

lemma clean_elements_clean: "p \<in> set (clean_elements path) \<Longrightarrow> clean_element p"
  using fold_clean_step_set[of "rooted path" "path_elements path" "[]"] path_elements_clean
  by (auto simp: clean_elements_def)

lemma rooted_no_dotdot: "rooted path \<Longrightarrow> ''..'' \<notin> set (clean_elements path)"
proof -
  have "''..'' \<notin> set (fold (clean_step True) ps out)" if "''..'' \<notin> set out" for ps out
    using that by (induction ps arbitrary: out) (auto simp: clean_step_def dest: in_set_butlastD split: if_splits)
  then show "rooted path \<Longrightarrow> ?thesis" by (simp add: clean_elements_def)
qed

lemma Split_Join:
  assumes "ps \<noteq> []" and "\<And>p. p \<in> set ps \<Longrightarrow> sep \<notin> set p"
  shows "Split (strings_Join ps [sep]) sep = ps"
  using assms by (induction ps "[sep]" rule: strings_Join.induct) (auto simp: Split_append_sep)

lemma path_elements_Join:
  assumes "\<And>p. p \<in> set ps \<Longrightarrow> clean_element p"
  shows "path_elements (strings_Join ps ''/'') = ps" "path_elements (''/'' @ strings_Join ps ''/'') = ps"
proof -
  show *: "path_elements (strings_Join ps ''/'') = ps"
  proof (cases "ps = []")
    case False
    then have "Split (strings_Join ps ''/'') CHR ''/'' = ps"
      using assms by (intro Split_Join) (auto simp: clean_element_def)
    then show ?thesis using assms by (auto simp: path_elements_def clean_element_def filter_id_conv)
  qed (simp add: path_elements_def)
  show "path_elements (''/'' @ strings_Join ps ''/'') = ps"
    using * by (simp add: path_elements_def)
qed

lemma fold_clean_step_id:
  assumes "''..'' \<notin> set ps"
  shows "fold (clean_step a) ps out = out @ ps"
  using assms by (induction ps arbitrary: out) (auto simp: clean_step_def)

lemma clean_elements_root:
  assumes "\<And>p. p \<in> set ps \<Longrightarrow> clean_element p" and "''..'' \<notin> set ps"
  shows "clean_elements (''/'' @ strings_Join ps ''/'') = ps"
  using path_elements_Join(2)[OF assms(1)] fold_clean_step_id[OF assms(2)]
  by (simp add: clean_elements_def)

lemma rooted_Clean [simp]: "rooted (filepath_Clean path) \<longleftrightarrow> rooted path"
proof (cases "rooted path")
  case False
  have "\<not> rooted (strings_Join es ''/'')" if ne: "es \<noteq> []" and cl: "\<And>p. p \<in> set es \<Longrightarrow> clean_element p" for es
  proof -
    obtain e es' where e: "es = e # es'" using ne by (cases es) auto
    with cl[of e] obtain c t where "e = c # t" "c \<noteq> CHR ''/''" by (cases e) (auto simp: clean_element_def)
    with e show ?thesis by (cases es') (auto simp: rooted_def)
  qed
  then show ?thesis using False clean_elements_clean by (auto simp: filepath_Clean_def) (auto simp: rooted_def)
qed (auto simp: filepath_Clean_def rooted_def)

lemma clean_elements_Clean:
  assumes "rooted path"
  shows "clean_elements (filepath_Clean path) = clean_elements path"
  using clean_elements_root[OF clean_elements_clean rooted_no_dotdot[OF assms]] assms
  by (simp add: filepath_Clean_def)

lemma Clean_idem_rooted:
  assumes "rooted path"
  shows "filepath_Clean (filepath_Clean path) = filepath_Clean path"
  unfolding filepath_Clean_def[of "filepath_Clean path"] clean_elements_Clean[OF assms] rooted_Clean
  using assms by (simp add: filepath_Clean_def)

text \<open>A rooted path is determined by its elements.\<close>

lemma Clean_eq_iff:
  assumes "rooted a" and "rooted b"
  shows "filepath_Clean a = filepath_Clean b \<longleftrightarrow> clean_elements a = clean_elements b"
proof
  assume "filepath_Clean a = filepath_Clean b"
  then have "clean_elements (filepath_Clean a) = clean_elements (filepath_Clean b)" by simp
  then show "clean_elements a = clean_elements b" using assms by (simp add: clean_elements_Clean)
qed (use assms in \<open>simp add: filepath_Clean_def\<close>)

section \<open>One path within another\<close>

definition path_within :: "string \<Rightarrow> string \<Rightarrow> bool" where
  "path_within child parent \<longleftrightarrow> rooted child \<and> rooted parent \<and>
     (\<exists>rest. clean_elements child = clean_elements parent @ rest)"

lemma strip_common_spec:
  "strip_common xs ys = (up, down) \<Longrightarrow> \<exists>c. xs = c @ up \<and> ys = c @ down \<and> (up = [] \<or> down = [] \<or> hd up \<noteq> hd down)"
proof (induction xs ys rule: strip_common.induct)
  case (1 x xs y ys)
  show ?case
  proof (cases "x = y")
    case True
    with 1 obtain c where "xs = c @ up" "ys = c @ down" "up = [] \<or> down = [] \<or> hd up \<noteq> hd down" by auto
    with True show ?thesis by (intro exI[of _ "x # c"]) simp
  qed (use 1 in auto)
qed auto

lemma strip_common_up_Nil: "fst (strip_common xs ys) = [] \<longleftrightarrow> (\<exists>rest. ys = xs @ rest)"
  by (induction xs ys rule: strip_common.induct) auto

lemma strings_Join_dotdot:
  assumes "es \<noteq> []" and that: "\<And>p. p \<in> set es \<Longrightarrow> CHR ''/'' \<notin> set p"
  shows "strings_Join es ''/'' = ''..'' \<or> HasPrefix (strings_Join es ''/'') ''../'' \<longleftrightarrow> hd es = ''..''"
proof (cases es)
  case (Cons e rest)
  show ?thesis
  proof (cases rest)
    case Nil
    have "\<not> HasPrefix e ''../''" using that[of e] Cons by (auto simp: HasPrefix_iff)
    then show ?thesis by (simp add: Cons Nil)
  next
    case (Cons f rest')
    have "HasPrefix (e @ CHR ''/'' # t) ''../'' \<longleftrightarrow> e = ''..''" for t
    proof
      assume "HasPrefix (e @ CHR ''/'' # t) ''../''"
      then obtain u where u: "e @ CHR ''/'' # t = ''..'' @ CHR ''/'' # u" by (auto simp: HasPrefix_iff)
      have A: "Cut (e @ CHR ''/'' # t) CHR ''/'' = (e, t, True)"
        using that[of e] \<open>es = e # rest\<close> by (intro Cut_append) simp
      have B: "Cut (''..'' @ CHR ''/'' # u) CHR ''/'' = (''..'', u, True)" by (intro Cut_append) simp
      from arg_cong[OF u, of "\<lambda>x. Cut x CHR ''/''"] have "(e, t, True) = (''..'', u, True)" by (simp only: A B)
      then show "e = ''..''" by simp
    qed (simp add: HasPrefix_def)
    moreover have "e @ CHR ''/'' # t \<noteq> ''..''" for t
    proof
      assume "e @ CHR ''/'' # t = ''..''"
      then have "CHR ''/'' \<in> set ''..''" by (metis in_set_conv_decomp)
      then show False by simp
    qed
    moreover have "strings_Join es ''/'' = e @ CHR ''/'' # strings_Join rest ''/''"
      using \<open>es = e # rest\<close> Cons by simp
    ultimately show ?thesis using \<open>es = e # rest\<close> by simp
  qed
qed (use assms in simp)

text \<open>\<open>Rel\<close> of rooted paths does not start with a double dot exactly when the target is within the base.\<close>

lemma Rel_within:
  assumes "rooted parent"
  shows "(case filepath_Rel parent child of None \<Rightarrow> False
      | Some r \<Rightarrow> r = ''.'' \<or> (r \<noteq> ''..'' \<and> \<not> HasPrefix r ''../'')) \<longleftrightarrow> path_within child parent"
proof (cases "rooted child")
  case True
  obtain up down where s: "strip_common (clean_elements parent) (clean_elements child) = (up, down)" by fastforce
  from strip_common_spec[OF s] obtain c where c: "clean_elements parent = c @ up" "clean_elements child = c @ down" by blast
  have within: "path_within child parent \<longleftrightarrow> up = []"
    using strip_common_up_Nil[of "clean_elements parent" "clean_elements child"] s True assms
    by (simp add: path_within_def)
  have no: "''..'' \<notin> set up" "''..'' \<notin> set down"
    using rooted_no_dotdot[OF assms] rooted_no_dotdot[OF True] c by auto
  then have up: "\<not> (up \<noteq> [] \<and> down \<noteq> [] \<and> hd up = ''..'')" by (metis hd_in_set)
  have sep: "CHR ''/'' \<notin> set p" if "p \<in> set (replicate (length up) ''..'' @ down)" for p
    using that clean_elements_clean[of p child] c by (auto simp: clean_element_def)
  show ?thesis
  proof (cases "up = [] \<and> down = []")
    case False
    then have ne: "replicate (length up) ''..'' @ down \<noteq> []" by simp
    let ?r = "strings_Join (replicate (length up) ''..'' @ down) ''/''"
    have "hd (replicate (length up) ''..'' @ down) = ''..'' \<longleftrightarrow> up \<noteq> []"
      using False no by (cases up; cases down) auto
    with strings_Join_dotdot[OF ne sep] have "?r = ''..'' \<or> HasPrefix ?r ''../'' \<longleftrightarrow> up \<noteq> []" by blast
    moreover have "?r = ''.'' \<Longrightarrow> up = []"
    proof (rule ccontr)
      assume "?r = ''.''" "up \<noteq> []"
      with calculation show False by (auto simp: HasPrefix_def)
    qed
    ultimately show ?thesis
      using False up s assms True within by (auto simp: filepath_Rel_def Let_def)
  qed (use s assms True within in \<open>simp add: filepath_Rel_def\<close>)
qed (use assms in \<open>simp add: filepath_Rel_def path_within_def\<close>)

section \<open>Rooted paths by their elements\<close>

definition abs_path :: "string list \<Rightarrow> string" where
  "abs_path es = ''/'' @ strings_Join es ''/''"

text \<open>An element that a path keeps as it is.\<close>

definition file_name :: "string \<Rightarrow> bool" where
  "file_name p \<longleftrightarrow> clean_element p \<and> p \<noteq> ''..''"

lemma file_name_no_slash: "file_name p \<Longrightarrow> CHR ''/'' \<notin> set p"
  by (simp add: file_name_def clean_element_def)

lemma path_elements_append: "path_elements (p @ CHR ''/'' # q) = path_elements p @ path_elements q"
  by (simp add: path_elements_def Split_append)

lemma path_elements_abs: "list_all file_name es \<Longrightarrow> path_elements (abs_path es) = es"
  unfolding abs_path_def by (rule path_elements_Join) (auto simp: list_all_iff file_name_def)

lemma abs_path_inject: "list_all file_name es \<Longrightarrow> list_all file_name fs \<Longrightarrow> abs_path es = abs_path fs \<longleftrightarrow> es = fs"
  using path_elements_abs by metis

lemma rooted_abs [simp]: "rooted (abs_path es)"
  by (simp add: abs_path_def rooted_def)

lemma clean_elements_abs: "list_all file_name es \<Longrightarrow> clean_elements (abs_path es) = es"
  unfolding abs_path_def by (rule clean_elements_root) (auto simp: list_all_iff file_name_def)

lemma clean_elements_names: "rooted path \<Longrightarrow> list_all file_name (clean_elements path)"
  using clean_elements_clean rooted_no_dotdot by (auto simp: list_all_iff file_name_def)

lemma Clean_rooted: "rooted path \<Longrightarrow> filepath_Clean path = abs_path (clean_elements path)"
  by (simp add: filepath_Clean_def abs_path_def)

lemma Clean_abs: "list_all file_name es \<Longrightarrow> filepath_Clean (abs_path es) = abs_path es"
  by (simp add: Clean_rooted clean_elements_abs)

lemma strings_Join_snoc: "es \<noteq> [] \<Longrightarrow> strings_Join (es @ [e]) s = strings_Join es s @ s @ e"
  by (induction es s rule: strings_Join.induct) auto

lemma strings_Join_Cons: "es \<noteq> [] \<Longrightarrow> strings_Join (e # es) s = e @ s @ strings_Join es s"
  by (cases es) auto

lemma Join_rooted:
  assumes "rooted d" and "list_all file_name es"
  shows "filepath_Join (d # es) = abs_path (clean_elements d @ es)"
proof -
  have d: "d \<noteq> []" using assms(1) by (auto simp: rooted_def)
  let ?p = "strings_Join (d # es) ''/''"
  have r: "rooted ?p" using assms(1) d by (cases es) (auto simp: rooted_def)
  have "path_elements ?p = path_elements d @ es"
  proof (cases "es = []")
    case False
    have "path_elements (strings_Join es ''/'') = es"
      using assms(2) by (intro path_elements_Join) (auto simp: list_all_iff file_name_def)
    then show ?thesis using path_elements_append[of d "strings_Join es ''/''"] False by (simp add: strings_Join_Cons)
  qed simp
  moreover have "''..'' \<notin> set es" using assms(2) by (auto simp: list_all_iff file_name_def)
  ultimately have "clean_elements ?p = clean_elements d @ es"
    using r assms(1) by (simp add: clean_elements_def fold_clean_step_id)
  then show ?thesis using d r by (simp add: filepath_Join_def Clean_rooted)
qed

lemma abs_path_snoc: "es \<noteq> [] \<Longrightarrow> abs_path (es @ [e]) = abs_path es @ CHR ''/'' # e"
  by (simp add: abs_path_def strings_Join_snoc)

lemma Dir_abs:
  assumes "list_all file_name es" and "file_name e"
  shows "filepath_Dir (abs_path (es @ [e])) = abs_path es"
proof -
  note e = file_name_no_slash[OF assms(2)]
  obtain p where p: "abs_path (es @ [e]) = p @ CHR ''/'' # e" and c: "filepath_Clean (p @ ''/'') = abs_path es"
  proof (cases "es = []")
    case True
    have "filepath_Clean ''/'' = abs_path []" using Clean_abs[of "[]"] by (simp add: abs_path_def)
    then show ?thesis using that[of "[]"] True by (simp add: abs_path_def)
  next
    case False
    have r: "rooted (abs_path es @ ''/'')" by (simp add: abs_path_def rooted_def)
    have "path_elements (abs_path es @ ''/'') = es"
      using path_elements_append[of "abs_path es" "[]"] path_elements_abs[OF assms(1)] by (simp add: path_elements_def)
    moreover have "''..'' \<notin> set es" using assms(1) by (auto simp: list_all_iff file_name_def)
    ultimately have "clean_elements (abs_path es @ ''/'') = es" by (simp add: clean_elements_def fold_clean_step_id)
    with r show ?thesis using that[of "abs_path es"] False by (simp add: abs_path_snoc Clean_rooted)
  qed
  show ?thesis unfolding filepath_Dir_def p LastIndex_append[OF e] using c by (simp add: nat_add_distrib)
qed

lemma Base_snoc:
  assumes "file_name e"
  shows "filepath_Base (p @ CHR ''/'' # e) = e"
proof -
  obtain e' c where e: "e = e' @ [c]" "c \<noteq> CHR ''/''"
    using assms by (cases e rule: rev_cases) (auto simp: file_name_def clean_element_def)
  have "rev (dropWhile (\<lambda>c. c = CHR ''/'') (rev (p @ CHR ''/'' # e))) = p @ CHR ''/'' # e"
    using file_name_no_slash[OF assms] e by simp
  then show ?thesis using file_name_no_slash[OF assms] by (simp add: filepath_Base_def Split_append)
qed

lemma Base_abs: "file_name e \<Longrightarrow> filepath_Base (abs_path (es @ [e])) = e"
  using Base_snoc[of e "[]"] Base_snoc[of e "abs_path es"]
  by (cases "es = []") (simp_all add: abs_path_def strings_Join_snoc)

lemma Base_name: "file_name e \<Longrightarrow> filepath_Base e = e"
proof -
  assume e: "file_name e"
  then obtain e' c where c: "e = e' @ [c]" "c \<noteq> CHR ''/''" by (cases e rule: rev_cases) (auto simp: file_name_def clean_element_def)
  show ?thesis using file_name_no_slash[OF e] c by (simp add: filepath_Base_def)
qed

text \<open>A path below another has its elements first.\<close>

lemma HasPrefix_abs:
  assumes "list_all file_name es" and "list_all file_name fs" and "HasPrefix (abs_path es) (abs_path fs @ ''/'')"
  shows "\<exists>rest. es = fs @ rest"
proof -
  from assms(3) obtain u where "abs_path es = abs_path fs @ CHR ''/'' # u" by (auto simp: HasPrefix_iff)
  then have "path_elements (abs_path es) = path_elements (abs_path fs) @ path_elements u"
    by (simp add: path_elements_append)
  then show ?thesis using assms by (simp add: path_elements_abs)
qed

lemma Base_slash: "CHR ''/'' \<notin> set (filepath_Base p) \<or> filepath_Base p = ''/''"
  using Split_parts[OF last_in_set[OF Split_not_Nil]] by (auto simp: filepath_Base_def Let_def)

lemma Split_snoc: "c \<noteq> sep \<Longrightarrow> Split (u @ [c]) sep = butlast (Split u sep) @ [last (Split u sep) @ [c]]"
  by (induction u) (auto split: list.splits)

lemma Base_nonempty: "filepath_Base p \<noteq> []"
proof -
  let ?s = "rev (dropWhile (\<lambda>c. c = CHR ''/'') (rev p))"
  show ?thesis
  proof (cases "?s = []")
    case False
    then obtain c u where u: "dropWhile (\<lambda>c. c = CHR ''/'') (rev p) = c # u" by (cases "dropWhile (\<lambda>c. c = CHR ''/'') (rev p)") auto
    then have c: "c \<noteq> CHR ''/''" by (simp add: dropWhile_eq_Cons_conv)
    have "p \<noteq> []" using False by auto
    then have "filepath_Base p = last (Split (rev u @ [c]) CHR ''/'')" using u by (simp add: filepath_Base_def)
    then show ?thesis using c by (simp add: Split_snoc)
  qed (auto simp: filepath_Base_def Let_def)
qed

text \<open>The name of a directory entry.\<close>

lemma Base_file_name: "filepath_Base p \<noteq> ''.'' \<Longrightarrow> filepath_Base p \<noteq> ''..'' \<Longrightarrow> filepath_Base p \<noteq> ''/'' \<Longrightarrow> file_name (filepath_Base p)"
  using Base_slash[of p] Base_nonempty[of p] by (auto simp: file_name_def clean_element_def)

end
