(* ===== verification/Registry.thy ===== *)
theory Registry
  imports Go_Prelude
begin

text \<open>
  Image references of the cluster registry, \<open>src/internal/registry/registry.go\<close>. Parsing a
  tagged reference is the work of the package go-containerregistry; \<open>newTag\<close> stands for
  its \<open>name.NewTag\<close> with weak validation.
\<close>

record Tag =
  tag_RegistryStr :: string
  tag_RepositoryStr :: string
  tag_TagStr :: string
  tag_Name :: string

definition registry_host :: string where
  "registry_host = ''registry.podmin.internal''"

definition appNamespace :: string where
  "appNamespace = ''apps/''"

definition mirrorNamespace :: string where
  "mirrorNamespace = ''mirror/''"

definition shorthand :: "string \<Rightarrow> bool" where
  "shorthand v =
     (let (first, _, slash) = Cut v CHR ''/''
      in \<not> slash \<or> (\<not> strings_Contains first ''.'' \<and> \<not> strings_Contains first '':''))"

definition registry_tag :: "(string \<Rightarrow> error + Tag) \<Rightarrow> string \<Rightarrow> error + Tag" where
  "registry_tag newTag v =
     (case newTag v of
        Inl e \<Rightarrow> Inl (errors_New ''image reference must use a valid tag'')
      | Inr ref \<Rightarrow>
          if strings_Contains v ''@'' then Inl (errors_New ''image reference must use a valid tag'') else Inr ref)"

definition registry_Parse :: "(string \<Rightarrow> error + Tag) \<Rightarrow> string \<Rightarrow> error + Tag" where
  "registry_Parse newTag v0 =
     (let v1 = TrimSpace v0;
          v = (if shorthand v1 then registry_host @ ''/'' @ appNamespace @ TrimPrefix v1 appNamespace else v1)
      in case registry_tag newTag v of
           Inl e \<Rightarrow> Inl (Wrapf ''parse image reference'' [] e)
         | Inr ref \<Rightarrow>
             let repository = tag_RepositoryStr ref
             in if tag_RegistryStr ref \<noteq> registry_host
                   \<or> (\<not> HasPrefix repository appNamespace \<and> \<not> HasPrefix repository mirrorNamespace)
                then Inl (errors_New ''image is not in the cluster registry; run podmin push'')
                else Inr ref)"

definition registry_App :: "(string \<Rightarrow> error + Tag) \<Rightarrow> Tag \<Rightarrow> string \<Rightarrow> error + Tag" where
  "registry_App newTag source destination =
     (let v1 = TrimSpace destination;
          v = (if v1 = []
               then registry_host @ ''/'' @ appNamespace @ tag_RegistryStr source @ ''/'' @ tag_RepositoryStr source
                      @ '':'' @ tag_TagStr source
               else if shorthand v1 then registry_host @ ''/'' @ appNamespace @ TrimPrefix v1 appNamespace
               else v1)
      in case registry_tag newTag v of
           Inl e \<Rightarrow> Inl (Wrapf ''parse image destination'' [] e)
         | Inr ref \<Rightarrow>
             if tag_RegistryStr ref \<noteq> registry_host \<or> \<not> HasPrefix (tag_RepositoryStr ref) appNamespace
             then Inl (Errorf ''destination must be under %s/%s'' [registry_host, appNamespace])
             else Inr ref)"

definition IsApp :: "Tag \<Rightarrow> string \<Rightarrow> bool" where
  "IsApp ref repository \<longleftrightarrow>
     tag_RegistryStr ref = registry_host \<and> tag_RepositoryStr ref = appNamespace @ repository"

definition Mirror :: "(string \<Rightarrow> error + Tag) \<Rightarrow> Tag \<Rightarrow> error + Tag" where
  "Mirror newTag source =
     registry_tag newTag (registry_host @ ''/'' @ mirrorNamespace @ tag_RegistryStr source @ ''/''
       @ tag_RepositoryStr source @ '':'' @ tag_TagStr source)"

section \<open>Normal forms\<close>

text \<open>
  What is documented of references: \<open>Name\<close> is the registry, the repository and the tag, it
  parses to the reference it was taken from, and it has neither spaces nor an at sign.
\<close>

definition tag_name_laws :: "(string \<Rightarrow> error + Tag) \<Rightarrow> bool" where
  "tag_name_laws newTag \<longleftrightarrow> (\<forall>v ref. newTag v = Inr ref \<longrightarrow>
     newTag (tag_Name ref) = Inr ref \<and>
     tag_Name ref = tag_RegistryStr ref @ ''/'' @ tag_RepositoryStr ref @ '':'' @ tag_TagStr ref \<and>
     TrimSpace (tag_Name ref) = tag_Name ref \<and> \<not> strings_Contains (tag_Name ref) ''@'')"

lemma not_shorthand_host: "\<not> shorthand (registry_host @ ''/'' @ rest)"
proof -
  have "CHR ''/'' \<notin> set registry_host" by (simp add: registry_host_def)
  then have "Cut (registry_host @ ''/'' @ rest) CHR ''/'' = (registry_host, rest, True)" by (simp add: Cut_append)
  then show ?thesis by (simp add: shorthand_def registry_host_def HasPrefix_def)
qed

text \<open>An accepted reference is in the cluster registry, and its name is accepted unchanged.\<close>

lemma registry_Parse_name:
  assumes "tag_name_laws newTag" and "registry_Parse newTag v = Inr ref"
  shows "registry_Parse newTag (tag_Name ref) = Inr ref" "tag_Name ref \<noteq> []"
proof -
  obtain u where u: "newTag u = Inr ref" "tag_RegistryStr ref = registry_host"
    "HasPrefix (tag_RepositoryStr ref) appNamespace \<or> HasPrefix (tag_RepositoryStr ref) mirrorNamespace"
    using assms(2) by (auto simp: registry_Parse_def registry_tag_def Let_def split: sum.splits if_splits)
  with assms(1) have n: "newTag (tag_Name ref) = Inr ref" "TrimSpace (tag_Name ref) = tag_Name ref"
    "\<not> strings_Contains (tag_Name ref) ''@''"
    "tag_Name ref = registry_host @ ''/'' @ (tag_RepositoryStr ref @ '':'' @ tag_TagStr ref)"
    unfolding tag_name_laws_def by fastforce+
  have "\<not> shorthand (tag_Name ref)" unfolding n(4) by (rule not_shorthand_host)
  with n(1-3) u show "registry_Parse newTag (tag_Name ref) = Inr ref"
    by (auto simp: registry_Parse_def registry_tag_def Let_def)
  show "tag_Name ref \<noteq> []" unfolding n(4) by (simp add: registry_host_def)
qed

end
