(* ===== verification/Manifest_Yaml.thy ===== *)
theory Manifest_Yaml
  imports Go_Prelude
begin

text \<open>
  The YAML check of \<open>src/internal/manifest/manifest.go\<close> (\<open>validateYAML\<close> and \<open>validateYAMLNode\<close>).
  Parsing YAML is the work of the package \<open>yaml.v3\<close>: its decoder yields the documents of the
  input one after another, each a node tree in which an alias points to an anchored node.
  A pointer is the number of the node it points to; \<open>anchors\<close> has the node of each number.
  The check follows aliases, so it also has to end on anchors that contain themselves.
\<close>

datatype yaml_kind = DocumentNode | SequenceNode | MappingNode | ScalarNode

datatype yaml_node =
    YNode yaml_kind string string "yaml_node list"
  | YAlias "nat option"

type_synonym yaml_anchors = "(nat \<times> yaml_node) list"

text \<open>A decoded document: its node (which has no content for an empty document) and the anchors.\<close>

type_synonym yaml_document = "yaml_node \<times> yaml_anchors"

fun node_content :: "yaml_node \<Rightarrow> yaml_node list" where
  "node_content (YNode kind tag value content) = content"
| "node_content (YAlias a) = []"

text \<open>The elements at even positions of a mapping node are its keys.\<close>

fun even_elements :: "'a list \<Rightarrow> 'a list" where
  "even_elements [] = []"
| "even_elements [x] = [x]"
| "even_elements (x # y # xs) = x # even_elements xs"

definition yaml_key :: "yaml_node \<Rightarrow> string set \<Rightarrow> error + string set" where
  "yaml_key key seen =
     (case key of
        YNode ScalarNode tag value content \<Rightarrow>
          if tag \<noteq> ''!!str'' \<or> value = ''<<''
          then Inl (errors_New ''YAML mapping keys must be unique strings without merges'')
          else if value \<in> seen then Inl (Errorf ''duplicate YAML mapping key %q'' [value])
          else Inr (insert value seen)
      | _ \<Rightarrow> Inl (errors_New ''YAML mapping keys must be unique strings without merges''))"

definition yaml_keys :: "yaml_kind \<Rightarrow> yaml_node list \<Rightarrow> error option" where
  "yaml_keys kind content =
     (if kind = MappingNode
      then (case fold_res yaml_key (even_elements content) {} of Inl e \<Rightarrow> Some e | Inr _ \<Rightarrow> None)
      else None)"

text \<open>
  \<open>visiting\<close> holds the aliases that are being followed. The decoder resolves every alias it
  returns; a number without a node stands for a nil pointer too.
\<close>

function validateYAMLNode :: "yaml_anchors \<Rightarrow> nat set \<Rightarrow> yaml_node \<Rightarrow> error option" where
  "validateYAMLNode anchors visiting (YAlias alias) =
     (case alias of
        None \<Rightarrow> Some (errors_New ''invalid recursive YAML alias'')
      | Some a \<Rightarrow>
          if a \<in> visiting then Some (errors_New ''invalid recursive YAML alias'')
          else case map_of anchors a of
                 None \<Rightarrow> Some (errors_New ''invalid recursive YAML alias'')
               | Some node \<Rightarrow> validateYAMLNode anchors (insert a visiting) node)"
| "validateYAMLNode anchors visiting (YNode kind tag value content) =
     (case yaml_keys kind content of
        Some e \<Rightarrow> Some e
      | None \<Rightarrow> first_err (validateYAMLNode anchors visiting) content)"
  by pat_completeness auto

text \<open>Every alias that is followed leaves one anchor less to follow; otherwise the node gets smaller.\<close>

termination
proof (relation "measures [\<lambda>(anchors, visiting, node). card (fst ` set anchors - visiting), \<lambda>(anchors, visiting, node). size node]",
    goal_cases)
  case 1
  show ?case by simp
next
  case (2 anchors visiting al a node)
  then have "a \<in> fst ` set anchors" by (auto dest: map_of_SomeD intro: rev_image_eqI)
  then have "card (fst ` set anchors - insert a visiting) < card (fst ` set anchors - visiting)"
    using 2 by (intro psubset_card_mono) auto
  then show ?case by simp
next
  case (3 anchors visiting kind tag v content node)
  from 3(2) have "size node < size (YNode kind tag v content)" by (induction content) auto
  then show ?case by simp
qed

definition check_document :: "error + yaml_document \<Rightarrow> nat \<Rightarrow> error + nat" where
  "check_document decoded documents =
     (case decoded of
        Inl e \<Rightarrow> Inl e
      | Inr (document, anchors) \<Rightarrow>
          if node_content document = [] then Inr documents
          else (case validateYAMLNode anchors {} document of
                  Some e \<Rightarrow> Inl e
                | None \<Rightarrow> Inr (documents + 1)))"

text \<open>\<open>decode\<close> gives what the decoder returns until the end of the input.\<close>

definition validateYAML :: "(string \<Rightarrow> (error + yaml_document) list) \<Rightarrow> string \<Rightarrow> error option" where
  "validateYAML decode input =
     (case fold_res check_document (decode input) 0 of
        Inl e \<Rightarrow> Some e
      | Inr documents \<Rightarrow>
          if documents \<noteq> 1 then Some (errors_New ''manifest must contain exactly one YAML document'') else None)"

section \<open>What an accepted node is\<close>

inductive yaml_child :: "yaml_anchors \<Rightarrow> yaml_node \<Rightarrow> yaml_node \<Rightarrow> bool" for anchors where
  content: "c \<in> set content \<Longrightarrow> yaml_child anchors (YNode kind tag value content) c"
| target: "map_of anchors a = Some n \<Longrightarrow> yaml_child anchors (YAlias (Some a)) n"

inductive_cases content_childE: "yaml_child anchors (YNode kind tag value content) c"
inductive_cases alias_childE: "yaml_child anchors (YAlias a) c"

abbreviation yaml_reach :: "yaml_anchors \<Rightarrow> yaml_node \<Rightarrow> yaml_node \<Rightarrow> bool" where
  "yaml_reach anchors \<equiv> (yaml_child anchors)\<^sup>*\<^sup>*"

text \<open>
  A node is a finite tree when no chain of contents and aliases from it is infinite, that is,
  when the node is accessible.
\<close>

definition finite_tree :: "yaml_anchors \<Rightarrow> yaml_node \<Rightarrow> bool" where
  "finite_tree anchors = Wellfounded.accp (\<lambda>m n. yaml_child anchors n m)"

definition scalar_key :: "yaml_node \<Rightarrow> bool" where
  "scalar_key key \<longleftrightarrow> (\<exists>value content. key = YNode ScalarNode ''!!str'' value content \<and> value \<noteq> ''<<'')"

fun key_value :: "yaml_node \<Rightarrow> string" where
  "key_value (YNode kind tag value content) = value"
| "key_value (YAlias a) = []"

definition node_ok :: "yaml_anchors \<Rightarrow> yaml_node \<Rightarrow> bool" where
  "node_ok anchors node = (case node of
     YAlias a \<Rightarrow> \<exists>i n. a = Some i \<and> map_of anchors i = Some n
   | YNode kind tag value content \<Rightarrow> kind = MappingNode \<longrightarrow>
       list_all scalar_key (even_elements content) \<and> distinct (map key_value (even_elements content)))"

lemma yaml_keys_None: "yaml_keys kind content = None \<longleftrightarrow> node_ok anchors (YNode kind tag value content)"
proof -
  have "(\<exists>s. fold_res yaml_key xs {} = Inr s) \<longleftrightarrow>
      (\<forall>x \<in> set xs. scalar_key x) \<and> distinct (map key_value xs) \<and> key_value ` set xs \<inter> {} = {}" for xs
    by (rule fold_res_seen[where seen_of = "\<lambda>s. s"])
      (auto simp: yaml_key_def scalar_key_def split: yaml_node.splits yaml_kind.splits if_splits)
  then show ?thesis
    by (auto simp: yaml_keys_def node_ok_def list_all_iff split: sum.split) (metis sum.distinct(1))
qed

lemma yaml_reach_step: "yaml_reach anchors n m \<longleftrightarrow> m = n \<or> (\<exists>c. yaml_child anchors n c \<and> yaml_reach anchors c m)"
  by (metis converse_rtranclpE converse_rtranclp_into_rtranclp rtranclp.rtrancl_refl)

lemma finite_treeI: "(\<And>m. yaml_child anchors n m \<Longrightarrow> finite_tree anchors m) \<Longrightarrow> finite_tree anchors n"
  unfolding finite_tree_def by (rule accp.intros)

lemma accepted_node:
  assumes "validateYAMLNode anchors visiting node = None"
  shows "finite_tree anchors node \<and> (\<forall>m. yaml_reach anchors node m \<longrightarrow> node_ok anchors m)"
  using assms
proof (induction anchors visiting node rule: validateYAMLNode.induct)
  case (1 anchors visiting al)
  then obtain a n where a: "al = Some a" "a \<notin> visiting" "map_of anchors a = Some n"
    and n: "validateYAMLNode anchors (insert a visiting) n = None"
    by (auto split: option.splits if_splits)
  have child: "yaml_child anchors (YAlias al) m \<longleftrightarrow> m = n" for m
    using a by (auto elim: alias_childE intro: yaml_child.target)
  from 1(1)[OF a n] have "finite_tree anchors n" "\<And>m. yaml_reach anchors n m \<Longrightarrow> node_ok anchors m" by auto
  moreover have "node_ok anchors (YAlias al)" using a by (simp add: node_ok_def)
  ultimately show ?case
    using child yaml_reach_step[of anchors "YAlias al"] by (auto intro: finite_treeI)
next
  case (2 anchors visiting kind tag v content)
  then have ok: "yaml_keys kind content = None" and cs: "\<And>c. c \<in> set content \<Longrightarrow> validateYAMLNode anchors visiting c = None"
    by (auto split: option.splits)
  have IH: "finite_tree anchors c \<and> (\<forall>m. yaml_reach anchors c m \<longrightarrow> node_ok anchors m)" if "c \<in> set content" for c
    using 2(1)[OF ok that cs[OF that]] .
  have "node_ok anchors (YNode kind tag v content)" using ok yaml_keys_None[of kind content anchors tag v] by simp
  moreover have "yaml_child anchors (YNode kind tag v content) m \<longleftrightarrow> m \<in> set content" for m
    by (auto elim: content_childE intro: yaml_child.content)
  ultimately show ?case
    using IH yaml_reach_step[of anchors "YNode kind tag v content"] by (auto intro: finite_treeI)
qed

lemma finite_tree_acyclic:
  assumes "finite_tree anchors n"
  shows "\<not> (yaml_child anchors)\<^sup>+\<^sup>+ n n"
  using assms unfolding finite_tree_def
proof (induction rule: accp.induct)
  case (accI n)
  show ?case
  proof
    assume "(yaml_child anchors)\<^sup>+\<^sup>+ n n"
    then obtain m where "yaml_child anchors n m" "yaml_reach anchors m n" by (meson tranclpD)
    with accI show False by (meson rtranclp_into_tranclp1)
  qed
qed

lemma finite_tree_child: "finite_tree anchors n \<Longrightarrow> yaml_child anchors n m \<Longrightarrow> finite_tree anchors m"
  unfolding finite_tree_def by (rule accp_downward)

lemma validate_accepts:
  assumes "finite_tree anchors node" and "\<And>m. yaml_reach anchors node m \<Longrightarrow> node_ok anchors m"
    and "\<And>a. a \<in> visiting \<Longrightarrow> \<not> yaml_reach anchors node (YAlias (Some a))"
  shows "validateYAMLNode anchors visiting node = None"
  using assms
proof (induction anchors visiting node rule: validateYAMLNode.induct)
  case (1 anchors visiting al)
  obtain a n where a: "al = Some a" and m: "map_of anchors a = Some n"
    using 1(3)[of "YAlias al"] by (auto simp: node_ok_def)
  with 1(4)[of a] have n: "a \<notin> visiting" "map_of anchors a = Some n" by auto
  then have child: "yaml_child anchors (YAlias al) n" using a by (auto intro: yaml_child.target)
  have reach: "yaml_reach anchors (YAlias al) m" if "yaml_reach anchors n m" for m
    using child that by (rule converse_rtranclp_into_rtranclp)
  have "\<not> yaml_reach anchors n (YAlias (Some a))"
    using finite_tree_acyclic[OF 1(2)] child a by (metis rtranclp_into_tranclp2)
  then have "validateYAMLNode anchors (insert a visiting) n = None"
    using 1(3,4) reach by (intro 1(1)[OF a n]) (auto intro: finite_tree_child[OF 1(2) child])
  with a n show ?case by simp
next
  case (2 anchors visiting kind tag v content)
  have keys: "yaml_keys kind content = None" using 2(3)[of "YNode kind tag v content"] yaml_keys_None[of kind content anchors tag v] by simp
  have "validateYAMLNode anchors visiting c = None" if c: "c \<in> set content" for c
  proof -
    have child: "yaml_child anchors (YNode kind tag v content) c" using c by (rule yaml_child.content)
    then have "yaml_reach anchors (YNode kind tag v content) m" if "yaml_reach anchors c m" for m
      using that by (rule converse_rtranclp_into_rtranclp)
    then show ?thesis
      using 2(3,4) by (intro 2(1)[OF keys c]) (auto intro: finite_tree_child[OF 2(2) child])
  qed
  with keys show ?case by simp
qed

definition yaml_ok :: "yaml_anchors \<Rightarrow> yaml_node \<Rightarrow> bool" where
  "yaml_ok anchors node \<longleftrightarrow> finite_tree anchors node \<and> (\<forall>m. yaml_reach anchors node m \<longrightarrow> node_ok anchors m)"

text \<open>
  C32: the check of a YAML node always ends, and accepts exactly the nodes that unfold to a
  finite tree: no anchor contains an alias of itself, every alias points to a node, and
  the keys of every mapping that can be reached are distinct plain strings without merges.
\<close>

theorem validate_yaml_iff:
  "validateYAMLNode anchors {} node = None \<longleftrightarrow> yaml_ok anchors node"
  unfolding yaml_ok_def using accepted_node validate_accepts by blast

end
