(* ===== verification/Manifest_Pod.thy ===== *)
theory Manifest_Pod
  imports Go_Json Go_Path Registry Manifest_Ids Manifest_Yaml
begin

text \<open>
  The Pod policy of \<open>src/internal/manifest/manifest.go\<close>: names, image references and the
  workload identity mount. The Kubernetes types come from a library; a record has the
  fields that Podmin reads or writes, and one opaque field for those it only copies, empty
  when they all have their zero values. A \<open>*Container\<close> is the container at its position in
  the list of all containers, the regular ones first. When a function fails the code
  discards the object it was changing, so that an error carries no object.
\<close>

section \<open>Kubernetes objects\<close>

record VolumeMount =
  vm_Name :: string
  vm_MountPath :: string
  vm_ReadOnly :: bool
  vm_Other :: string

record HostPathVolumeSource =
  hp_Path :: string
  hp_Type :: "string option"

record Volume =
  vol_Name :: string
  vol_HostPath :: "HostPathVolumeSource option"
  vol_Other :: string

datatype Probe = HTTPGetProbe string int string | TCPSocketProbe int | OtherProbe string

record Container =
  ctr_Name :: string
  ctr_Image :: string
  ctr_ImagePullPolicy :: string
  ctr_Env :: "(string \<times> string) list"
  ctr_Ports :: "(int \<times> string) list"
  ctr_Limits :: "(string \<times> string) list"
  ctr_ReadinessProbe :: "Probe option"
  ctr_VolumeMounts :: "VolumeMount list"
  ctr_Other :: string

record PodDNSConfig =
  dns_Nameservers :: "string list"
  dns_Searches :: "string list"
  dns_Other :: string

record PodSpec =
  spec_Volumes :: "Volume list"
  spec_InitContainers :: "Container list"
  spec_Containers :: "Container list"
  spec_NodeSelector :: "(string \<times> string) list"
  spec_NodeName :: string
  spec_Affinity :: "string option"
  spec_SchedulerName :: string
  spec_TopologySpreadConstraints :: "string list"
  spec_DNSPolicy :: string
  spec_DNSConfig :: "PodDNSConfig option"
  spec_Other :: string

record corev1_Pod =
  mp_APIVersion :: string
  mp_Kind :: string
  mp_Name :: string
  mp_Namespace :: string
  mp_Labels :: "(string \<times> string) list"
  mp_Annotations :: "(string \<times> string) list"
  mp_MetaOther :: string
  mp_Spec :: PodSpec


section \<open>Constants\<close>

definition runtimeHostRoot :: string where
  "runtimeHostRoot = ''/run/podmin''"

definition IdentityVolumeName :: string where
  "IdentityVolumeName = ''podmin-identity''"

definition IdentityMountPath :: string where
  "IdentityMountPath = ''/var/run/secrets/podmin.dev/tls''"

definition WorkloadHostRoot :: string where
  "WorkloadHostRoot = runtimeHostRoot @ ''/workloads''"

section \<open>Image overrides\<close>

definition parse_override :: "string \<Rightarrow> string \<times> (string \<times> string) list \<Rightarrow> error + string \<times> (string \<times> string) list" where
  "parse_override raw = (\<lambda>(bare, named).
     if strings_Contains raw ''=''
     then (let (name, img, _) = Cut raw CHR ''=''
           in if name = [] \<or> img = [] \<or> map_of named name \<noteq> None
              then Inl (Errorf ''invalid or duplicate --image %q'' [raw])
              else Inr (bare, named @ [(name, img)]))
     else if bare \<noteq> [] \<or> raw = [] then Inl (errors_New ''only one bare --image is allowed'')
     else Inr (raw, named))"

definition set_image :: "string \<Rightarrow> string \<Rightarrow> Container list \<Rightarrow> Container list" where
  "set_image name img = map (\<lambda>c. if ctr_Name c = name then c\<lparr>ctr_Image := img\<rparr> else c)"

definition named_override :: "string \<times> string \<Rightarrow> Container list \<Rightarrow> error + Container list" where
  "named_override = (\<lambda>(name, img) containers.
     if name \<notin> ctr_Name ` set containers then Inl (Errorf ''unknown container %q'' [name])
     else Inr (set_image name img containers))"

text \<open>The containers with their images replaced; their names are distinct.\<close>

definition overrides :: "Container list \<Rightarrow> Container list \<Rightarrow> string list \<Rightarrow> error + Container list" where
  "overrides regular containers images =
     (case fold_res parse_override images ([], []) of
        Inl e \<Rightarrow> Inl e
      | Inr (bare, named) \<Rightarrow>
          if bare \<noteq> [] \<and> length named \<noteq> 0
          then Inl (errors_New ''bare and named --image values cannot be combined'')
          else if bare \<noteq> [] \<and> length regular \<noteq> 1
          then Inl (errors_New ''bare --image requires exactly one regular container'')
          else fold_res named_override named
                 (if bare \<noteq> [] then set_image (ctr_Name (hd regular)) bare containers else containers))"

section \<open>Identity mounts\<close>

definition path_contains :: "string \<Rightarrow> string \<Rightarrow> bool" where
  "path_contains parent child =
     (case filepath_Rel parent child of
        None \<Rightarrow> False
      | Some relative \<Rightarrow> relative = ''.'' \<or> (relative \<noteq> ''..'' \<and> \<not> HasPrefix relative ''../''))"

definition pathsOverlap :: "string \<Rightarrow> string \<Rightarrow> bool" where
  "pathsOverlap left right \<longleftrightarrow> path_contains left right \<or> path_contains right left"

definition identity_volume_step :: "Volume \<Rightarrow> Volume option \<Rightarrow> error + Volume option" where
  "identity_volume_step volume identity =
     (if vol_Name volume = IdentityVolumeName
      then (if identity \<noteq> None then Inl (Errorf ''volume %q may appear only once'' [IdentityVolumeName])
            else Inr (Some volume))
      else case vol_HostPath volume of
             None \<Rightarrow> Inr identity
           | Some source \<Rightarrow>
               let clean = filepath_Clean (hp_Path source)
               in if clean = runtimeHostRoot \<or> HasPrefix clean (runtimeHostRoot @ ''/'')
                  then Inl (Errorf ''hostPath %s is reserved by Podmin'' [hp_Path source])
                  else Inr identity)"

definition identity_volume :: "string \<Rightarrow> Volume" where
  "identity_volume pod =
     \<lparr>vol_Name = IdentityVolumeName,
      vol_HostPath = Some \<lparr>hp_Path = filepath_Join [WorkloadHostRoot, pod, ''identity''], hp_Type = Some ''Directory''\<rparr>,
      vol_Other = []\<rparr>"

definition identity_mount :: VolumeMount where
  "identity_mount = \<lparr>vm_Name = IdentityVolumeName, vm_MountPath = IdentityMountPath, vm_ReadOnly = True, vm_Other = []\<rparr>"

definition claims_identity :: "VolumeMount \<Rightarrow> bool" where
  "claims_identity mount \<longleftrightarrow>
     pathsOverlap (filepath_Clean (vm_MountPath mount)) IdentityMountPath \<or> vm_Name mount = IdentityVolumeName"

definition identity_mount_step :: "VolumeMount \<Rightarrow> bool \<Rightarrow> error + bool" where
  "identity_mount_step mount found =
     (if \<not> claims_identity mount then Inr found
      else if found \<or> mount \<noteq> identity_mount
      then Inl (Errorf ''mount path %s is reserved by Podmin'' [IdentityMountPath])
      else Inr True)"

definition mount_identity :: "Container \<Rightarrow> error + Container" where
  "mount_identity container =
     (case fold_res identity_mount_step (ctr_VolumeMounts container) False of
        Inl e \<Rightarrow> Inl e
      | Inr found \<Rightarrow>
          Inr (if found then container
               else container\<lparr>ctr_VolumeMounts := ctr_VolumeMounts container @ [identity_mount]\<rparr>))"

text \<open>A loop that changes every element or fails.\<close>

fun map_res :: "('a \<Rightarrow> error + 'b) \<Rightarrow> 'a list \<Rightarrow> error + 'b list" where
  "map_res f [] = Inr []"
| "map_res f (x # xs) =
     (case f x of
        Inl e \<Rightarrow> Inl e
      | Inr y \<Rightarrow> (case map_res f xs of Inl e \<Rightarrow> Inl e | Inr ys \<Rightarrow> Inr (y # ys)))"

text \<open>The volumes and containers after the identity was added.\<close>

definition injectIdentity ::
  "Volume list \<Rightarrow> Container list \<Rightarrow> string \<Rightarrow> error + Volume list \<times> Container list" where
  "injectIdentity volumes containers pod =
     (case fold_res identity_volume_step volumes None of
        Inl e \<Rightarrow> Inl e
      | Inr identity \<Rightarrow>
          if identity \<noteq> None \<and> (vol_HostPath (the identity), vol_Other (the identity))
               \<noteq> (vol_HostPath (identity_volume pod), vol_Other (identity_volume pod))
          then Inl (Errorf ''volume %q is reserved by Podmin'' [IdentityVolumeName])
          else case map_res mount_identity containers of
                 Inl e \<Rightarrow> Inl e
               | Inr containers' \<Rightarrow>
                   Inr (if identity = None then volumes @ [identity_volume pod] else volumes, containers'))"

section \<open>The Pod\<close>

definition container_name :: "Container \<Rightarrow> string set \<Rightarrow> error + string set" where
  "container_name container byName =
     (if \<not> ValidID (ctr_Name container) then Inl (errors_New ''every container must have a valid name'')
      else if ctr_Name container \<in> byName then Inl (Errorf ''duplicate container name %q'' [ctr_Name container])
      else Inr (insert (ctr_Name container) byName))"

definition normalize_image :: "(string \<Rightarrow> error + Tag) \<Rightarrow> Container \<Rightarrow> error + Container" where
  "normalize_image newTag container =
     (if ctr_Image container = [] then Inl (Errorf ''container %q has no image'' [ctr_Name container])
      else case registry_Parse newTag (ctr_Image container) of
             Inl e \<Rightarrow> Inl (Wrapf ''container %q image %q'' [ctr_Name container, ctr_Image container] e)
           | Inr ref \<Rightarrow>
               Inr (container\<lparr>ctr_Image := tag_Name ref,
                 ctr_ImagePullPolicy := (if ctr_ImagePullPolicy container = [] then ''Always''
                                         else ctr_ImagePullPolicy container)\<rparr>))"

definition transformPod ::
  "(string \<Rightarrow> error + Tag) \<Rightarrow> corev1_Pod \<Rightarrow> string list \<Rightarrow> string \<Rightarrow> error + corev1_Pod" where
  "transformPod newTag pod images revision =
     (if \<not> ValidID (mp_Name pod) then Inl (errors_New ''metadata.name is invalid'')
      else let spec = mp_Spec pod; n = length (spec_Containers spec);
               annotations = (if revision \<noteq> [] then AList.update ''podmin.dev/revision'' revision (mp_Annotations pod)
                              else mp_Annotations pod);
               containers = spec_Containers spec @ spec_InitContainers spec
      in if n = 0 then Inl (errors_New ''spec.containers must be a non-empty sequence'')
         else case fold_res container_name containers {} of
           Inl e \<Rightarrow> Inl e
         | Inr _ \<Rightarrow>
             (case overrides (spec_Containers spec) containers images of
                Inl e \<Rightarrow> Inl e
              | Inr overridden \<Rightarrow>
                  (case map_res (normalize_image newTag) overridden of
                     Inl e \<Rightarrow> Inl e
                   | Inr normalized \<Rightarrow>
                       (case injectIdentity (spec_Volumes spec) normalized (mp_Name pod) of
                          Inl e \<Rightarrow> Inl e
                        | Inr (volumes, mounted) \<Rightarrow>
                            Inr (pod\<lparr>mp_Annotations := annotations,
                              mp_Spec := spec\<lparr>spec_Volumes := volumes, spec_Containers := take n mounted,
                                spec_InitContainers := drop n mounted\<rparr>\<rparr>)))))"

section \<open>Documents\<close>

text \<open>
  The packages that read and write YAML: the documents of a stream, the conversion to JSON,
  strict decoding into each type with the list of violations, and encoding. \<open>mo_newTag\<close> and
  \<open>mo_quantity\<close> parse image references and resource quantities.
\<close>

record manifest_ops =
  mo_yaml :: "string \<Rightarrow> (error + yaml_document) list"
  mo_toJSON :: "string \<Rightarrow> error + json"
  mo_pod :: "json \<Rightarrow> error + error list \<times> corev1_Pod"
  mo_encodePod :: "corev1_Pod \<Rightarrow> error + string"
  mo_newTag :: "string \<Rightarrow> error + Tag"

text \<open>\<open>errors.Join\<close> of no errors is nil.\<close>

definition decodeStrict ::
  "(string \<Rightarrow> error + json) \<Rightarrow> (json \<Rightarrow> error + error list \<times> 'a) \<Rightarrow> string \<Rightarrow> error + 'a" where
  "decodeStrict toJSON unmarshal input =
     (case toJSON input of
        Inl e \<Rightarrow> Inl e
      | Inr j \<Rightarrow>
          (case unmarshal j of
             Inl e \<Rightarrow> Inl e
           | Inr (strictErrors, result) \<Rightarrow> if strictErrors \<noteq> [] then Inl (Joined strictErrors) else Inr result))"

definition ParsePod :: "('x) manifest_ops_scheme \<Rightarrow> string \<Rightarrow> error + corev1_Pod" where
  "ParsePod ops input =
     (case validateYAML (mo_yaml ops) input of
        Some e \<Rightarrow> Inl (Wrapf ''parse manifest'' [] e)
      | None \<Rightarrow>
          (case decodeStrict (mo_toJSON ops) (mo_pod ops) input of
             Inl e \<Rightarrow> Inl (Wrapf ''parse manifest'' [] e)
           | Inr pod \<Rightarrow>
               if mp_APIVersion pod \<noteq> ''v1'' \<or> mp_Kind pod \<noteq> ''Pod''
               then Inl (errors_New ''apiVersion must be v1 and kind must be Pod'') else Inr pod))"

definition MarshalPod :: "('x) manifest_ops_scheme \<Rightarrow> corev1_Pod \<Rightarrow> error + string" where
  "MarshalPod ops pod = mo_encodePod ops (pod\<lparr>mp_APIVersion := ''v1'', mp_Kind := ''Pod''\<rparr>)"

definition TransformPod ::
  "('x) manifest_ops_scheme \<Rightarrow> string \<Rightarrow> string list \<Rightarrow> string \<Rightarrow> error + corev1_Pod" where
  "TransformPod ops input images revision =
     (case ParsePod ops input of
        Inl e \<Rightarrow> Inl e
      | Inr pod \<Rightarrow> transformPod (mo_newTag ops) pod images revision)"

definition manifest_Transform ::
  "('x) manifest_ops_scheme \<Rightarrow> string \<Rightarrow> string list \<Rightarrow> string \<Rightarrow> error + string" where
  "manifest_Transform ops input images revision =
     (case TransformPod ops input images revision of Inl e \<Rightarrow> Inl e | Inr pod \<Rightarrow> MarshalPod ops pod)"

definition manifest_Name :: "('x) manifest_ops_scheme \<Rightarrow> string \<Rightarrow> error + string" where
  "manifest_Name ops input =
     (case validateYAML (mo_yaml ops) input of
        Some e \<Rightarrow> Inl e
      | None \<Rightarrow>
          (case decodeStrict (mo_toJSON ops) (mo_pod ops) input of
             Inl e \<Rightarrow> Inl e
           | Inr pod \<Rightarrow> if mp_Name pod = [] then Inl (errors_New ''empty manifest'') else Inr (mp_Name pod)))"

section \<open>What a transformed Pod is\<close>

lemma map_res_Inr: "map_res f xs = Inr ys \<longleftrightarrow> list_all2 (\<lambda>x y. f x = Inr y) xs ys"
proof (induction xs arbitrary: ys)
  case (Cons x xs)
  show ?case
  proof (cases "f x")
    case (Inr y)
    have "list_all2 (\<lambda>x y. f x = Inr y) xs ws \<longleftrightarrow> map_res f xs = Inr ws" for ws by (rule Cons[symmetric])
    with Inr show ?thesis by (cases "map_res f xs") (auto simp: list_all2_Cons1)
  qed (auto simp: list_all2_Cons1)
qed auto

lemma map_res_fixed: "(\<And>x. x \<in> set xs \<Longrightarrow> f x = Inr x) \<Longrightarrow> map_res f xs = Inr xs"
  by (induction xs) auto

lemma identity_mount_claims [simp]: "claims_identity identity_mount"
  by (simp add: claims_identity_def identity_mount_def)

lemma identity_mounts_fold:
  "fold_res identity_mount_step ms found = Inr r \<longleftrightarrow>
     (filter claims_identity ms = [] \<and> r = found) \<or> (\<not> found \<and> filter claims_identity ms = [identity_mount] \<and> r)"
proof (induction ms arbitrary: found)
  case (Cons m ms)
  show ?case by (cases "claims_identity m") (auto simp: identity_mount_step_def[of m] Cons)
qed auto

text \<open>Host paths that Podmin reserves.\<close>

definition reserved_host_path :: "Volume \<Rightarrow> bool" where
  "reserved_host_path volume = (case vol_HostPath volume of
     None \<Rightarrow> False
   | Some source \<Rightarrow> filepath_Clean (hp_Path source) = runtimeHostRoot
       \<or> HasPrefix (filepath_Clean (hp_Path source)) (runtimeHostRoot @ ''/''))"

lemma identity_volumes_fold:
  "fold_res identity_volume_step vs i = Inr r \<longleftrightarrow>
     (\<forall>v \<in> set vs. vol_Name v \<noteq> IdentityVolumeName \<longrightarrow> \<not> reserved_host_path v) \<and>
     ((filter (\<lambda>v. vol_Name v = IdentityVolumeName) vs = [] \<and> r = i) \<or>
      (i = None \<and> (\<exists>v. filter (\<lambda>v. vol_Name v = IdentityVolumeName) vs = [v] \<and> r = Some v)))"
proof (induction vs arbitrary: i)
  case (Cons v vs)
  show ?case
    by (cases "vol_Name v = IdentityVolumeName")
      (auto simp: identity_volume_step_def[of v] reserved_host_path_def Cons Let_def split: option.split)
qed auto

definition normal_container :: "(string \<Rightarrow> error + Tag) \<Rightarrow> Container \<Rightarrow> bool" where
  "normal_container newTag c \<longleftrightarrow> ctr_Image c \<noteq> [] \<and> ctr_ImagePullPolicy c \<noteq> [] \<and>
     (\<exists>ref. registry_Parse newTag (ctr_Image c) = Inr ref \<and> tag_Name ref = ctr_Image c)"

text \<open>
  The policy: valid distinct names, normal image references, one identity volume with the
  Pod's own host path, no other volume in Podmin's runtime directory, and in every
  container exactly one mount that concerns the identity, the standard read-only one.
\<close>

definition pod_policy :: "(string \<Rightarrow> error + Tag) \<Rightarrow> corev1_Pod \<Rightarrow> bool" where
  "pod_policy newTag pod \<longleftrightarrow>
     ValidID (mp_Name pod) \<and> spec_Containers (mp_Spec pod) \<noteq> [] \<and>
     (let spec = mp_Spec pod; containers = spec_Containers spec @ spec_InitContainers spec
      in list_all (\<lambda>c. ValidID (ctr_Name c) \<and> normal_container newTag c \<and>
           filter claims_identity (ctr_VolumeMounts c) = [identity_mount]) containers \<and>
         distinct (map ctr_Name containers) \<and>
         filter (\<lambda>v. vol_Name v = IdentityVolumeName) (spec_Volumes spec) = [identity_volume (mp_Name pod)] \<and>
         list_all (\<lambda>v. vol_Name v \<noteq> IdentityVolumeName \<longrightarrow> \<not> reserved_host_path v) (spec_Volumes spec))"

lemma container_names:
  "(\<exists>s. fold_res container_name cs {} = Inr s) \<longleftrightarrow> (\<forall>c \<in> set cs. ValidID (ctr_Name c)) \<and> distinct (map ctr_Name cs)"
proof -
  have "(\<exists>s. fold_res container_name cs {} = Inr s) \<longleftrightarrow>
      (\<forall>c \<in> set cs. ValidID (ctr_Name c)) \<and> distinct (map ctr_Name cs) \<and> ctr_Name ` set cs \<inter> {} = {}"
    by (rule fold_res_seen[where seen_of = "\<lambda>s. s"]) (auto simp: container_name_def split: if_splits)
  then show ?thesis by simp
qed

lemma set_image_names [simp]:
  "map ctr_Name (set_image n i cs) = map ctr_Name cs"
  "length (set_image n i cs) = length cs"
  by (auto simp: set_image_def)

lemma overrides_names:
  assumes "overrides regular cs images = Inr cs'"
  shows "map ctr_Name cs' = map ctr_Name cs"
proof -
  have "map ctr_Name ds' = map ctr_Name ds" if "fold_res named_override named ds = Inr ds'" for named ds ds'
    using that by (induction named arbitrary: ds) (auto simp: named_override_def split: if_splits sum.splits)
  with assms show ?thesis
    by (auto simp: overrides_def split: sum.splits if_splits)
qed

lemma normalize_image_ok:
  assumes "tag_name_laws newTag" and "normalize_image newTag c = Inr c'"
  shows "normal_container newTag c'" "ctr_Name c' = ctr_Name c" "ctr_VolumeMounts c' = ctr_VolumeMounts c"
proof -
  obtain ref where ref: "registry_Parse newTag (ctr_Image c) = Inr ref"
    and c': "c' = c\<lparr>ctr_Image := tag_Name ref,
      ctr_ImagePullPolicy := (if ctr_ImagePullPolicy c = [] then ''Always'' else ctr_ImagePullPolicy c)\<rparr>"
    using assms(2) by (auto simp: normalize_image_def split: if_splits sum.splits)
  with registry_Parse_name[OF assms(1) ref] show "normal_container newTag c'" by (simp add: normal_container_def)
  show "ctr_Name c' = ctr_Name c" "ctr_VolumeMounts c' = ctr_VolumeMounts c" by (simp_all add: c')
qed

lemma normalize_image_fixed: "normal_container newTag c \<Longrightarrow> normalize_image newTag c = Inr c"
  by (auto simp: normalize_image_def normal_container_def)

lemma mount_identity_ok:
  assumes "mount_identity c = Inr c'"
  shows "filter claims_identity (ctr_VolumeMounts c') = [identity_mount]" "ctr_Name c' = ctr_Name c"
    "normal_container newTag c' \<longleftrightarrow> normal_container newTag c"
  using assms
  by (auto simp: mount_identity_def identity_mounts_fold normal_container_def split: sum.splits if_splits)

lemma mount_identity_fixed:
  "filter claims_identity (ctr_VolumeMounts c) = [identity_mount] \<Longrightarrow> mount_identity c = Inr c"
proof -
  assume "filter claims_identity (ctr_VolumeMounts c) = [identity_mount]"
  then have "fold_res identity_mount_step (ctr_VolumeMounts c) False = Inr True"
    unfolding identity_mounts_fold by simp
  then show ?thesis by (simp add: mount_identity_def)
qed

lemma injectIdentity_ok:
  assumes "injectIdentity vs cs pod = Inr (vs', cs')"
  shows "filter (\<lambda>v. vol_Name v = IdentityVolumeName) vs' = [identity_volume pod]"
    "\<forall>v \<in> set vs'. vol_Name v \<noteq> IdentityVolumeName \<longrightarrow> \<not> reserved_host_path v"
    "list_all2 (\<lambda>c c'. mount_identity c = Inr c') cs cs'"
proof -
  obtain i where i: "fold_res identity_volume_step vs None = Inr i"
    and src: "i = None \<or> (vol_HostPath (the i), vol_Other (the i))
        = (vol_HostPath (identity_volume pod), vol_Other (identity_volume pod))"
    and vs': "vs' = (if i = None then vs @ [identity_volume pod] else vs)"
    and cs': "map_res mount_identity cs = Inr cs'"
    using assms by (auto simp: injectIdentity_def split: sum.splits if_splits)
  have name: "vol_Name (identity_volume pod) = IdentityVolumeName" by (simp add: identity_volume_def)
  note fold = i[unfolded identity_volumes_fold]
  show "\<forall>v \<in> set vs'. vol_Name v \<noteq> IdentityVolumeName \<longrightarrow> \<not> reserved_host_path v"
    using fold name by (auto simp: vs')
  show "list_all2 (\<lambda>c c'. mount_identity c = Inr c') cs cs'" using cs' by (simp add: map_res_Inr)
  show "filter (\<lambda>v. vol_Name v = IdentityVolumeName) vs' = [identity_volume pod]"
  proof (cases i)
    case None
    with fold name show ?thesis by (auto simp: vs')
  next
    case (Some v)
    with fold have v: "filter (\<lambda>v. vol_Name v = IdentityVolumeName) vs = [v]" by auto
    then have "v \<in> set (filter (\<lambda>v. vol_Name v = IdentityVolumeName) vs)" by simp
    then have "vol_Name v = IdentityVolumeName" by simp
    with src Some name have "v = identity_volume pod" by (cases v) (auto simp: identity_volume_def)
    with v Some show ?thesis by (simp add: vs')
  qed
qed

lemma list_all2_names:
  "list_all2 R cs cs' \<Longrightarrow> (\<And>c c'. R c c' \<Longrightarrow> ctr_Name c' = ctr_Name c) \<Longrightarrow> map ctr_Name cs' = map ctr_Name cs"
  by (induction rule: list_all2_induct) auto

lemma list_all2_source: "list_all2 R xs ys \<Longrightarrow> y \<in> set ys \<Longrightarrow> \<exists>x \<in> set xs. R x y"
  by (induction rule: list_all2_induct) auto

lemma transformPod_policy:
  assumes "tag_name_laws newTag" and "transformPod newTag pod images revision = Inr pod'"
  shows "pod_policy newTag pod'" "mp_Name pod' = mp_Name pod" "mp_Namespace pod' = mp_Namespace pod"
proof -
  let ?spec = "mp_Spec pod" and ?n = "length (spec_Containers (mp_Spec pod))"
  let ?cs = "spec_Containers ?spec @ spec_InitContainers ?spec"
  obtain s overridden normalized volumes mounted where
    ok: "ValidID (mp_Name pod)" "?n \<noteq> 0" "fold_res container_name ?cs {} = Inr s"
    and o: "overrides (spec_Containers ?spec) ?cs images = Inr overridden"
    and n: "map_res (normalize_image newTag) overridden = Inr normalized"
    and inject: "injectIdentity (spec_Volumes ?spec) normalized (mp_Name pod) = Inr (volumes, mounted)"
    and spec': "mp_Spec pod' = ?spec\<lparr>spec_Volumes := volumes, spec_Containers := take ?n mounted,
      spec_InitContainers := drop ?n mounted\<rparr>"
    and name: "mp_Name pod' = mp_Name pod" "mp_Namespace pod' = mp_Namespace pod"
    using assms(2) by (auto simp: transformPod_def Let_def split: if_splits sum.splits)
  show "mp_Name pod' = mp_Name pod" "mp_Namespace pod' = mp_Namespace pod" by (fact name)+
  have norm: "list_all2 (\<lambda>c c'. normalize_image newTag c = Inr c') overridden normalized" using n by (simp add: map_res_Inr)
  note inj = injectIdentity_ok[OF inject]
  have names: "map ctr_Name mounted = map ctr_Name ?cs"
    using list_all2_names[OF inj(3) mount_identity_ok(2)] overrides_names[OF o]
      list_all2_names[OF norm normalize_image_ok(2)[OF assms(1)]] by simp
  have "normal_container newTag c" if "c \<in> set normalized" for c
    using list_all2_source[OF norm that] normalize_image_ok(1)[OF assms(1)] by blast
  then have "normal_container newTag c \<and> filter claims_identity (ctr_VolumeMounts c) = [identity_mount]"
    if "c \<in> set mounted" for c
    using list_all2_source[OF inj(3) that] mount_identity_ok by blast
  moreover have "(\<forall>c \<in> set mounted. ValidID (ctr_Name c)) \<and> distinct (map ctr_Name mounted)"
  proof -
    have "(\<forall>c \<in> set ?cs. ValidID (ctr_Name c)) \<and> distinct (map ctr_Name ?cs)"
      using ok(3) container_names[of ?cs] by blast
    then show ?thesis using names by (metis (no_types, lifting) image_iff list.set_map)
  qed
  moreover have "length mounted = length ?cs" using names by (metis length_map)
  then have "take ?n mounted \<noteq> []" using ok(2) by auto
  moreover have "spec_Containers (mp_Spec pod') @ spec_InitContainers (mp_Spec pod') = mounted"
    "spec_Volumes (mp_Spec pod') = volumes" "spec_Containers (mp_Spec pod') = take ?n mounted" by (simp_all add: spec')
  ultimately show "pod_policy newTag pod'"
    using ok(1) inj(1,2) name(1) unfolding pod_policy_def Let_def list_all_iff by simp
qed

lemma transformPod_fixed:
  assumes "pod_policy newTag pod"
  shows "transformPod newTag pod [] [] = Inr pod"
proof -
  let ?spec = "mp_Spec pod"
  let ?cs = "spec_Containers ?spec @ spec_InitContainers ?spec"
  have p: "ValidID (mp_Name pod)" "spec_Containers ?spec \<noteq> []"
    "\<And>c. c \<in> set ?cs \<Longrightarrow> ValidID (ctr_Name c) \<and> normal_container newTag c \<and>
       filter claims_identity (ctr_VolumeMounts c) = [identity_mount]" "distinct (map ctr_Name ?cs)"
    "filter (\<lambda>v. vol_Name v = IdentityVolumeName) (spec_Volumes ?spec) = [identity_volume (mp_Name pod)]"
    "\<forall>v \<in> set (spec_Volumes ?spec). vol_Name v \<noteq> IdentityVolumeName \<longrightarrow> \<not> reserved_host_path v"
    using assms by (simp_all add: pod_policy_def Let_def list_all_iff) 
  obtain s where s: "fold_res container_name ?cs {} = Inr s" using container_names[of ?cs] p(3,4) by blast
  have o: "overrides (spec_Containers ?spec) ?cs [] = Inr ?cs" by (simp add: overrides_def)
  have n: "map_res (normalize_image newTag) ?cs = Inr ?cs"
    using p(3) by (intro map_res_fixed normalize_image_fixed) blast
  have v: "fold_res identity_volume_step (spec_Volumes ?spec) None = Inr (Some (identity_volume (mp_Name pod)))"
    unfolding identity_volumes_fold using p(5,6) by blast
  have "map_res mount_identity ?cs = Inr ?cs"
    using p(3) by (intro map_res_fixed mount_identity_fixed) blast
  then have i: "injectIdentity (spec_Volumes ?spec) ?cs (mp_Name pod) = Inr (spec_Volumes ?spec, ?cs)"
    by (simp add: injectIdentity_def v)
  show ?thesis
    using p(1,2) s o n i by (simp add: transformPod_def Let_def)
qed

text \<open>
  C29: a transformed Pod obeys the policy, whatever the input was: valid and distinct
  container names, image references of the cluster registry in normal form, exactly one
  identity volume, which is the Pod's own, no other volume in Podmin's runtime directory,
  and in every container exactly one mount that overlaps the identity path or uses its
  volume, the read-only one. Transforming it again changes nothing, so that the agent runs
  the Pod that the command line committed.
\<close>

theorem transform_pod_policy:
  assumes "tag_name_laws newTag" and "transformPod newTag pod images revision = Inr pod'"
  shows "pod_policy newTag pod' \<and> mp_Name pod' = mp_Name pod \<and> transformPod newTag pod' [] [] = Inr pod'"
  using transformPod_policy[OF assms] transformPod_fixed[of newTag pod'] by simp

definition example_tag :: "string \<Rightarrow> error + Tag" where
  "example_tag v = (if v = ''registry.podmin.internal/apps/web:v1''
     then Inr \<lparr>tag_RegistryStr = ''registry.podmin.internal'', tag_RepositoryStr = ''apps/web'', tag_TagStr = ''v1'',
       tag_Name = ''registry.podmin.internal/apps/web:v1''\<rparr>
     else Inl (errors_New ''invalid reference''))"

definition example_manifest_pod :: corev1_Pod where
  "example_manifest_pod = \<lparr>mp_APIVersion = ''v1'', mp_Kind = ''Pod'', mp_Name = ''web'', mp_Namespace = ''default'',
     mp_Labels = [], mp_Annotations = [], mp_MetaOther = [], mp_Spec = \<lparr>spec_Volumes = [], spec_InitContainers = [],
       spec_Containers = [\<lparr>ctr_Name = ''web'', ctr_Image = ''old'', ctr_ImagePullPolicy = [], ctr_Env = [], ctr_Ports = [],
         ctr_Limits = [], ctr_ReadinessProbe = None, ctr_VolumeMounts = [], ctr_Other = []\<rparr>],
       spec_NodeSelector = [], spec_NodeName = [], spec_Affinity = None, spec_SchedulerName = [],
       spec_TopologySpreadConstraints = [], spec_DNSPolicy = [], spec_DNSConfig = None, spec_Other = []\<rparr>\<rparr>"

lemma example_tag_laws: "tag_name_laws example_tag"
proof -
  have "TrimSpace ''registry.podmin.internal/apps/web:v1'' = ''registry.podmin.internal/apps/web:v1''"
    "\<not> strings_Contains ''registry.podmin.internal/apps/web:v1'' ''@''" by code_simp+
  then show ?thesis by (auto simp: tag_name_laws_def example_tag_def)
qed

lemma example_parse:
  "registry_Parse example_tag ''web:v1'' = Inr \<lparr>tag_RegistryStr = ''registry.podmin.internal'',
     tag_RepositoryStr = ''apps/web'', tag_TagStr = ''v1'', tag_Name = ''registry.podmin.internal/apps/web:v1''\<rparr>"
proof -
  have "TrimSpace ''web:v1'' = ''web:v1''" by code_simp
  moreover have "TrimPrefix ''web:v1'' appNamespace = ''web:v1''" "shorthand ''web:v1''"
    "\<not> strings_Contains ''registry.podmin.internal/apps/web:v1'' ''@''" "HasPrefix ''apps/web'' appNamespace" by code_simp+
  ultimately show ?thesis
    by (simp add: registry_Parse_def registry_tag_def example_tag_def registry_host_def appNamespace_def)
qed

theorem transform_pod_policy_witness:
  "\<exists>pod'. transformPod example_tag example_manifest_pod [''web:v1''] ''r1'' = Inr pod' \<and> pod_policy example_tag pod' \<and>
     map ctr_Image (spec_Containers (mp_Spec pod')) = [''registry.podmin.internal/apps/web:v1''] \<and>
     transformPod example_tag pod' [] [] = Inr pod'"
proof -
  have v: "ValidID ''web''" and bare: "\<not> strings_Contains ''web:v1'' ''=''" by code_simp+
  define c where "c = hd (spec_Containers (mp_Spec example_manifest_pod))"
  have c: "spec_Containers (mp_Spec example_manifest_pod) = [c]" "spec_InitContainers (mp_Spec example_manifest_pod) = []"
    "spec_Volumes (mp_Spec example_manifest_pod) = []" "ctr_Name c = ''web''" "ctr_VolumeMounts c = []"
    "mp_Name example_manifest_pod = ''web''"
    by (simp_all add: c_def example_manifest_pod_def)
  let ?o = "c\<lparr>ctr_Image := ''web:v1''\<rparr>"
  have names: "fold_res container_name [c] {} = Inr {''web''}" by (simp add: container_name_def c v)
  have o: "overrides [c] [c] [''web:v1''] = Inr [?o]"
    by (simp add: overrides_def parse_override_def bare set_image_def)
  have n: "map_res (normalize_image example_tag) [?o] = Inr [?o\<lparr>ctr_Image := ''registry.podmin.internal/apps/web:v1'',
      ctr_ImagePullPolicy := (if ctr_ImagePullPolicy ?o = [] then ''Always'' else ctr_ImagePullPolicy ?o)\<rparr>]" (is "_ = Inr [?n]")
    by (simp add: normalize_image_def example_parse)
  have i: "injectIdentity [] [?n] ''web'' = Inr ([identity_volume ''web''], [?n\<lparr>ctr_VolumeMounts := [identity_mount]\<rparr>])"
    by (simp add: injectIdentity_def mount_identity_def c)
  obtain pod' where pod': "transformPod example_tag example_manifest_pod [''web:v1''] ''r1'' = Inr pod'"
    "spec_Containers (mp_Spec pod') = [?n\<lparr>ctr_VolumeMounts := [identity_mount]\<rparr>]"
    using v names o n i by (simp add: transformPod_def c Let_def)
  with transform_pod_policy[OF example_tag_laws pod'(1)] show ?thesis by simp
qed

end
