(* ===== verification/Manifest_Service.thy ===== *)
theory Manifest_Service
  imports Manifest_Pod Service_Contract
begin

text \<open>
  The Service subset of \<open>src/internal/manifest/manifest.go\<close>: validation and the canonical form
  of a Service document. The canonical document is written by the YAML library; here it is
  the value that is handed to it.
\<close>

section \<open>Documents\<close>

record servicePortDocument =
  spd_Name :: string
  spd_Protocol :: string
  spd_Port :: int
  spd_TargetPort :: "json option"

record serviceDocument =
  sd_APIVersion :: string
  sd_Kind :: string
  sd_Name :: string
  sd_Namespace :: string
  sd_Selector :: "(string \<times> string) list"
  sd_Ports :: "servicePortDocument list"

text \<open>
  \<open>json.Unmarshal\<close> into an \<open>int32\<close>: a number must be an integer literal in range, and \<open>null\<close>
  leaves the zero value.
\<close>

definition int_literal :: "string \<Rightarrow> int option" where
  "int_literal x =
     (let negative = HasPrefix x ''-''; digits = (if negative then drop 1 x else x)
      in if digits \<noteq> [] \<and> list_all json_digit digits
         then Some (if negative then - int (Go_Prelude.dec_value digits) else int (Go_Prelude.dec_value digits)) else None)"

definition unmarshal_int32 :: "json \<Rightarrow> int option" where
  "unmarshal_int32 j =
     (case j of
        JNull \<Rightarrow> Some 0
      | JNumber x \<Rightarrow>
          (case int_literal x of
             None \<Rightarrow> None
           | Some i \<Rightarrow> if - (2 ^ 31) \<le> i \<and> i < 2 ^ 31 then Some i else None)
      | _ \<Rightarrow> None)"

section \<open>Validation\<close>

definition service_target :: "servicePortDocument \<Rightarrow> error + int" where
  "service_target port =
     (case (case spd_TargetPort port of None \<Rightarrow> Some (spd_Port port) | Some raw \<Rightarrow> unmarshal_int32 raw) of
        None \<Rightarrow> Inl (errors_New ''Service targetPort must be an integer from 1 through 65535'')
      | Some i \<Rightarrow>
          if i < 1 \<or> i > 65535 then Inl (errors_New ''Service targetPort must be an integer from 1 through 65535'')
          else Inr i)"

definition service_port ::
  "servicePortDocument \<Rightarrow> string set \<times> ServicePort list \<times> servicePortDocument list
     \<Rightarrow> error + string set \<times> ServicePort list \<times> servicePortDocument list" where
  "service_port port = (\<lambda>(seen, ports, canonicalPorts).
     let protocol = (if spd_Protocol port = [] then ''TCP'' else spd_Protocol port)
     in if protocol \<noteq> ''TCP'' \<and> protocol \<noteq> ''UDP'' then Inl (Errorf ''unsupported Service protocol %q'' [protocol])
        else if spd_Port port < 1 \<or> spd_Port port > 65535
        then Inl (errors_New ''Service port must be an integer from 1 through 65535'')
        else case service_target port of
               Inl e \<Rightarrow> Inl e
             | Inr target \<Rightarrow>
                 let identity = protocol @ ''/'' @ dec_int (spd_Port port)
                 in if identity \<in> seen then Inl (Errorf ''duplicate Service port %s'' [identity])
                    else Inr (insert identity seen,
                      ports @ [\<lparr>sp_Name = spd_Name port, sp_Protocol = protocol, sp_Port = spd_Port port,
                                sp_TargetPort = target\<rparr>],
                      canonicalPorts @ [\<lparr>spd_Name = spd_Name port, spd_Protocol = protocol, spd_Port = spd_Port port,
                                spd_TargetPort = Some (JNumber (dec_int target))\<rparr>]))"

text \<open>The Service and its canonical document.\<close>

definition check_service :: "serviceDocument \<Rightarrow> error + manifest_Service \<times> serviceDocument" where
  "check_service document =
     (let namespace = (if sd_Namespace document = [] then ''default'' else sd_Namespace document)
      in if sd_APIVersion document \<noteq> ''v1'' \<or> sd_Kind document \<noteq> ''Service''
         then Inl (errors_New ''manifest must contain one apiVersion v1 kind Service mapping'')
         else if \<not> ValidID (sd_Name document) \<or> \<not> ValidNamespace namespace
         then Inl (errors_New ''Service metadata.name is invalid'')
         else if length (sd_Selector document) = 0 \<or> length (sd_Ports document) = 0
         then Inl (errors_New ''Service selector and ports must be non-empty'')
         else case fold_res service_port (sd_Ports document) ({}, [], []) of
                Inl e \<Rightarrow> Inl e
              | Inr (_, ports, canonicalPorts) \<Rightarrow>
                  Inr (\<lparr>ms_Name = sd_Name document, ms_Namespace = namespace, ms_Selector = sd_Selector document,
                        ms_Ports = ports\<rparr>,
                       \<lparr>sd_APIVersion = ''v1'', sd_Kind = ''Service'', sd_Name = sd_Name document,
                        sd_Namespace = namespace, sd_Selector = sd_Selector document, sd_Ports = canonicalPorts\<rparr>))"

record service_ops = manifest_ops +
  mo_service :: "json \<Rightarrow> error + error list \<times> serviceDocument"
  mo_marshalService :: "serviceDocument \<Rightarrow> error + string"

definition parseService :: "('x) service_ops_scheme \<Rightarrow> serviceDocument \<Rightarrow> error + manifest_Service \<times> string" where
  "parseService ops document =
     (case check_service document of
        Inl e \<Rightarrow> Inl e
      | Inr (result, canonical) \<Rightarrow>
          (case mo_marshalService ops canonical of Inl e \<Rightarrow> Inl e | Inr body \<Rightarrow> Inr (result, body)))"

definition decodeService :: "('x) service_ops_scheme \<Rightarrow> string \<Rightarrow> error + serviceDocument" where
  "decodeService ops input = decodeStrict (mo_toJSON ops) (mo_service ops) input"

definition ParseService :: "('x) service_ops_scheme \<Rightarrow> string \<Rightarrow> error + manifest_Service" where
  "ParseService ops input =
     (case validateYAML (mo_yaml ops) input of
        Some e \<Rightarrow> Inl (Wrapf ''parse Service'' [] e)
      | None \<Rightarrow>
          (case decodeService ops input of
             Inl e \<Rightarrow> Inl (Wrapf ''parse Service'' [] e)
           | Inr service \<Rightarrow>
               if sd_APIVersion service \<noteq> ''v1'' \<or> sd_Kind service \<noteq> ''Service''
               then Inl (errors_New ''manifest must contain one apiVersion v1 kind Service mapping'')
               else case parseService ops service of Inl e \<Rightarrow> Inl e | Inr (result, _) \<Rightarrow> Inr result))"

section \<open>What an accepted Service is\<close>

lemma dec_nat_digits: "dec_nat n \<noteq> []" "list_all json_digit (dec_nat n)"
proof -
  show "dec_nat n \<noteq> []" by (subst dec_nat.simps) simp
  have "list_all json_digit (map digit_char [0..<10])" by code_simp
  then show "list_all json_digit (dec_nat n)" using set_dec_nat[of n] by (fastforce simp: list_all_iff)
qed

lemma unmarshal_dec: "0 \<le> i \<Longrightarrow> i < 2 ^ 31 \<Longrightarrow> unmarshal_int32 (JNumber (dec_int i)) = Some i"
proof -
  assume i: "0 \<le> i" "i < 2 ^ 31"
  have "\<not> HasPrefix (dec_nat n) ''-''" for n
    using dec_nat_no_sep(2)[of n] by (auto simp: HasPrefix_iff simp del: dec_nat_no_sep)
  then have "int_literal (dec_nat n) = Some (int n)" for n
    using dec_nat_digits[of n] by (simp add: int_literal_def Go_Prelude.dec_value_dec_nat)
  with i show ?thesis by (simp add: unmarshal_int32_def dec_int_def)
qed

definition port_protocol :: "servicePortDocument \<Rightarrow> string" where
  "port_protocol p = (if spd_Protocol p = [] then ''TCP'' else spd_Protocol p)"

definition port_target :: "servicePortDocument \<Rightarrow> int" where
  "port_target p = (case service_target p of Inr i \<Rightarrow> i | Inl _ \<Rightarrow> 0)"

definition parsed_port :: "servicePortDocument \<Rightarrow> ServicePort" where
  "parsed_port p = \<lparr>sp_Name = spd_Name p, sp_Protocol = port_protocol p, sp_Port = spd_Port p,
     sp_TargetPort = port_target p\<rparr>"

definition canonical_port :: "servicePortDocument \<Rightarrow> servicePortDocument" where
  "canonical_port p = \<lparr>spd_Name = spd_Name p, spd_Protocol = port_protocol p, spd_Port = spd_Port p,
     spd_TargetPort = Some (JNumber (dec_int (port_target p)))\<rparr>"

definition port_ok :: "servicePortDocument \<Rightarrow> bool" where
  "port_ok p \<longleftrightarrow> port_protocol p \<in> {''TCP'', ''UDP''} \<and> 1 \<le> spd_Port p \<and> spd_Port p \<le> 65535 \<and>
     service_target p = Inr (port_target p) \<and> 1 \<le> port_target p \<and> port_target p \<le> 65535"

definition port_identity :: "servicePortDocument \<Rightarrow> string" where
  "port_identity p = port_protocol p @ ''/'' @ dec_int (spd_Port p)"

lemma service_target_range: "service_target p = Inr i \<Longrightarrow> 1 \<le> i \<and> i \<le> 65535"
  by (auto simp: service_target_def split: option.splits if_splits)

lemma service_port_eq:
  "service_port p (seen, ports, cs) =
     (if port_ok p \<and> port_identity p \<notin> seen
      then Inr (insert (port_identity p) seen, ports @ [parsed_port p], cs @ [canonical_port p])
      else Inl (projl (service_port p (seen, ports, cs))))"
proof (cases "service_target p")
  case (Inl e)
  then show ?thesis by (auto simp: service_port_def Let_def port_ok_def)
next
  case (Inr i)
  with service_target_range[OF Inr] show ?thesis
    by (auto simp: service_port_def Let_def port_ok_def port_identity_def parsed_port_def canonical_port_def
        port_protocol_def port_target_def)
qed

lemma service_ports_fold:
  "fold_res service_port ps (seen, ports, cs) = Inr (seen', ports', cs') \<longleftrightarrow>
     list_all port_ok ps \<and> distinct (map port_identity ps) \<and> port_identity ` set ps \<inter> seen = {} \<and>
     seen' = seen \<union> port_identity ` set ps \<and> ports' = ports @ map parsed_port ps \<and> cs' = cs @ map canonical_port ps"
proof (induction ps arbitrary: seen ports cs)
  case (Cons p ps)
  show ?case
  proof (cases "port_ok p \<and> port_identity p \<notin> seen")
    case True
    then show ?thesis
      by (simp add: service_port_eq[of p] Cons) blast
  next
    case False
    then show ?thesis by (subst fold_res.simps, subst service_port_eq) auto
  qed
qed auto

lemma canonical_port_facts:
  assumes "port_ok p"
  shows "port_ok (canonical_port p)" "parsed_port (canonical_port p) = parsed_port p"
    "canonical_port (canonical_port p) = canonical_port p" "port_identity (canonical_port p) = port_identity p"
proof -
  let ?c = "canonical_port p"
  have t: "1 \<le> port_target p" "port_target p \<le> 65535" using assms by (simp_all add: port_ok_def)
  have "port_protocol ?c = port_protocol p" using assms by (auto simp: port_protocol_def canonical_port_def port_ok_def)
  moreover have "service_target ?c = Inr (port_target p)"
    using t unmarshal_dec[of "port_target p"] by (simp add: service_target_def canonical_port_def)
  then have "port_target ?c = port_target p" "service_target ?c = Inr (port_target ?c)" by (simp_all add: port_target_def)
  moreover have "spd_Name ?c = spd_Name p" "spd_Port ?c = spd_Port p" by (simp_all add: canonical_port_def)
  ultimately show "port_ok ?c" "parsed_port ?c = parsed_port p" "canonical_port ?c = ?c" "port_identity ?c = port_identity p"
    using assms t by (simp_all add: port_ok_def parsed_port_def canonical_port_def[of ?c] port_identity_def)
      (simp add: canonical_port_def)
qed

lemma port_identity_inj:
  assumes "port_ok p" and "port_ok q" and "port_identity p = port_identity q"
  shows "port_protocol p = port_protocol q \<and> spd_Port p = spd_Port q"
proof -
  have "CHR ''/'' \<notin> set (port_protocol r)" if "port_ok r" for r using that by (auto simp: port_ok_def)
  with assms have eq: "port_protocol p = port_protocol q" "dec_int (spd_Port p) = dec_int (spd_Port q)"
    using join_sep_inj[of "CHR ''/''" "port_protocol p" "port_protocol q"] by (auto simp: port_identity_def)
  moreover have "0 \<le> spd_Port p" "0 \<le> spd_Port q" using assms by (auto simp: port_ok_def)
  ultimately show ?thesis by (simp add: dec_int_def)
qed

lemma check_service_ok:
  assumes "check_service document = Inr (s, canonical)"
  shows "ValidID (ms_Name s)" "ValidNamespace (ms_Namespace s)" "ms_Selector s = sd_Selector document"
    "ms_Selector s \<noteq> []" "ms_Ports s = map parsed_port (sd_Ports document)" "ms_Ports s \<noteq> []"
    "list_all port_ok (sd_Ports document)" "distinct (map port_identity (sd_Ports document))"
    "canonical = \<lparr>sd_APIVersion = ''v1'', sd_Kind = ''Service'', sd_Name = ms_Name s, sd_Namespace = ms_Namespace s,
       sd_Selector = ms_Selector s, sd_Ports = map canonical_port (sd_Ports document)\<rparr>"
  using assms by (auto simp: check_service_def Let_def service_ports_fold split: if_splits sum.splits)

lemma canonical_fixed:
  assumes "check_service document = Inr (s, canonical)"
  shows "check_service canonical = Inr (s, canonical)"
proof -
  note ok = check_service_ok[OF assms]
  let ?ps = "sd_Ports document"
  have c: "\<And>p. p \<in> set ?ps \<Longrightarrow> port_ok p" using ok(7) by (simp add: list_all_iff)
  have "list_all port_ok (map canonical_port ?ps)" "map port_identity (map canonical_port ?ps) = map port_identity ?ps"
    "map parsed_port (map canonical_port ?ps) = map parsed_port ?ps"
    "map canonical_port (map canonical_port ?ps) = map canonical_port ?ps"
    using c canonical_port_facts by (auto simp: list_all_iff)
  then have "fold_res service_port (map canonical_port ?ps) ({}, [], []) =
      Inr (port_identity ` set (map canonical_port ?ps), ms_Ports s, map canonical_port ?ps)"
    using ok(8) by (simp only: service_ports_fold) (simp add: ok(5))
  then show ?thesis
    using ok by (cases s) (simp add: check_service_def ValidID_not_Nil ValidNamespace_not_Nil)
qed

lemma check_service_desired:
  assumes "check_service document = Inr (s, canonical)"
    and "\<And>p. p \<in> set (sd_Ports document) \<Longrightarrow> CHR 0x00 \<notin> set (spd_Name p)"
  shows "valid_desired_service s"
proof -
  note ok = check_service_ok[OF assms(1)]
  have c: "\<And>p. p \<in> set (sd_Ports document) \<Longrightarrow> port_ok p" using ok(7) by (simp add: list_all_iff)
  have "distinct (map (\<lambda>p. (sp_Protocol p, sp_Port p)) (map parsed_port (sd_Ports document)))"
  proof -
    have "inj_on (\<lambda>p. (port_protocol p, spd_Port p)) (set (sd_Ports document))"
    proof (rule inj_onI)
      fix p q assume pq: "p \<in> set (sd_Ports document)" "q \<in> set (sd_Ports document)"
        and "(port_protocol p, spd_Port p) = (port_protocol q, spd_Port q)"
      then have "port_identity p = port_identity q" by (simp add: port_identity_def)
      with pq ok(8) show "p = q" by (simp add: distinct_map inj_on_def)
    qed
    moreover have "distinct (sd_Ports document)" using ok(8) by (simp add: distinct_map)
    ultimately show ?thesis by (simp add: distinct_map comp_def parsed_port_def)
  qed
  moreover have "list_all valid_desired_port (map parsed_port (sd_Ports document))"
    using c assms(2) by (auto simp: list_all_iff valid_desired_port_def parsed_port_def port_ok_def)
  ultimately show ?thesis using ok by (simp add: valid_desired_service_def)
qed

text \<open>
  The YAML library reads back the document that it wrote.
\<close>

definition service_yaml_laws :: "('x) service_ops_scheme \<Rightarrow> bool" where
  "service_yaml_laws ops \<longleftrightarrow> (\<forall>c b. mo_marshalService ops c = Inr b \<longrightarrow>
     validateYAML (mo_yaml ops) b = None \<and> decodeService ops b = Inr c)"

text \<open>
  C31: the canonical YAML that is committed for a Service parses to that Service again, and
  what is parsed is a valid desired Service: valid names, a selector, at least one port,
  ports in range with distinct protocol and number. Port names are taken as they are; they
  must not contain the byte zero, which the coordination protocol uses as a separator.
\<close>

theorem service_yaml_round_trip:
  assumes "service_yaml_laws ops" and "parseService ops document = Inr (s, body)"
    and "list_all (\<lambda>p. CHR 0x00 \<notin> set (spd_Name p)) (sd_Ports document)"
  shows "ParseService ops body = Inr s \<and> valid_desired_service s \<and> ms_Selector s \<noteq> [] \<and> ms_Ports s \<noteq> []"
proof -
  obtain canonical where c: "check_service document = Inr (s, canonical)" "mo_marshalService ops canonical = Inr body"
    using assms(2) by (auto simp: parseService_def split: sum.splits)
  note ok = check_service_ok[OF c(1)]
  have "validateYAML (mo_yaml ops) body = None" "decodeService ops body = Inr canonical"
    using assms(1) c(2) unfolding service_yaml_laws_def by blast+
  moreover have "parseService ops canonical = Inr (s, body)"
    using canonical_fixed[OF c(1)] c(2) by (simp add: parseService_def)
  moreover have "sd_APIVersion canonical = ''v1''" "sd_Kind canonical = ''Service''" by (simp_all add: ok(9))
  ultimately have "ParseService ops body = Inr s" by (simp add: ParseService_def)
  with check_service_desired[OF c(1)] ok assms(3) show ?thesis by (auto simp: list_all_iff)
qed

definition example_document :: serviceDocument where
  "example_document = \<lparr>sd_APIVersion = ''v1'', sd_Kind = ''Service'', sd_Name = ''web'', sd_Namespace = [],
     sd_Selector = [(''app'', ''web'')], sd_Ports = [\<lparr>spd_Name = ''http'', spd_Protocol = [], spd_Port = 80,
       spd_TargetPort = Some (JNumber ''8080'')\<rparr>]\<rparr>"

definition example_canonical :: serviceDocument where
  "example_canonical = \<lparr>sd_APIVersion = ''v1'', sd_Kind = ''Service'', sd_Name = ''web'', sd_Namespace = ''default'',
     sd_Selector = [(''app'', ''web'')], sd_Ports = [\<lparr>spd_Name = ''http'', spd_Protocol = ''TCP'', spd_Port = 80,
       spd_TargetPort = Some (JNumber ''8080'')\<rparr>]\<rparr>"

definition example_service_ops :: service_ops where
  "example_service_ops = \<lparr>mo_yaml = (\<lambda>b. [Inr (YNode DocumentNode [] [] [YNode MappingNode ''!!map'' [] []], [])]),
     mo_toJSON = (\<lambda>b. Inr JNull), mo_pod = (\<lambda>j. Inl (errors_New ''not a Pod'')),
     mo_encodePod = (\<lambda>p. Inl (errors_New ''not a Pod'')), mo_newTag = example_tag,
     mo_service = (\<lambda>j. Inr ([], example_canonical)),
     mo_marshalService = (\<lambda>c. if c = example_canonical then Inr ''yaml'' else Inl (errors_New ''marshal''))\<rparr>"

lemma example_service_laws: "service_yaml_laws example_service_ops"
  by (auto simp: service_yaml_laws_def example_service_ops_def validateYAML_def check_document_def
      yaml_keys_def decodeService_def decodeStrict_def split: if_splits)

theorem service_yaml_round_trip_witness:
  "ParseService example_service_ops ''yaml'' = Inr example_service \<and> valid_desired_service example_service"
proof -
  have v: "ValidID ''web''" "ValidNamespace ''default''" by code_simp+
  have digits: "int_literal ''8080'' = Some 8080"
    by (simp add: int_literal_def HasPrefix_def json_digit_def Go_Prelude.dec_value_def less_eq_char_def)
  have dec: "dec_int 8080 = ''8080''" by (simp add: dec_int_def dec_nat.simps digit_char_def)
  have "check_service example_document = Inr (example_service, example_canonical)"
    using v by (simp add: check_service_def example_document_def service_port_def service_target_def unmarshal_int32_def
        digits dec example_service_def example_canonical_def Let_def)
  then have "parseService example_service_ops example_document = Inr (example_service, ''yaml'')"
    by (simp add: parseService_def example_service_ops_def)
  from service_yaml_round_trip[OF example_service_laws this] show ?thesis by (simp add: example_document_def)
qed

end
