(* ===== verification/Manifest_Deployment.thy ===== *)
theory Manifest_Deployment
  imports Manifest_Service
begin

text \<open>
  Manifests as users write and generate them, \<open>src/internal/manifest/manifest.go\<close>:
  \<open>ParseDeployment\<close> takes one DaemonSet and at most one Service from a YAML stream and turns
  the DaemonSet's template into a Pod, and \<open>Init\<close> generates a manifest. The YAML stream
  reader, the typed decoders and encoders and the quantity parser are libraries and
  arguments of the model.
\<close>

section \<open>Types\<close>

record DaemonSet =
  ds_Name :: string
  ds_Namespace :: string
  ds_MatchLabels :: "(string \<times> string) list"
  ds_TemplateLabels :: "(string \<times> string) list"
  ds_TemplateAnnotations :: "(string \<times> string) list"
  ds_TemplateMetaOther :: string
  ds_TemplateSpec :: PodSpec

record Deployment =
  dep_Pod :: string
  dep_ServiceYAML :: string
  dep_Service :: "manifest_Service option"

text \<open>
  The documents of a stream up to its end, the type of a document, the group, version and
  kind that a type names, and the quantity and sign of a resource value.
\<close>

record deployment_ops = service_ops +
  mo_documents :: "string \<Rightarrow> (error + string) list"
  mo_typeMeta :: "string \<Rightarrow> error + string \<times> string"
  mo_gvk :: "string \<Rightarrow> string \<Rightarrow> string \<times> string \<times> string"
  mo_daemonSet :: "json \<Rightarrow> error + error list \<times> DaemonSet"
  mo_encodeDaemonSet :: "DaemonSet \<Rightarrow> error + string"
  mo_quantity :: "string \<Rightarrow> error + string \<times> int"

section \<open>Scheduling fields\<close>

text \<open>Decoding into a struct with one member: its value, absent for \<open>null\<close> or a missing member.\<close>

definition struct_member :: "string \<Rightarrow> json option \<Rightarrow> error + json option" where
  "struct_member name v =
     (case v of
        None \<Rightarrow> Inr None
      | Some JNull \<Rightarrow> Inr None
      | Some (JObject members) \<Rightarrow> Inr (map_of (rev (map (\<lambda>(k, v). (ToLower k, v)) members)) name)
      | Some _ \<Rightarrow> Inl (errors_New ''json: cannot unmarshal value into Go struct field''))"

definition map_keys :: "json option \<Rightarrow> error + string set" where
  "map_keys v =
     (case v of
        None \<Rightarrow> Inr {}
      | Some JNull \<Rightarrow> Inr {}
      | Some (JObject members) \<Rightarrow> Inr (fst ` set members)
      | Some _ \<Rightarrow> Inl (errors_New ''json: cannot unmarshal value into Go struct field''))"

definition scheduling_keys :: "json \<Rightarrow> error + string set" where
  "scheduling_keys j =
     (case struct_member ''spec'' (Some j) of
        Inl e \<Rightarrow> Inl e
      | Inr spec \<Rightarrow>
          (case struct_member ''template'' spec of
             Inl e \<Rightarrow> Inl e
           | Inr template \<Rightarrow>
               (case struct_member ''spec'' template of Inl e \<Rightarrow> Inl e | Inr podSpec \<Rightarrow> map_keys podSpec)))"

definition rejectSchedulingFields :: "(string \<Rightarrow> error + json) \<Rightarrow> string \<Rightarrow> error option" where
  "rejectSchedulingFields toJSON document =
     (case toJSON document of
        Inl e \<Rightarrow> Some (Wrapf ''parse DaemonSet scheduling fields'' [] e)
      | Inr j \<Rightarrow>
          (case scheduling_keys j of
             Inl e \<Rightarrow> Some (Wrapf ''parse DaemonSet scheduling fields'' [] e)
           | Inr keys \<Rightarrow>
               first_err (\<lambda>field. if field \<in> keys
                   then Some (Errorf ''DaemonSet Pod template scheduling field %q is not supported'' [field]) else None)
                 [''nodeName'', ''affinity'', ''schedulerName'', ''topologySpreadConstraints'']))"

section \<open>The stream\<close>

definition stream_document ::
  "('x) deployment_ops_scheme \<Rightarrow> error + string \<Rightarrow> DaemonSet option \<times> serviceDocument option
     \<Rightarrow> error + DaemonSet option \<times> serviceDocument option" where
  "stream_document ops read = (\<lambda>(daemonSet, service).
     case read of
       Inl e \<Rightarrow> Inl (Wrapf ''parse manifest stream'' [] e)
     | Inr document \<Rightarrow>
         if length (TrimSpace document) = 0 then Inr (daemonSet, service)
         else case validateYAML (mo_yaml ops) document of
           Some e \<Rightarrow> Inl (Wrapf ''parse manifest stream'' [] e)
         | None \<Rightarrow>
             (case mo_typeMeta ops document of
                Inl e \<Rightarrow> Inl (Wrapf ''parse manifest stream'' [] e)
              | Inr (apiVersion, kind) \<Rightarrow>
                  if mo_gvk ops apiVersion kind = (''apps'', ''v1'', ''DaemonSet'')
                  then (if daemonSet \<noteq> None
                        then Inl (errors_New ''manifest stream must contain exactly one apps/v1 DaemonSet'')
                        else case decodeStrict (mo_toJSON ops) (mo_daemonSet ops) document of
                               Inl e \<Rightarrow> Inl (Wrapf ''parse DaemonSet'' [] e)
                             | Inr ds \<Rightarrow>
                                 (case rejectSchedulingFields (mo_toJSON ops) document of
                                    Some e \<Rightarrow> Inl e
                                  | None \<Rightarrow> Inr (Some ds, service)))
                  else if mo_gvk ops apiVersion kind = ([], ''v1'', ''Service'')
                  then (if service \<noteq> None
                        then Inl (errors_New ''manifest stream may contain at most one Service'')
                        else case decodeService ops document of
                               Inl e \<Rightarrow> Inl (Wrapf ''parse Service'' [] e)
                             | Inr sd \<Rightarrow> Inr (daemonSet, Some sd))
                  else Inl (Errorf ''unsupported kind %q'' [kind])))"

section \<open>The deployment\<close>

definition template_pod :: "DaemonSet \<Rightarrow> string \<Rightarrow> string \<Rightarrow> corev1_Pod" where
  "template_pod ds name namespace =
     \<lparr>mp_APIVersion = ''v1'', mp_Kind = ''Pod'', mp_Name = name, mp_Namespace = namespace,
      mp_Labels = ds_TemplateLabels ds, mp_Annotations = ds_TemplateAnnotations ds,
      mp_MetaOther = ds_TemplateMetaOther ds, mp_Spec = (ds_TemplateSpec ds)\<lparr>spec_NodeSelector := []\<rparr>\<rparr>"

text \<open>The checks of the DaemonSet: the Pod before the policy is applied.\<close>

definition daemonset_pod :: "DaemonSet \<Rightarrow> string \<Rightarrow> string \<Rightarrow> error + corev1_Pod" where
  "daemonset_pod ds expectedName0 nodeGroup0 =
     (let name = ds_Name ds;
          namespace = (if ds_Namespace ds = [] then ''default'' else ds_Namespace ds);
          expectedName = (if expectedName0 = [] then name else expectedName0);
          spec = ds_TemplateSpec ds;
          selected = (case map_of (spec_NodeSelector spec) ''podmin.dev/nodegroup'' of Some g \<Rightarrow> g | None \<Rightarrow> []);
          nodeGroup = (if nodeGroup0 = [] then selected else nodeGroup0)
      in if name \<noteq> expectedName \<or> \<not> ValidID name \<or> \<not> ValidNamespace namespace
         then Inl (errors_New ''DaemonSet metadata name or namespace is invalid'')
         else if \<not> ValidID nodeGroup \<or> length (spec_NodeSelector spec) \<noteq> 1 \<or> selected \<noteq> nodeGroup
         then Inl (errors_New ''DaemonSet Pod template nodegroup selector does not match --nodegroup'')
         else if spec_NodeName spec \<noteq> [] \<or> spec_Affinity spec \<noteq> None \<or> spec_SchedulerName spec \<noteq> []
              \<or> length (spec_TopologySpreadConstraints spec) \<noteq> 0
         then Inl (errors_New ''DaemonSet Pod template contains an unsupported scheduling field'')
         else Inr (template_pod ds name namespace))"

definition attach_service ::
  "('x) deployment_ops_scheme \<Rightarrow> serviceDocument option \<Rightarrow> corev1_Pod
     \<Rightarrow> error + corev1_Pod \<times> string \<times> manifest_Service option" where
  "attach_service ops service pod =
     (case service of
        None \<Rightarrow> Inr (pod, [], None)
      | Some document \<Rightarrow>
          (case parseService ops document of
             Inl e \<Rightarrow> Inl e
           | Inr (parsed, canonical) \<Rightarrow>
               if ms_Namespace parsed \<noteq> mp_Namespace pod
               then Inl (Errorf ''Service namespace %q does not equal DaemonSet namespace %q''
                           [ms_Namespace parsed, mp_Namespace pod])
               else Inr (pod\<lparr>mp_Annotations := AList.update ''podmin.dev/service'' (ms_Name parsed) (mp_Annotations pod)\<rparr>,
                         canonical, Some parsed)))"

definition build_deployment ::
  "('x) deployment_ops_scheme \<Rightarrow> DaemonSet \<Rightarrow> serviceDocument option \<Rightarrow> string list \<Rightarrow> string \<Rightarrow> string \<Rightarrow> string
     \<Rightarrow> error + Deployment" where
  "build_deployment ops ds service images revision expectedName nodeGroup =
     (case daemonset_pod ds expectedName nodeGroup of
        Inl e \<Rightarrow> Inl e
      | Inr pod \<Rightarrow>
          (case transformPod (mo_newTag ops) pod images revision of
             Inl e \<Rightarrow> Inl e
           | Inr transformed \<Rightarrow>
               (case attach_service ops service transformed of
                  Inl e \<Rightarrow> Inl e
                | Inr (attached, canonical, parsed) \<Rightarrow>
                    (case mo_encodePod ops attached of
                       Inl e \<Rightarrow> Inl e
                     | Inr encoded \<Rightarrow>
                         Inr \<lparr>dep_Pod = encoded, dep_ServiceYAML = canonical, dep_Service = parsed\<rparr>))))"

definition ParseDeployment ::
  "('x) deployment_ops_scheme \<Rightarrow> string \<Rightarrow> string list \<Rightarrow> string \<Rightarrow> string \<Rightarrow> string \<Rightarrow> error + Deployment" where
  "ParseDeployment ops input images revision expectedName nodeGroup =
     (case fold_res (stream_document ops) (mo_documents ops input) (None, None) of
        Inl e \<Rightarrow> Inl e
      | Inr (None, _) \<Rightarrow> Inl (errors_New ''manifest stream must contain exactly one apps/v1 DaemonSet'')
      | Inr (Some ds, service) \<Rightarrow> build_deployment ops ds service images revision expectedName nodeGroup)"

section \<open>Generated manifests\<close>

record InitConfig =
  ic_Name :: string
  ic_NodeGroup :: string
  ic_Namespace :: string
  ic_Images :: "string list"
  ic_Service :: bool
  ic_Env :: "(string \<times> string) list"
  ic_Ports :: "ServicePort list"
  ic_CPU :: string
  ic_Memory :: string
  ic_SecretKeys :: "string list"
  ic_SecretsProvider :: string

definition defaultServicePort :: int where
  "defaultServicePort = 443"

definition defaultContainerPort :: int where
  "defaultContainerPort = 8443"

definition init_limit ::
  "(string \<Rightarrow> error + string \<times> int) \<Rightarrow> string \<times> string \<Rightarrow> (string \<times> string) list \<Rightarrow> error + (string \<times> string) list" where
  "init_limit quantity = (\<lambda>(name, v) limits.
     if v = [] then Inr limits
     else case quantity v of
            Inl _ \<Rightarrow> Inl (Errorf ''invalid --%s %q; expected a positive Kubernetes resource quantity'' [name, v])
          | Inr (q, sign) \<Rightarrow>
              if sign \<noteq> 1
              then Inl (Errorf ''invalid --%s %q; expected a positive Kubernetes resource quantity'' [name, v])
              else Inr (limits @ [(name, q)]))"

definition init_port :: "bool \<Rightarrow> ServicePort \<Rightarrow> int set \<times> ServicePort list \<Rightarrow> error + int set \<times> ServicePort list" where
  "init_port several port = (\<lambda>(seen, ports).
     let protocol = (if sp_Protocol port = [] then ''TCP'' else sp_Protocol port)
     in if protocol \<noteq> ''TCP'' \<or> sp_Port port < 1 \<or> sp_Port port > 65535 \<or> sp_TargetPort port < 1 \<or> sp_TargetPort port > 65535
        then Inl (errors_New ''service ports must be TCP SERVICE:TARGET integers from 1 through 65535'')
        else if sp_Port port \<in> seen then Inl (Errorf ''duplicate Service port TCP/%d'' [dec_int (sp_Port port)])
        else Inr (insert (sp_Port port) seen,
          ports @ [port\<lparr>sp_Protocol := protocol,
            sp_Name := (if several then ''tcp-'' @ dec_int (sp_Port port) else sp_Name port)\<rparr>]))"

definition init_env :: "string \<times> string \<Rightarrow> (string \<times> string) list \<Rightarrow> error + (string \<times> string) list" where
  "init_env = (\<lambda>(key, v) env.
     if key \<in> fst ` set env
     then Inl (Errorf ''environment variable %q conflicts with built-in service configuration'' [key])
     else Inr (env @ [(key, v)]))"

text \<open>The environment, ports and probe of a Service's container.\<close>

definition service_env :: "(string \<Rightarrow> error + Tag) \<Rightarrow> string \<Rightarrow> int \<Rightarrow> (string \<times> string) list" where
  "service_env newTag img primary =
     (case registry_Parse newTag img of
        Inr ref \<Rightarrow>
          if IsApp ref ''hello''
          then [(''BRAND_NAME'', ''Podmin''), (''BRAND_URL'', ''https://podmin.dev''), (''BRAND_LOGO'', []),
                (''PORT'', dec_int primary)]
          else []
      | Inl _ \<Rightarrow> [])
     @ [(''TLS_CERT_FILE'', IdentityMountPath @ ''/tls.crt''), (''TLS_KEY_FILE'', IdentityMountPath @ ''/tls.key'')]"

definition init_container ::
  "(string \<Rightarrow> error + Tag) \<Rightarrow> InitConfig \<Rightarrow> (string \<times> string) list \<Rightarrow> ServicePort list \<Rightarrow> bool \<Rightarrow> string
     \<Rightarrow> string set \<times> Container list \<Rightarrow> error + string set \<times> Container list" where
  "init_container newTag options limits ports defaultPorts raw = (\<lambda>(seen, containers).
     let (container, img) = (if strings_Contains raw ''='' then (let (n, i, _) = Cut raw CHR ''='' in (n, i))
                             else (ic_Name options, raw));
         primary = (if ic_Service options then sp_TargetPort (hd ports) else defaultContainerPort)
     in if \<not> ValidID container \<or> img = [] \<or> container \<in> seen then Inl (Errorf ''invalid --image %q'' [raw])
        else case fold_res init_env (sort_slice (\<lambda>x y. fst x < fst y) (ic_Env options))
                    (if ic_Service options then service_env newTag img primary else []) of
               Inl e \<Rightarrow> Inl e
             | Inr env \<Rightarrow>
                 Inr (insert container seen, containers @
                   [\<lparr>ctr_Name = container, ctr_Image = img, ctr_ImagePullPolicy = ''Always'', ctr_Env = env,
                     ctr_Ports = (if ic_Service options
                                  then map (\<lambda>p. (p, ''TCP'')) (rev (remdups (rev (map sp_TargetPort ports)))) else []),
                     ctr_Limits = limits,
                     ctr_ReadinessProbe = (if \<not> ic_Service options then None
                       else if defaultPorts then Some (HTTPGetProbe ''/healthz'' primary ''HTTPS'')
                       else Some (TCPSocketProbe primary)),
                     ctr_VolumeMounts = [], ctr_Other = []\<rparr>]))"

definition service_text :: "InitConfig \<Rightarrow> ServicePort list \<Rightarrow> string" where
  "service_text options ports =
     (let nl = [CHR 0x0A] in
      ''apiVersion: v1'' @ nl @ ''kind: Service'' @ nl @ ''metadata:'' @ nl @ ''  name: '' @ ic_Name options @ nl
      @ ''  namespace: '' @ ic_Namespace options @ nl @ ''spec:'' @ nl @ ''  selector:'' @ nl @ ''    app: ''
      @ ic_Name options @ nl @ ''  ports:'' @ nl
      @ concat (map (\<lambda>port. ''    - protocol: TCP'' @ nl
          @ (if sp_Name port \<noteq> [] then ''      name: '' @ sp_Name port @ nl else [])
          @ ''      port: '' @ dec_int (sp_Port port) @ nl
          @ ''      targetPort: '' @ dec_int (sp_TargetPort port) @ nl) ports))"

text \<open>The ports of the Service, and whether they are the default ones.\<close>

definition init_ports :: "InitConfig \<Rightarrow> error + ServicePort list \<times> bool" where
  "init_ports options =
     (if \<not> ic_Service options \<and> length (ic_Ports options) \<noteq> 0
      then Inl (errors_New ''service ports require --service'')
      else let defaultPorts = (ic_Service options \<and> length (ic_Ports options) = 0);
               ports = (if defaultPorts
                        then [\<lparr>sp_Name = [], sp_Protocol = ''TCP'', sp_Port = defaultServicePort,
                               sp_TargetPort = defaultContainerPort\<rparr>]
                        else ic_Ports options)
      in case fold_res (init_port (length ports > 1)) ports ({}, []) of
           Inl e \<Rightarrow> Inl e
         | Inr (_, ports') \<Rightarrow> Inr (ports', defaultPorts))"

definition init_annotations :: "InitConfig \<Rightarrow> error + (string \<times> string) list" where
  "init_annotations options =
     (if ic_SecretKeys options = [] then Inr []
      else if ic_SecretsProvider options \<noteq> ''aws-parameter-store'' \<and> ic_SecretsProvider options \<noteq> ''aws-secrets-manager''
      then Inl (Errorf ''unsupported secret provider %q'' [ic_SecretsProvider options])
      else Inr [(''podmin.dev/'' @ ic_SecretsProvider options, strings_Join (ic_SecretKeys options) '','')])"

definition init_spec :: "InitConfig \<Rightarrow> Container list \<Rightarrow> PodSpec" where
  "init_spec options containers =
     \<lparr>spec_Volumes = [], spec_InitContainers = [], spec_Containers = containers,
      spec_NodeSelector = [(''podmin.dev/nodegroup'', ic_NodeGroup options)], spec_NodeName = [], spec_Affinity = None,
      spec_SchedulerName = [], spec_TopologySpreadConstraints = [], spec_DNSPolicy = [], spec_DNSConfig = None,
      spec_Other = []\<rparr>"

definition init_daemonset ::
  "(string \<Rightarrow> error + Tag) \<Rightarrow> (string \<Rightarrow> error + string \<times> int) \<Rightarrow> InitConfig \<Rightarrow> error + DaemonSet \<times> ServicePort list" where
  "init_daemonset newTag quantity options =
     (if \<not> ValidID (ic_Name options) \<or> \<not> ValidID (ic_NodeGroup options) \<or> \<not> ValidNamespace (ic_Namespace options)
      then Inl (errors_New ''invalid DaemonSet name, NodeGroup, or namespace'')
      else if length (ic_Images options) = 0 then Inl (errors_New ''at least one --image is required'')
      else if ic_Service options \<and> length (ic_Images options) \<noteq> 1
      then Inl (errors_New ''--service requires exactly one container image'')
      else case fold_res (init_limit quantity) [(''cpu'', ic_CPU options), (''memory'', ic_Memory options)] [] of
        Inl e \<Rightarrow> Inl e
      | Inr limits \<Rightarrow>
          (case init_ports options of
             Inl e \<Rightarrow> Inl e
           | Inr (ports, defaultPorts) \<Rightarrow>
               (case fold_res (init_container newTag options limits ports defaultPorts) (ic_Images options) ({}, []) of
                  Inl e \<Rightarrow> Inl e
                | Inr (_, containers) \<Rightarrow>
                    (case init_annotations options of
                       Inl e \<Rightarrow> Inl e
                     | Inr annotations \<Rightarrow>
                         (case transformPod newTag
                                 \<lparr>mp_APIVersion = [], mp_Kind = [], mp_Name = ic_Name options, mp_Namespace = [],
                                  mp_Labels = [], mp_Annotations = annotations, mp_MetaOther = [],
                                  mp_Spec = init_spec options containers\<rparr> [] [] of
                            Inl e \<Rightarrow> Inl e
                          | Inr pod \<Rightarrow>
                              Inr (\<lparr>ds_Name = ic_Name options, ds_Namespace = ic_Namespace options,
                                    ds_MatchLabels = [(''app'', ic_Name options)],
                                    ds_TemplateLabels = [(''app'', ic_Name options)],
                                    ds_TemplateAnnotations = mp_Annotations pod, ds_TemplateMetaOther = [],
                                    ds_TemplateSpec = mp_Spec pod\<rparr>, ports))))))"

definition manifest_Init :: "('x) deployment_ops_scheme \<Rightarrow> InitConfig \<Rightarrow> error + string" where
  "manifest_Init ops options =
     (case init_daemonset (mo_newTag ops) (mo_quantity ops) options of
        Inl e \<Rightarrow> Inl e
      | Inr (ds, ports) \<Rightarrow>
          (case mo_encodeDaemonSet ops ds of
             Inl e \<Rightarrow> Inl e
           | Inr yaml \<Rightarrow>
               if \<not> ic_Service options then Inr yaml
               else Inr (yaml @ ''---'' @ [CHR 0x0A] @ service_text options ports)))"

section \<open>What is deployed\<close>

lemma transformPod_frame:
  assumes "transformPod newTag pod images revision = Inr pod'"
  shows "mp_Name pod' = mp_Name pod" "mp_Namespace pod' = mp_Namespace pod" "mp_Labels pod' = mp_Labels pod"
    "mp_Annotations pod' = (if revision \<noteq> [] then AList.update ''podmin.dev/revision'' revision (mp_Annotations pod)
       else mp_Annotations pod)"
    "spec_NodeSelector (mp_Spec pod') = spec_NodeSelector (mp_Spec pod)"
    "spec_NodeName (mp_Spec pod') = spec_NodeName (mp_Spec pod)" "spec_Affinity (mp_Spec pod') = spec_Affinity (mp_Spec pod)"
    "spec_SchedulerName (mp_Spec pod') = spec_SchedulerName (mp_Spec pod)"
    "spec_TopologySpreadConstraints (mp_Spec pod') = spec_TopologySpreadConstraints (mp_Spec pod)"
  using assms by (auto simp: transformPod_def Let_def split: if_splits sum.splits)

text \<open>The policy concerns the name, the containers and the volumes.\<close>

lemma pod_policy_cong:
  assumes "mp_Name p = mp_Name q" "spec_Containers (mp_Spec p) = spec_Containers (mp_Spec q)"
    "spec_InitContainers (mp_Spec p) = spec_InitContainers (mp_Spec q)" "spec_Volumes (mp_Spec p) = spec_Volumes (mp_Spec q)"
  shows "pod_policy newTag p \<longleftrightarrow> pod_policy newTag q"
  unfolding pod_policy_def Let_def assms ..

lemma init_daemonset_accepted:
  assumes "tag_name_laws newTag" and "init_daemonset newTag quantity options = Inr (ds, ports)"
  shows "\<exists>pod. daemonset_pod ds (ic_Name options) (ic_NodeGroup options) = Inr pod \<and> pod_policy newTag pod \<and>
    mp_Name pod = ic_Name options \<and> mp_Namespace pod = ic_Namespace options \<and>
    mp_Labels pod = [(''app'', ic_Name options)]"
proof -
  obtain containers annotations pod where
    valid: "ValidID (ic_Name options)" "ValidID (ic_NodeGroup options)" "ValidNamespace (ic_Namespace options)"
    and t: "transformPod newTag \<lparr>mp_APIVersion = [], mp_Kind = [], mp_Name = ic_Name options, mp_Namespace = [],
      mp_Labels = [], mp_Annotations = annotations, mp_MetaOther = [], mp_Spec = init_spec options containers\<rparr> [] [] = Inr pod"
    and ds: "ds = \<lparr>ds_Name = ic_Name options, ds_Namespace = ic_Namespace options,
      ds_MatchLabels = [(''app'', ic_Name options)], ds_TemplateLabels = [(''app'', ic_Name options)],
      ds_TemplateAnnotations = mp_Annotations pod, ds_TemplateMetaOther = [], ds_TemplateSpec = mp_Spec pod\<rparr>"
    using assms(2) by (auto simp: init_daemonset_def split: if_splits sum.splits)
  note frame = transformPod_frame[OF t]
  have "daemonset_pod ds (ic_Name options) (ic_NodeGroup options) = Inr (template_pod ds (ic_Name options) (ic_Namespace options))"
    using valid frame by (simp add: daemonset_pod_def ds init_spec_def ValidID_not_Nil ValidNamespace_not_Nil Let_def)
  moreover have "pod_policy newTag pod" by (rule transformPod_policy[OF assms(1) t])
  then have "pod_policy newTag (template_pod ds (ic_Name options) (ic_Namespace options))"
    using frame(1) by (subst pod_policy_cong[of _ pod]) (simp_all add: template_pod_def ds)
  ultimately show ?thesis by (simp add: template_pod_def ds)
qed

lemma build_deployment_ok:
  assumes "tag_name_laws (mo_newTag ops)"
    and "build_deployment ops ds service images revision expectedName nodeGroup = Inr d"
  obtains pod where "mo_encodePod ops pod = Inr (dep_Pod d)" "pod_policy (mo_newTag ops) pod"
    "mp_Name pod = ds_Name ds" "ValidNamespace (mp_Namespace pod)" "spec_NodeSelector (mp_Spec pod) = []"
    "mp_APIVersion pod = ''v1''" "mp_Kind pod = ''Pod''"
    "case dep_Service d of
       None \<Rightarrow> service = None
     | Some s \<Rightarrow> ms_Namespace s = mp_Namespace pod \<and> map_of (mp_Annotations pod) ''podmin.dev/service'' = Some (ms_Name s) \<and>
         (\<exists>document. service = Some document \<and> parseService ops document = Inr (s, dep_ServiceYAML d))"
proof -
  obtain pod transformed attached where
    p: "daemonset_pod ds expectedName nodeGroup = Inr pod"
    and t: "transformPod (mo_newTag ops) pod images revision = Inr transformed"
    and a: "attach_service ops service transformed = Inr (attached, dep_ServiceYAML d, dep_Service d)"
    and e: "mo_encodePod ops attached = Inr (dep_Pod d)"
    using assms(2) by (auto simp: build_deployment_def split: sum.splits)
  have pod: "mp_Name pod = ds_Name ds" "ValidNamespace (mp_Namespace pod)" "spec_NodeSelector (mp_Spec pod) = []"
    "mp_APIVersion pod = ''v1''" "mp_Kind pod = ''Pod''"
    using p by (auto simp: daemonset_pod_def template_pod_def Let_def split: if_splits)
  have kind: "mp_APIVersion transformed = mp_APIVersion pod" "mp_Kind transformed = mp_Kind pod"
    using t by (auto simp: transformPod_def Let_def split: if_splits sum.splits)
  note frame = transformPod_frame[OF t]
  have same: "mp_Name attached = mp_Name transformed" "mp_Namespace attached = mp_Namespace transformed"
    "mp_Spec attached = mp_Spec transformed" "mp_APIVersion attached = mp_APIVersion transformed"
    "mp_Kind attached = mp_Kind transformed"
    using a by (auto simp: attach_service_def split: option.splits sum.splits if_splits)
  have "pod_policy (mo_newTag ops) attached"
    using transformPod_policy(1)[OF assms(1) t] pod_policy_cong[of attached transformed] same by simp
  moreover have "case dep_Service d of
       None \<Rightarrow> service = None
     | Some s \<Rightarrow> ms_Namespace s = mp_Namespace attached \<and> map_of (mp_Annotations attached) ''podmin.dev/service'' = Some (ms_Name s) \<and>
         (\<exists>document. service = Some document \<and> parseService ops document = Inr (s, dep_ServiceYAML d))"
    using a by (cases "dep_Service d") (auto simp: attach_service_def update_conv' split: option.splits sum.splits if_splits)
  ultimately show ?thesis using that[of attached] e pod same frame kind by simp
qed


subsection \<open>Generated Services\<close>

text \<open>The document that the generated Service text denotes.\<close>

definition init_service :: "InitConfig \<Rightarrow> ServicePort list \<Rightarrow> serviceDocument" where
  "init_service options ports = \<lparr>sd_APIVersion = ''v1'', sd_Kind = ''Service'', sd_Name = ic_Name options,
     sd_Namespace = ic_Namespace options, sd_Selector = [(''app'', ic_Name options)],
     sd_Ports = map (\<lambda>p. \<lparr>spd_Name = sp_Name p, spd_Protocol = ''TCP'', spd_Port = sp_Port p,
       spd_TargetPort = Some (JNumber (dec_int (sp_TargetPort p)))\<rparr>) ports\<rparr>"

definition init_port_ok :: "ServicePort \<Rightarrow> bool" where
  "init_port_ok p \<longleftrightarrow> sp_Protocol p = ''TCP'' \<and> 1 \<le> sp_Port p \<and> sp_Port p \<le> 65535 \<and> 1 \<le> sp_TargetPort p \<and> sp_TargetPort p \<le> 65535"

lemma init_ports_fold:
  assumes "fold_res (init_port several) ps (seen, acc) = Inr (seen', out)" and "list_all init_port_ok acc"
    and "distinct (map sp_Port acc)" and "seen = sp_Port ` set acc"
  shows "list_all init_port_ok out" "distinct (map sp_Port out)" "length out = length acc + length ps"
proof -
  have "list_all init_port_ok out \<and> distinct (map sp_Port out) \<and> length out = length acc + length ps"
    using assms
  proof (induction ps arbitrary: seen acc)
    case (Cons p ps)
    obtain q where q: "init_port several p (seen, acc) = Inr (insert (sp_Port p) seen, acc @ [q])"
      "init_port_ok q" "sp_Port q = sp_Port p" "sp_Port p \<notin> seen"
      using Cons.prems(1) by (fastforce simp: init_port_def init_port_ok_def Let_def split: if_splits)
    from Cons.prems(1) q(1) have f: "fold_res (init_port several) ps (insert (sp_Port p) seen, acc @ [q]) = Inr (seen', out)" by simp
    show ?case using Cons.IH[OF f] Cons.prems(2-4) q by simp
  qed simp
  then show "list_all init_port_ok out" "distinct (map sp_Port out)" "length out = length acc + length ps" by simp_all
qed

lemma init_ports_ok:
  assumes "init_ports options = Inr (ports, d)"
  shows "list_all init_port_ok ports" "distinct (map sp_Port ports)" "ic_Service options \<Longrightarrow> ports \<noteq> []"
proof -
  define raw where "raw = (if ic_Service options \<and> length (ic_Ports options) = 0
    then [\<lparr>sp_Name = [], sp_Protocol = ''TCP'', sp_Port = defaultServicePort, sp_TargetPort = defaultContainerPort\<rparr>]
    else ic_Ports options)"
  obtain seen where raw: "fold_res (init_port (length raw > 1)) raw ({}, []) = Inr (seen, ports)"
    using assms unfolding init_ports_def Let_def raw_def[symmetric] by (auto split: if_splits sum.splits)
  have raw2: "ic_Service options \<Longrightarrow> raw \<noteq> []" by (auto simp: raw_def)
  from init_ports_fold[OF raw] raw2
  show "list_all init_port_ok ports" "distinct (map sp_Port ports)" "ic_Service options \<Longrightarrow> ports \<noteq> []" by auto
qed

lemma init_service_accepted:
  assumes "list_all init_port_ok ports" "distinct (map sp_Port ports)" "ports \<noteq> []"
    and "ValidID (ic_Name options)" "ValidNamespace (ic_Namespace options)"
  shows "\<exists>s canonical. check_service (init_service options ports) = Inr (s, canonical) \<and>
     ms_Name s = ic_Name options \<and> ms_Namespace s = ic_Namespace options \<and> ms_Selector s = [(''app'', ic_Name options)] \<and>
     ms_Ports s = ports"
proof -
  let ?doc = "\<lambda>p. \<lparr>spd_Name = sp_Name p, spd_Protocol = ''TCP'', spd_Port = sp_Port p,
       spd_TargetPort = Some (JNumber (dec_int (sp_TargetPort p)))\<rparr>"
  have t: "service_target (?doc p) = Inr (sp_TargetPort p)" if "p \<in> set ports" for p
    using assms(1) that unmarshal_dec[of "sp_TargetPort p"]
    by (auto simp: service_target_def list_all_iff init_port_ok_def)
  have ok: "list_all port_ok (map ?doc ports)"
    using assms(1) t by (auto simp: list_all_iff init_port_ok_def port_ok_def port_protocol_def port_target_def)
  have ps: "map parsed_port (map ?doc ports) = ports"
    using assms(1) t by (auto simp: list_all_iff init_port_ok_def parsed_port_def port_protocol_def port_target_def intro!: map_idI)
  have "inj_on (\<lambda>p. port_identity (?doc p)) (set ports)"
  proof (rule inj_onI)
    fix p q assume pq: "p \<in> set ports" "q \<in> set ports" "port_identity (?doc p) = port_identity (?doc q)"
    with ok have "sp_Port p = sp_Port q"
      using port_identity_inj[of "?doc p" "?doc q"] by (simp add: list_all_iff)
    with pq assms(2) show "p = q" by (simp add: distinct_map inj_on_def)
  qed
  then have d: "distinct (map port_identity (map ?doc ports))"
    using assms(2) by (simp add: distinct_map comp_def)
  have "fold_res service_port (map ?doc ports) ({}, [], []) =
      Inr (port_identity ` set (map ?doc ports), ports, map canonical_port (map ?doc ports))"
    using ok d ps by (simp only: service_ports_fold) simp
  with assms show ?thesis
    by (simp add: check_service_def init_service_def ValidID_not_Nil ValidNamespace_not_Nil Let_def)
qed

lemma init_daemonset_ports:
  assumes "init_daemonset newTag quantity options = Inr (ds, ports)"
  shows "\<exists>d. init_ports options = Inr (ports, d)" "ValidID (ic_Name options)" "ValidNamespace (ic_Namespace options)"
  using assms by (auto simp: init_daemonset_def split: if_splits sum.splits)


definition example_init :: InitConfig where
  "example_init = \<lparr>ic_Name = ''web'', ic_NodeGroup = ''workers'', ic_Namespace = ''default'', ic_Images = [''web:v1''],
     ic_Service = True, ic_Env = [], ic_Ports = [], ic_CPU = [], ic_Memory = [], ic_SecretKeys = [], ic_SecretsProvider = []\<rparr>"

lemma example_init_container:
  "\<exists>c. fold_res (init_container example_tag example_init [] [port] True) [''web:v1''] ({}, []) = Inr ({''web''}, [c]) \<and>
     ctr_Name c = ''web'' \<and> ctr_Image c = ''web:v1'' \<and> ctr_ImagePullPolicy c = ''Always'' \<and> ctr_VolumeMounts c = []"
proof -
  have v: "ValidID ''web''" and bare: "\<not> strings_Contains ''web:v1'' ''=''" by code_simp+
  show ?thesis by (simp add: init_container_def example_init_def v bare Let_def)
qed


lemma example_init_transform:
  assumes "ctr_Name c = ''web''" "ctr_Image c = ''web:v1''" "ctr_ImagePullPolicy c = ''Always''" "ctr_VolumeMounts c = []"
    and "mp_Name pod = ''web''" "spec_Containers (mp_Spec pod) = [c]" "spec_InitContainers (mp_Spec pod) = []"
    "spec_Volumes (mp_Spec pod) = []"
  shows "\<exists>pod'. transformPod example_tag pod [] [] = Inr pod'"
proof -
  have v: "ValidID ''web''" by code_simp
  have names: "fold_res container_name [c] {} = Inr {''web''}" by (simp add: container_name_def assms v)
  have o: "overrides [c] [c] [] = Inr [c]" by (simp add: overrides_def)
  have n: "map_res (normalize_image example_tag) [c] = Inr [c\<lparr>ctr_Image := ''registry.podmin.internal/apps/web:v1''\<rparr>]" (is "_ = Inr [?n]")
    by (simp add: normalize_image_def example_parse assms)
  have i: "injectIdentity [] [?n] ''web'' = Inr ([identity_volume ''web''], [?n\<lparr>ctr_VolumeMounts := [identity_mount]\<rparr>])"
    by (simp add: injectIdentity_def mount_identity_def assms)
  show ?thesis using v names o n i by (simp add: transformPod_def assms Let_def)
qed

lemma example_init_ports:
  "init_ports example_init = Inr ([\<lparr>sp_Name = [], sp_Protocol = ''TCP'', sp_Port = 443, sp_TargetPort = 8443\<rparr>], True)"
  by (simp add: init_ports_def example_init_def init_port_def defaultServicePort_def defaultContainerPort_def Let_def)

lemma example_init_daemonset:
  "\<exists>ds. init_daemonset example_tag (\<lambda>q. Inr (q, 1)) example_init =
     Inr (ds, [\<lparr>sp_Name = [], sp_Protocol = ''TCP'', sp_Port = 443, sp_TargetPort = 8443\<rparr>])"
proof -
  have v: "ValidID ''web''" "ValidID ''workers''" "ValidNamespace ''default''" by code_simp+
  let ?port = "\<lparr>sp_Name = [], sp_Protocol = ''TCP'', sp_Port = 443, sp_TargetPort = 8443\<rparr>"
  obtain c where c: "fold_res (init_container example_tag example_init [] [?port] True) [''web:v1''] ({}, []) = Inr ({''web''}, [c])"
    "ctr_Name c = ''web''" "ctr_Image c = ''web:v1''" "ctr_ImagePullPolicy c = ''Always''" "ctr_VolumeMounts c = []"
    using example_init_container[of ?port] by blast
  let ?pod = "\<lparr>mp_APIVersion = [], mp_Kind = [], mp_Name = ''web'', mp_Namespace = [],
     mp_Labels = [], mp_Annotations = [], mp_MetaOther = [], mp_Spec = init_spec example_init [c]\<rparr>"
  obtain pod' where pod': "transformPod example_tag ?pod [] [] = Inr pod'"
    using example_init_transform[OF c(2-5), of ?pod] by (auto simp: init_spec_def)
  have o: "ic_Name example_init = ''web''" "ic_NodeGroup example_init = ''workers''" "ic_Namespace example_init = ''default''"
    "ic_Images example_init = [''web:v1'']" "ic_Service example_init" "ic_CPU example_init = []" "ic_Memory example_init = []"
    "init_annotations example_init = Inr []"
    by (simp_all add: example_init_def init_annotations_def)
  have l: "fold_res (init_limit (\<lambda>q. Inr (q, 1))) [(''cpu'', []), (''memory'', [])] [] = Inr []" by (simp add: init_limit_def)
  show ?thesis unfolding init_daemonset_def o example_init_ports sum.case prod.case l c(1) pod' using v by simp
qed


section \<open>Parsed deployments\<close>



definition example_daemonset :: DaemonSet where
  "example_daemonset = \<lparr>ds_Name = ''web'', ds_Namespace = [], ds_MatchLabels = [], ds_TemplateLabels = [],
     ds_TemplateAnnotations = [], ds_TemplateMetaOther = [],
     ds_TemplateSpec = init_spec example_init [\<lparr>ctr_Name = ''web'', ctr_Image = ''web:v1'', ctr_ImagePullPolicy = ''Always'',
       ctr_Env = [], ctr_Ports = [], ctr_Limits = [], ctr_ReadinessProbe = None, ctr_VolumeMounts = [], ctr_Other = []\<rparr>]\<rparr>"

definition example_deployment_ops :: deployment_ops where
  "example_deployment_ops = \<lparr>mo_yaml = (\<lambda>b. [Inr (YNode DocumentNode [] [] [YNode MappingNode ''!!map'' [] []], [])]),
     mo_toJSON = (\<lambda>b. Inr JNull), mo_pod = (\<lambda>j. Inl (errors_New ''not a Pod'')),
     mo_encodePod = (\<lambda>p. Inr ''pod''), mo_newTag = example_tag,
     mo_service = (\<lambda>j. Inl (errors_New ''not a Service'')), mo_marshalService = (\<lambda>c. Inl (errors_New ''marshal'')),
     mo_documents = (\<lambda>b. [Inr b]), mo_typeMeta = (\<lambda>b. Inr (''apps/v1'', ''DaemonSet'')),
     mo_gvk = (\<lambda>v k. (''apps'', ''v1'', k)), mo_daemonSet = (\<lambda>j. Inr ([], example_daemonset)),
     mo_encodeDaemonSet = (\<lambda>d. Inl (errors_New ''encode'')), mo_quantity = (\<lambda>q. Inr (q, 1))\<rparr>"

lemma example_ParseDeployment:
  "ParseDeployment example_deployment_ops ''yaml'' [] [] ''web'' ''workers'' =
     Inr \<lparr>dep_Pod = ''pod'', dep_ServiceYAML = [], dep_Service = None\<rparr>"
proof -
  have ops: "mo_yaml example_deployment_ops = (\<lambda>b. [Inr (YNode DocumentNode [] [] [YNode MappingNode ''!!map'' [] []], [])])"
    "mo_toJSON example_deployment_ops = (\<lambda>b. Inr JNull)" "mo_documents example_deployment_ops = (\<lambda>b. [Inr b])"
    "mo_typeMeta example_deployment_ops = (\<lambda>b. Inr (''apps/v1'', ''DaemonSet''))"
    "mo_gvk example_deployment_ops = (\<lambda>v k. (''apps'', ''v1'', k))"
    "mo_daemonSet example_deployment_ops = (\<lambda>j. Inr ([], example_daemonset))"
    "mo_newTag example_deployment_ops = example_tag" "mo_encodePod example_deployment_ops = (\<lambda>p. Inr ''pod'')"
    by (simp_all add: example_deployment_ops_def)
  have "validateYAML (\<lambda>b. [Inr (YNode DocumentNode [] [] [YNode MappingNode ''!!map'' [] []], [])]) ''yaml'' = None"
    by (simp add: validateYAML_def check_document_def yaml_keys_def)
  moreover have "rejectSchedulingFields (\<lambda>b. Inr JNull) ''yaml'' = None"
    by (simp add: rejectSchedulingFields_def scheduling_keys_def struct_member_def map_keys_def)
  moreover have "length (TrimSpace ''yaml'') \<noteq> 0" by code_simp
  ultimately have stream: "fold_res (stream_document example_deployment_ops) (mo_documents example_deployment_ops ''yaml'') (None, None)
      = Inr (Some example_daemonset, None)"
    by (simp add: ops stream_document_def decodeStrict_def)
  have v: "ValidID ''web''" "ValidID ''workers''" "ValidNamespace ''default''" by code_simp+
  have pod: "daemonset_pod example_daemonset ''web'' ''workers'' = Inr (template_pod example_daemonset ''web'' ''default'')"
    using v by (simp add: daemonset_pod_def example_daemonset_def init_spec_def example_init_def Let_def)
  obtain pod' where "transformPod example_tag (template_pod example_daemonset ''web'' ''default'') [] [] = Inr pod'"
    using example_init_transform[of "hd (spec_Containers (ds_TemplateSpec example_daemonset))"
        "template_pod example_daemonset ''web'' ''default''"]
    by (auto simp: template_pod_def example_daemonset_def init_spec_def)
  with stream pod show ?thesis by (simp add: ParseDeployment_def build_deployment_def ops attach_service_def)
qed


end
