(* ===== verification/Cloud_Store.thy ===== *)
theory Cloud_Store
  imports Versioned_Storage
begin

text \<open>
  The object store that the components share, \<open>src/internal/cloud\<close>: the interface and its
  error values. Before the call with number \<open>n\<close> takes effect, \<open>cl_other n\<close> has changed the
  objects, and \<open>cl_fault n\<close> is the error that this call returns when it fails for a reason
  outside the protocol, with a flag that says whether a failing write was performed
  nevertheless. The state of the store is the history of every object, the newest body first.
\<close>

section \<open>The store\<close>

type_synonym objects = "string \<Rightarrow> string list"

record cloud_store =
  cl_tag :: "nat \<Rightarrow> string \<Rightarrow> string"
  cl_other :: "nat \<Rightarrow> objects \<Rightarrow> objects"
  cl_fault :: "nat \<Rightarrow> (error \<times> bool) option"

record store_state =
  st_objects :: objects
  st_calls :: nat

definition cloud_ErrNotFound :: error where
  "cloud_ErrNotFound = Joined [Sentinel ''file does not exist'', ErrStorageNotFound]"

definition cloud_ErrPrecondition :: error where
  "cloud_ErrPrecondition = ErrStoragePrecondition"

definition cloud_Get :: "cloud_store \<Rightarrow> string \<Rightarrow> store_state \<Rightarrow> (error + string \<times> string) \<times> store_state" where
  "cloud_Get cl key st =
     (let objects = cl_other cl (st_calls st) (st_objects st)
      in (case cl_fault cl (st_calls st) of
            Some (e, _) \<Rightarrow> Inl e
          | None \<Rightarrow> storage_Get cloud_ErrNotFound (cl_tag cl) (objects key),
          \<lparr>st_objects = objects, st_calls = Suc (st_calls st)\<rparr>))"

definition cloud_PutIfMatch ::
  "cloud_store \<Rightarrow> string \<Rightarrow> string \<Rightarrow> string \<Rightarrow> store_state \<Rightarrow> error option \<times> store_state" where
  "cloud_PutIfMatch cl key body etag st =
     (let objects = cl_other cl (st_calls st) (st_objects st);
          (e, history) = storage_PutIfMatch cloud_ErrPrecondition (cl_tag cl) body etag (objects key)
      in case cl_fault cl (st_calls st) of
           None \<Rightarrow> (e, \<lparr>st_objects = objects(key := history), st_calls = Suc (st_calls st)\<rparr>)
         | Some (fault, written) \<Rightarrow>
             (Some fault, \<lparr>st_objects = (if written then objects(key := history) else objects),
                           st_calls = Suc (st_calls st)\<rparr>))"

section \<open>The laws of the store\<close>

text \<open>
  Tags identify bodies, other processes only add versions, and the error of a failed
  condition is returned for no other reason.
\<close>

definition cloud_laws :: "cloud_store \<Rightarrow> bool" where
  "cloud_laws cl \<longleftrightarrow> tag_laws (cl_tag cl) \<and> (\<forall>n objects key. suffix (objects key) (cl_other cl n objects key)) \<and>
     (\<forall>n e written. cl_fault cl n = Some (e, written) \<longrightarrow> \<not> errors_Is e cloud_ErrPrecondition)"

lemma cloud_Get_state: "cloud_Get cl key st = (r, st') \<Longrightarrow>
    st' = \<lparr>st_objects = cl_other cl (st_calls st) (st_objects st), st_calls = Suc (st_calls st)\<rparr>"
  by (auto simp: cloud_Get_def Let_def)

lemma cloud_Put_history:
  assumes "cloud_PutIfMatch cl key body etag st = (e, st')"
  shows "st_objects st' k = cl_other cl (st_calls st) (st_objects st) k \<or>
    k = key \<and> st_objects st' k = body # cl_other cl (st_calls st) (st_objects st) key"
    "st_calls st' = Suc (st_calls st)"
  using assms by (auto simp: cloud_PutIfMatch_def storage_PutIfMatch_def Let_def split: option.splits if_splits)

interpretation cloud: conditional_store "cloud_laws cl" "cloud_Get cl" "cloud_PutIfMatch cl" st_objects
  "\<lambda>etag h. current_tag (cl_tag cl) h = etag" for cl
proof unfold_locales
  fix key s r s' k assume "cloud_laws cl" "cloud_Get cl key s = (r, s')"
  then show "suffix (st_objects s k) (st_objects s' k)"
    by (auto simp: cloud_laws_def dest: cloud_Get_state)
next
  fix key body etag s e s' k assume "cloud_laws cl" and put: "cloud_PutIfMatch cl key body etag s = (e, s')"
  then have "suffix (st_objects s k) (cl_other cl (st_calls s) (st_objects s) k)" by (simp add: cloud_laws_def)
  with cloud_Put_history(1)[OF put, of k] show "suffix (st_objects s k) (st_objects s' k)"
    by (auto intro: suffix_ConsI)
next
  fix key s body etag s' h
  assume laws: "cloud_laws cl" and get: "cloud_Get cl key s = (Inr (body, etag), s')" and tag: "current_tag (cl_tag cl) h = etag"
  then have got: "storage_Get cloud_ErrNotFound (cl_tag cl) (cl_other cl (st_calls s) (st_objects s) key) = Inr (body, etag)"
    by (auto simp: cloud_Get_def Let_def split: option.splits)
  then have "current_tag (cl_tag cl) (cl_other cl (st_calls s) (st_objects s) key) = etag"
    by (auto simp: storage_Get_def split: list.splits)
  with laws tag got have "storage_Get cloud_ErrNotFound (cl_tag cl) h = Inr (body, etag)"
    using current_tag_Get[of "cl_tag cl" h] unfolding cloud_laws_def by metis
  then show "\<exists>older. h = body # older" by (auto simp: storage_Get_def split: list.splits)
next
  fix h assume "cloud_laws cl" "current_tag (cl_tag cl) h = []"
  then show "h = []" by (cases h) (auto simp: cloud_laws_def tag_laws_def current_tag_def)
next
  fix key body etag s s' assume "cloud_PutIfMatch cl key body etag s = (None, s')"
  then show "\<exists>h. st_objects s' key = body # h \<and> current_tag (cl_tag cl) h = etag"
    by (auto simp: cloud_PutIfMatch_def storage_PutIfMatch_def Let_def split: option.splits if_splits)
qed

definition others_keep :: "(objects \<Rightarrow> bool) \<Rightarrow> cloud_store \<Rightarrow> bool" where
  "others_keep P cl \<longleftrightarrow> (\<forall>n objects. P objects \<longrightarrow> P (cl_other cl n objects))"

lemma Get_keeps:
  "others_keep P cl \<Longrightarrow> P (st_objects st) \<Longrightarrow> cloud_Get cl key st = (r, st') \<Longrightarrow> P (st_objects st')"
  by (auto simp: others_keep_def dest: cloud_Get_state)

section \<open>A store of one process\<close>

definition quiet_store :: cloud_store where
  "quiet_store = \<lparr>cl_tag = content_tag, cl_other = (\<lambda>n objects. objects), cl_fault = (\<lambda>n. None)\<rparr>"

definition empty_store :: store_state where
  "empty_store = \<lparr>st_objects = (\<lambda>key. []), st_calls = 0\<rparr>"

lemma quiet_laws: "cloud_laws quiet_store" "others_keep P quiet_store"
  by (simp_all add: cloud_laws_def quiet_store_def content_tag_laws others_keep_def)

end
