(* ===== verification/Deploy.thy ===== *)
theory Deploy
  imports Manifest_Index Manifest_Deployment Cloud_Store
begin

text \<open>
  Publishing, removing and listing deployments, \<open>src/internal/cli/deploy\<close>: payloads are
  written under content-addressed keys, then the index is read, changed and written back
  conditionally. The store is shared with other processes.
\<close>

section \<open>The index\<close>

definition index_key :: string where
  "index_key = ''deployments/index.json''"

text \<open>One attempt: the result, or \<^term>\<open>None\<close> when another commit came first.\<close>

definition mutate_attempt ::
  "cloud_store \<Rightarrow> (Index \<Rightarrow> error + Index) \<Rightarrow> store_state \<Rightarrow> error option option \<times> store_state" where
  "mutate_attempt cl mutation st =
     (let (got, st1) = cloud_Get cl index_key st;
          etag = (case got of Inr (_, etag) \<Rightarrow> etag | Inl _ \<Rightarrow> []);
          read = (case got of
                    Inl e \<Rightarrow> if errors_Is e cloud_ErrNotFound then Inr [] else Inl e
                  | Inr (body, _) \<Rightarrow> ParseIndex body)
      in case read of
           Inl e \<Rightarrow> (Some (Some e), st1)
         | Inr index \<Rightarrow>
             (case mutation index of
                Inl e \<Rightarrow> (Some (Some e), st1)
              | Inr index' \<Rightarrow>
                  (case MarshalIndex index' of
                     Inl e \<Rightarrow> (Some (Some e), st1)
                   | Inr body \<Rightarrow>
                       (case cloud_PutIfMatch cl index_key body etag st1 of
                          (None, st2) \<Rightarrow> (Some None, st2)
                        | (Some e, st2) \<Rightarrow>
                            if errors_Is e cloud_ErrPrecondition then (None, st2) else (Some (Some e), st2)))))"

fun mutate_attempts ::
  "cloud_store \<Rightarrow> (Index \<Rightarrow> error + Index) \<Rightarrow> nat \<Rightarrow> store_state \<Rightarrow> error option \<times> store_state" where
  "mutate_attempts cl mutation 0 st = (Some (errors_New ''index changed too frequently''), st)"
| "mutate_attempts cl mutation (Suc n) st =
     (case mutate_attempt cl mutation st of
        (Some result, st') \<Rightarrow> (result, st')
      | (None, st') \<Rightarrow> mutate_attempts cl mutation n st')"

definition mutateIndex ::
  "cloud_store \<Rightarrow> (Index \<Rightarrow> error + Index) \<Rightarrow> store_state \<Rightarrow> error option \<times> store_state" where
  "mutateIndex cl mutation st = mutate_attempts cl mutation 16 st"

section \<open>Operations\<close>

definition pod_key :: "string \<Rightarrow> string \<Rightarrow> string" where
  "pod_key nodeGroup body = ''nodegroups/'' @ nodeGroup @ ''/pods/sha512/'' @ manifest_Digest body @ ''.yaml''"

definition service_key :: "manifest_Service \<Rightarrow> string \<Rightarrow> string" where
  "service_key s body =
     ''services/'' @ ms_Namespace s @ ''/'' @ ms_Name s @ ''/sha512/'' @ manifest_Digest body @ ''.yaml''"

text \<open>An immutable payload: a precondition failure means that it is there already.\<close>

definition put_payload :: "cloud_store \<Rightarrow> string \<Rightarrow> string \<Rightarrow> store_state \<Rightarrow> error option \<times> store_state" where
  "put_payload cl key body st =
     (case cloud_PutIfMatch cl key body [] st of
        (Some e, st') \<Rightarrow> (if errors_Is e cloud_ErrPrecondition then None else Some e, st')
      | (None, st') \<Rightarrow> (None, st'))"

definition Apply :: "cloud_store \<Rightarrow> string \<Rightarrow> string \<Rightarrow> Deployment \<Rightarrow> store_state \<Rightarrow> error option \<times> store_state" where
  "Apply cl nodeGroup name d st =
     (if \<not> ValidID nodeGroup \<or> \<not> ValidID name
      then (Some (errors_New ''invalid deployment name or nodegroup ID''), st)
      else case put_payload cl (pod_key nodeGroup (dep_Pod d)) (dep_Pod d) st of
        (Some e, st1) \<Rightarrow> (Some e, st1)
      | (None, st1) \<Rightarrow>
          (case (case dep_Service d of
                   None \<Rightarrow> (None, st1)
                 | Some s \<Rightarrow> put_payload cl (service_key s (dep_ServiceYAML d)) (dep_ServiceYAML d) st1) of
             (Some e, st2) \<Rightarrow> (Some e, st2)
           | (None, st2) \<Rightarrow>
               mutateIndex cl
                 (\<lambda>index. Inr (AList.update (DeploymentKey nodeGroup name)
                    \<lparr>id_Pod = pod_key nodeGroup (dep_Pod d),
                     id_Service = (case dep_Service d of None \<Rightarrow> [] | Some s \<Rightarrow> service_key s (dep_ServiceYAML d))\<rparr> index)) st2))"

definition deploy_Delete :: "cloud_store \<Rightarrow> string \<Rightarrow> string \<Rightarrow> store_state \<Rightarrow> error option \<times> store_state" where
  "deploy_Delete cl nodeGroup name st =
     (if \<not> ValidID nodeGroup \<or> \<not> ValidID name
      then (Some (errors_New ''invalid deployment name or nodegroup ID''), st)
      else mutateIndex cl (\<lambda>index. Inr (AList.delete (DeploymentKey nodeGroup name) index)) st)"

section \<open>Listing\<close>

record Listing =
  li_Name :: string
  li_Namespace :: string
  li_NodeGroup :: string
  li_Service :: string
  li_Origin :: string

definition InstallAnnotation :: string where
  "InstallAnnotation = ''podmin.dev/install''"

definition list_entry ::
  "('x) manifest_ops_scheme \<Rightarrow> cloud_store \<Rightarrow> string \<times> IndexDeployment \<Rightarrow> Listing list \<times> store_state
     \<Rightarrow> error + Listing list \<times> store_state" where
  "list_entry ops cl = (\<lambda>(key, deployment) (listings, st).
     let (nodeGroup, name) = (case DeploymentIdentity key of Some x \<Rightarrow> x | None \<Rightarrow> ([], []));
         (got, st') = cloud_Get cl (id_Pod deployment) st
     in case got of
          Inl e \<Rightarrow> Inl (Wrapf ''read deployment %q Pod'' [key] e)
        | Inr (podBody, _) \<Rightarrow>
            (case Verify (id_Pod deployment) podBody of
               Some e \<Rightarrow> Inl (Wrapf ''verify deployment %q Pod'' [key] e)
             | None \<Rightarrow>
                 (case ParsePod ops podBody of
                    Inl e \<Rightarrow> Inl (Wrapf ''parse deployment %q Pod'' [key] e)
                  | Inr pod \<Rightarrow>
                      if mp_Name pod \<noteq> name \<or> \<not> ValidNamespace (mp_Namespace pod)
                      then Inl (Errorf ''deployment %q Pod identity does not match index'' [key])
                      else Inr (listings @
                        [\<lparr>li_Name = name, li_Namespace = mp_Namespace pod, li_NodeGroup = nodeGroup,
                          li_Service = (if id_Service deployment = [] then ''-''
                            else case ServiceIdentity (id_Service deployment) of Some (_, service, _) \<Rightarrow> service | None \<Rightarrow> []),
                          li_Origin = (if name = ''cloudflared'' \<and> mp_Namespace pod = ''platform-cloudflared''
                               \<and> map_of (mp_Annotations pod) InstallAnnotation = Some ''cloudflared''
                             then ''install/cloudflared'' else ''workload'')\<rparr>], st'))))"

definition listing_less :: "Listing \<Rightarrow> Listing \<Rightarrow> bool" where
  "listing_less a b =
     (if li_NodeGroup a \<noteq> li_NodeGroup b then li_NodeGroup a < li_NodeGroup b else li_Name a < li_Name b)"

text \<open>
  The iteration order of a map is unspecified; \<open>order\<close> is the permutation of the entries
  that the loop visits.
\<close>

definition deploy_List ::
  "('x) manifest_ops_scheme \<Rightarrow> cloud_store \<Rightarrow> (Index \<Rightarrow> Index) \<Rightarrow> store_state \<Rightarrow> error + Listing list" where
  "deploy_List ops cl order st =
     (let (got, st') = cloud_Get cl index_key st
      in case got of
           Inl e \<Rightarrow> if errors_Is e cloud_ErrNotFound then Inr [] else Inl e
         | Inr (body, _) \<Rightarrow>
             (case ParseIndex body of
                Inl e \<Rightarrow> Inl e
              | Inr index \<Rightarrow>
                  (case fold_res (list_entry ops cl) (order index) ([], st') of
                     Inl e \<Rightarrow> Inl e
                   | Inr (listings, _) \<Rightarrow> Inr (sort_slice listing_less listings))))"

section \<open>Commits\<close>

lemma mutate_attempt_commit:
  assumes "cloud_laws cl" and "mutate_attempt cl mutation st = (Some None, st')"
  shows "\<exists>body before index index'. st_objects st' index_key = body # before \<and>
     (before = [] \<and> index = [] \<or> (\<exists>old older. before = old # older \<and> ParseIndex old = Inr index)) \<and>
     mutation index = Inr index' \<and> MarshalIndex index' = Inr body"
proof -
  obtain got st1 where g: "cloud_Get cl index_key st = (got, st1)" by fastforce
  obtain index index' body where
    read: "(case got of Inl e \<Rightarrow> if errors_Is e cloud_ErrNotFound then Inr [] else Inl e | Inr (body, _) \<Rightarrow> ParseIndex body) = Inr index"
    and m: "mutation index = Inr index'" "MarshalIndex index' = Inr body"
    and put: "cloud_PutIfMatch cl index_key body (cloud.read_tag got) st1 = (None, st')"
    using assms(2) unfolding mutate_attempt_def g cloud.read_tag_def
    by (auto simp: Let_def split: sum.splits option.splits prod.splits if_splits)
  from cloud.read_modify_write[OF assms(1) g put] read m show ?thesis
    by (auto split: if_splits)
qed


text \<open>Every call of an attempt keeps what is kept by the store's calls.\<close>

lemma mutate_attempt_state:
  assumes get: "\<And>st key r st'. P st \<Longrightarrow> cloud_Get cl key st = (r, st') \<Longrightarrow> P st'"
    and put: "\<And>st body etag e st'. P st \<Longrightarrow> cloud_PutIfMatch cl index_key body etag st = (e, st') \<Longrightarrow> P st'"
    and "P st" and "mutate_attempt cl mutation st = (r, st')"
  shows "P st'"
proof -
  obtain got st1 where g: "cloud_Get cl index_key st = (got, st1)" by fastforce
  have "P st1" by (rule get[OF assms(3) g])
  with assms(4) put show ?thesis unfolding mutate_attempt_def g
    by (auto simp: Let_def split: sum.splits option.splits prod.splits if_splits)
qed

lemma mutate_attempts_state:
  assumes "\<And>st key r st'. P st \<Longrightarrow> cloud_Get cl key st = (r, st') \<Longrightarrow> P st'"
    and "\<And>st body etag e st'. P st \<Longrightarrow> cloud_PutIfMatch cl index_key body etag st = (e, st') \<Longrightarrow> P st'"
    and "P st" and "mutate_attempts cl mutation n st = (r, st')"
  shows "P st'"
  using assms(3,4)
proof (induction n arbitrary: st)
  case (Suc n)
  obtain a st1 where a: "mutate_attempt cl mutation st = (a, st1)" by fastforce
  have "P st1" by (rule mutate_attempt_state[where P = P, OF assms(1,2) Suc.prems(1) a])
  with Suc a show ?case by (cases a) auto
qed simp

lemma mutate_attempts_commit:
  assumes "cloud_laws cl" and "mutate_attempts cl mutation n st = (None, st')"
  shows "\<exists>body before index index'. st_objects st' index_key = body # before \<and>
     (before = [] \<and> index = [] \<or> (\<exists>old older. before = old # older \<and> ParseIndex old = Inr index)) \<and>
     mutation index = Inr index' \<and> MarshalIndex index' = Inr body"
  using assms(2)
proof (induction n arbitrary: st)
  case (Suc n)
  show ?case
  proof (cases "mutate_attempt cl mutation st")
    case (Pair a st1)
    show ?thesis
    proof (cases a)
      case None
      with Suc Pair show ?thesis by simp
    next
      case (Some r)
      with Suc.prems Pair have "mutate_attempt cl mutation st = (Some None, st')" by simp
      then show ?thesis by (rule mutate_attempt_commit[OF assms(1)])
    qed
  qed
qed simp

section \<open>What is committed\<close>

lemma MarshalIndex_Inr:
  assumes "distinct (map fst index)" and "list_all valid_entry index" and "MarshalIndex index = Inr body"
  shows "valid_index index" "ParseIndex body = Inr (sorted_index index)"
proof -
  obtain i where i: "ParseIndex (json_text (index_json index)) = Inr i" and b: "body = json_text (index_json index) @ [CHR 0x0A]"
    using assms(3) by (auto simp: MarshalIndex_def Let_def split: sum.splits)
  have "parse_json (json_text (index_json index)) = Some (index_json index)"
    using parse_json_text[OF index_json_plain[OF assms(2)], of "[]"] by simp
  with i decode_index_json[OF assms(1)] have "\<exists>s. fold_res check_entry (sorted_index index) {} = Inr s"
    by (auto simp: ParseIndex_def split: option.splits sum.splits)
  then have "distinct (map service_identity (filter (\<lambda>(_, d). id_Service d \<noteq> []) (sorted_index index)))"
    unfolding check_entries by simp
  moreover have "mset (map service_identity (filter P (sorted_index index))) = mset (map service_identity (filter P index))" for P
    by simp
  ultimately have "distinct (map service_identity (filter (\<lambda>(_, d). id_Service d \<noteq> []) index))"
    by (metis mset_eq_imp_distinct_iff)
  with assms show v: "valid_index index" by (simp add: valid_index_def)
  show "ParseIndex body = Inr (sorted_index index)"
    unfolding b by (rule ParseIndex_text[OF v]) (simp add: skip_space_def json_space_def)
qed

lemma map_of_sorted_index: "distinct (map fst index) \<Longrightarrow> map_of (sorted_index index) = map_of index"
  by (rule map_of_inject_set[THEN iffD2]) simp_all

lemma objectDigest_key:
  assumes "CHR ''/'' \<notin> set digest" and "digest = manifest_Digest body"
  shows "objectDigest (directory @ ''/'' @ digest @ ''.yaml'') = (digest, True)"
proof -
  have "CHR ''/'' \<notin> set (digest @ ''.yaml'')" using assms(1) by simp
  then have "nat (LastIndex (directory @ ''/'' @ digest @ ''.yaml'') CHR ''/'' + 1) = Suc (length directory)"
    using LastIndex_append[of "CHR ''/''" "digest @ ''.yaml''" directory] by simp
  then show ?thesis
    by (simp add: objectDigest_def Let_def assms(2) manifest_Digest_def)
qed

lemma digest_no_slash [simp]: "CHR ''/'' \<notin> set (manifest_Digest body)"
  by (simp add: manifest_Digest_def)

lemma pod_key_facts:
  assumes "ValidID g"
  shows "objectDigest (pod_key g body) = (manifest_Digest body, True)" "podObject (pod_key g body) g"
    "Verify (pod_key g body) body = None"
proof -
  show d: "objectDigest (pod_key g body) = (manifest_Digest body, True)"
    using objectDigest_key[of "manifest_Digest body" body "''nodegroups/'' @ g @ ''/pods/sha512''"] by (simp add: pod_key_def)
  have "Split (pod_key g body) CHR ''/'' = [''nodegroups'', g, ''pods'', ''sha512'', manifest_Digest body @ ''.yaml'']"
    using ValidID_no_sep(2)[OF assms] Split_append_sep[of "CHR ''/''" "''nodegroups''" "g @ ''/pods/sha512/'' @ manifest_Digest body @ ''.yaml''"]
      Split_append_sep[of "CHR ''/''" g "''pods/sha512/'' @ manifest_Digest body @ ''.yaml''"]
      Split_append_sep[of "CHR ''/''" "''pods''" "''sha512/'' @ manifest_Digest body @ ''.yaml''"]
      Split_append_sep[of "CHR ''/''" "''sha512''" "manifest_Digest body @ ''.yaml''"]
    by (simp add: pod_key_def)
  with d show "podObject (pod_key g body) g" by (simp add: podObject_def)
  show "Verify (pod_key g body) body = None" by (simp add: Verify_def d)
qed

lemma service_key_facts:
  assumes "ValidID (ms_Name s)" "ValidNamespace (ms_Namespace s)"
  shows "objectDigest (service_key s body) = (manifest_Digest body, True)"
    "ServiceIdentity (service_key s body) = Some (ms_Namespace s, ms_Name s, ms_Namespace s @ ''/'' @ ms_Name s)"
    "Verify (service_key s body) body = None" "service_key s body \<noteq> []"
proof -
  show d: "objectDigest (service_key s body) = (manifest_Digest body, True)"
    using objectDigest_key[of "manifest_Digest body" body "''services/'' @ ms_Namespace s @ ''/'' @ ms_Name s @ ''/sha512''"]
    by (simp add: service_key_def)
  have "Split (service_key s body) CHR ''/'' =
      [''services'', ms_Namespace s, ms_Name s, ''sha512'', manifest_Digest body @ ''.yaml'']"
    using ValidID_no_sep(2)[OF assms(1)] ValidNamespace_no_sep(2)[OF assms(2)]
      Split_append_sep[of "CHR ''/''" "''services''" "ms_Namespace s @ ''/'' @ ms_Name s @ ''/sha512/'' @ manifest_Digest body @ ''.yaml''"]
      Split_append_sep[of "CHR ''/''" "ms_Namespace s" "ms_Name s @ ''/sha512/'' @ manifest_Digest body @ ''.yaml''"]
      Split_append_sep[of "CHR ''/''" "ms_Name s" "''sha512/'' @ manifest_Digest body @ ''.yaml''"]
      Split_append_sep[of "CHR ''/''" "''sha512''" "manifest_Digest body @ ''.yaml''"]
    by (simp add: service_key_def)
  with d assms show "ServiceIdentity (service_key s body) = Some (ms_Namespace s, ms_Name s, ms_Namespace s @ ''/'' @ ms_Name s)"
    by (simp add: ServiceIdentity_def)
  show "Verify (service_key s body) body = None" by (simp add: Verify_def d)
  show "service_key s body \<noteq> []" by (simp add: service_key_def)
qed


lemma committed_index_valid:
  assumes "before = [] \<and> index = [] \<or> (\<exists>old older. before = old # older \<and> ParseIndex old = Inr index)"
  shows "valid_index index"
  using assms by (auto dest: ParseIndex_valid simp: valid_index_def)

lemma update_valid_entries:
  assumes "valid_index index" and "valid_entry (key, d)"
  shows "distinct (map fst (AList.update key d index))" "list_all valid_entry (AList.update key d index)"
proof -
  show "distinct (map fst (AList.update key d index))" using assms(1) by (simp add: valid_index_def distinct_update)
  have "set (AList.update key d index) \<subseteq> insert (key, d) (set index)"
    by (induction index) auto
  with assms show "list_all valid_entry (AList.update key d index)" by (auto simp: valid_index_def list_all_iff)
qed

lemma delete_valid_index:
  assumes "valid_index index"
  shows "valid_index (AList.delete key index)"
proof -
  have "AList.delete key index = filter (\<lambda>x. fst x \<noteq> key) index" by (auto simp: AList.delete_eq case_prod_unfold intro!: filter_cong)
  moreover have "filter P (filter Q index) = filter Q (filter P index)" for P Q :: "string \<times> IndexDeployment \<Rightarrow> bool"
    by (simp add: conj_commute)
  ultimately show ?thesis using assms unfolding valid_index_def
    by (auto simp: list_all_iff distinct_map_filter simp del: filter_filter)
qed


section \<open>Payloads\<close>

text \<open>What is stored under a content-addressed key has the digest in the key.\<close>

definition payloads_verified :: "objects \<Rightarrow> bool" where
  "payloads_verified objects \<longleftrightarrow>
     (\<forall>key. snd (objectDigest key) \<longrightarrow> (\<forall>body \<in> set (objects key). Verify key body = None))"

definition payload_stored :: "objects \<Rightarrow> string \<Rightarrow> bool" where
  "payload_stored objects key \<longleftrightarrow> objects key \<noteq> [] \<and> list_all (\<lambda>body. Verify key body = None) (objects key)"

lemma Put_verified:
  assumes "others_keep payloads_verified cl" and "payloads_verified (st_objects st)"
    and "cloud_PutIfMatch cl key body etag st = (e, st')" and "snd (objectDigest key) \<Longrightarrow> Verify key body = None"
  shows "payloads_verified (st_objects st')"
proof -
  have "payloads_verified (cl_other cl (st_calls st) (st_objects st))" using assms(1,2) by (simp add: others_keep_def)
  with cloud_Put_history(1)[OF assms(3)] assms(4) show ?thesis
    unfolding payloads_verified_def by (metis set_ConsD)
qed

lemma index_no_digest: "\<not> snd (objectDigest index_key)"
proof -
  have "\<not> HasSuffix (drop (nat (LastIndex index_key CHR ''/'' + 1)) index_key) ''.yaml''" by code_simp
  then show ?thesis by (simp add: objectDigest_def Let_def)
qed

lemma put_payload_stored:
  assumes "cloud_laws cl" and "put_payload cl key body st = (None, st')"
  shows "st_objects st' key \<noteq> []"
proof -
  obtain e where e: "cloud_PutIfMatch cl key body [] st = (e, st')" "\<And>x. e = Some x \<Longrightarrow> errors_Is x cloud_ErrPrecondition"
    using assms(2) by (auto simp: put_payload_def split: prod.splits option.splits if_splits)
  have "cl_fault cl (st_calls st) = None"
  proof (rule ccontr)
    assume "cl_fault cl (st_calls st) \<noteq> None"
    then obtain x written where f: "cl_fault cl (st_calls st) = Some (x, written)" by fastforce
    with e(1) have "e = Some x" by (auto simp: cloud_PutIfMatch_def Let_def split: prod.splits)
    with e(2) f assms(1) show False unfolding cloud_laws_def by blast
  qed
  with e(1) show ?thesis
    by (auto simp: cloud_PutIfMatch_def storage_PutIfMatch_def current_tag_def Let_def split: if_splits list.splits)
qed

lemma put_payload_verified:
  assumes "others_keep payloads_verified cl" and "payloads_verified (st_objects st)"
    and "put_payload cl key body st = (e, st')" and "Verify key body = None"
  shows "payloads_verified (st_objects st')"
proof -
  obtain e' where "cloud_PutIfMatch cl key body [] st = (e', st')"
    using assms(3) by (auto simp: put_payload_def split: prod.splits option.splits)
  from Put_verified[OF assms(1,2) this] assms(4) show ?thesis by simp
qed

lemma put_payload_extends:
  assumes "cloud_laws cl" and "put_payload cl key body st = (e, st')" and "st_objects st k \<noteq> []"
  shows "st_objects st' k \<noteq> []"
proof -
  obtain e' where "cloud_PutIfMatch cl key body [] st = (e', st')"
    using assms(2) by (auto simp: put_payload_def split: prod.splits option.splits)
  from cloud.put_extends[OF assms(1) this, of k] assms(3) show ?thesis by (auto simp: suffix_def)
qed

lemma mutateIndex_keeps:
  assumes "cloud_laws cl" and "others_keep payloads_verified cl" and "mutateIndex cl mutation st = (e, st')"
  shows "payloads_verified (st_objects st) \<Longrightarrow> payloads_verified (st_objects st')"
    and "st_objects st k \<noteq> [] \<Longrightarrow> st_objects st' k \<noteq> []"
proof -
  note m = assms(3)[unfolded mutateIndex_def]
  show "payloads_verified (st_objects st')" if "payloads_verified (st_objects st)"
    by (rule mutate_attempts_state[where P = "\<lambda>st. payloads_verified (st_objects st)", OF _ _ that m])
      (use Get_keeps[OF assms(2)] Put_verified[OF assms(2)] index_no_digest in blast)+
  show "st_objects st' k \<noteq> []" if "st_objects st k \<noteq> []"
    by (rule mutate_attempts_state[where P = "\<lambda>st. st_objects st k \<noteq> []", OF _ _ that m])
      (use cloud.get_extends[OF assms(1)] cloud.put_extends[OF assms(1)] in \<open>metis suffix_bot.extremum_uniqueI\<close>)+
qed

definition applied_entry :: "string \<Rightarrow> Deployment \<Rightarrow> IndexDeployment" where
  "applied_entry nodeGroup d = \<lparr>id_Pod = pod_key nodeGroup (dep_Pod d),
     id_Service = (case dep_Service d of None \<Rightarrow> [] | Some s \<Rightarrow> service_key s (dep_ServiceYAML d))\<rparr>"

definition valid_names :: "Deployment \<Rightarrow> bool" where
  "valid_names d \<longleftrightarrow> (case dep_Service d of None \<Rightarrow> True | Some s \<Rightarrow> ValidID (ms_Name s) \<and> ValidNamespace (ms_Namespace s))"

lemma applied_entry_valid:
  assumes "ValidID g" "ValidID n" "valid_names d"
  shows "valid_entry (DeploymentKey g n, applied_entry g d)"
  using assms pod_key_facts(2)[of g] service_key_facts(2)
  by (auto simp: valid_entry_def applied_entry_def valid_names_def DeploymentKey_identity split: option.splits)

text \<open>The states of a successful \<open>Apply\<close>: both payloads are written, then the index changes.\<close>

lemma Apply_steps:
  assumes "Apply cl g n d st = (None, st')"
  obtains st1 st2 where "ValidID g" "ValidID n"
    "put_payload cl (pod_key g (dep_Pod d)) (dep_Pod d) st = (None, st1)"
    "case dep_Service d of None \<Rightarrow> st2 = st1
       | Some s \<Rightarrow> put_payload cl (service_key s (dep_ServiceYAML d)) (dep_ServiceYAML d) st1 = (None, st2)"
    "mutateIndex cl (\<lambda>index. Inr (AList.update (DeploymentKey g n) (applied_entry g d) index)) st2 = (None, st')"
  using assms unfolding Apply_def applied_entry_def[symmetric]
  by (auto split: if_splits prod.splits option.splits)


lemma Apply_commit:
  assumes "cloud_laws cl" and "others_keep payloads_verified cl" and "payloads_verified (st_objects st)"
    and "valid_names d" and "Apply cl g n d st = (None, st')"
  shows "\<exists>body before index index'. st_objects st' index_key = body # before \<and>
     (before = [] \<and> index = [] \<or> (\<exists>old older. before = old # older \<and> ParseIndex old = Inr index)) \<and>
     ParseIndex body = Inr index' \<and>
     map_of index' = (map_of index)(DeploymentKey g n \<mapsto> applied_entry g d) \<and>
     payload_stored (st_objects st') (pod_key g (dep_Pod d)) \<and>
     (case dep_Service d of None \<Rightarrow> True
        | Some s \<Rightarrow> payload_stored (st_objects st') (service_key s (dep_ServiceYAML d)))"
proof -
  obtain st1 st2 where v: "ValidID g" "ValidID n"
    and p: "put_payload cl (pod_key g (dep_Pod d)) (dep_Pod d) st = (None, st1)"
    and s: "case dep_Service d of None \<Rightarrow> st2 = st1
       | Some s \<Rightarrow> put_payload cl (service_key s (dep_ServiceYAML d)) (dep_ServiceYAML d) st1 = (None, st2)"
    and m: "mutateIndex cl (\<lambda>index. Inr (AList.update (DeploymentKey g n) (applied_entry g d) index)) st2 = (None, st')"
    by (rule Apply_steps[OF assms(5)])
  note service = service_key_facts[of _ "dep_ServiceYAML d"]
  have names: "ValidID (ms_Name x)" "ValidNamespace (ms_Namespace x)" if "dep_Service d = Some x" for x
    using assms(4) that by (simp_all add: valid_names_def)
  have "payloads_verified (st_objects st1)"
    by (rule put_payload_verified[OF assms(2,3) p pod_key_facts(3)[OF v(1)]])
  then have "payloads_verified (st_objects st2)"
    using s service(3) names put_payload_verified[OF assms(2)] by (auto split: option.splits)
  then have verified: "payloads_verified (st_objects st')" by (rule mutateIndex_keeps(1)[OF assms(1,2) m])
  have "st_objects st1 (pod_key g (dep_Pod d)) \<noteq> []" by (rule put_payload_stored[OF assms(1) p])
  then have "st_objects st2 (pod_key g (dep_Pod d)) \<noteq> []"
    using s put_payload_extends[OF assms(1)] by (auto split: option.splits)
  with verified pod_key_facts(1)[OF v(1)] have pod: "payload_stored (st_objects st') (pod_key g (dep_Pod d))"
    using mutateIndex_keeps(2)[OF assms(1,2) m] by (simp add: payload_stored_def payloads_verified_def list_all_iff)
  have svc: "payload_stored (st_objects st') (service_key x (dep_ServiceYAML d))" if "dep_Service d = Some x" for x
  proof -
    have "st_objects st2 (service_key x (dep_ServiceYAML d)) \<noteq> []"
      using s that put_payload_stored[OF assms(1)] by simp
    with verified service(1)[of x] names[OF that] show ?thesis
      using mutateIndex_keeps(2)[OF assms(1,2) m] by (simp add: payload_stored_def payloads_verified_def list_all_iff)
  qed
  obtain body before index where c: "st_objects st' index_key = body # before"
    "before = [] \<and> index = [] \<or> (\<exists>old older. before = old # older \<and> ParseIndex old = Inr index)"
    "MarshalIndex (AList.update (DeploymentKey g n) (applied_entry g d) index) = Inr body"
    using mutate_attempts_commit[OF assms(1) m[unfolded mutateIndex_def]] by auto
  note entries = update_valid_entries[OF committed_index_valid[OF c(2)] applied_entry_valid[OF v assms(4)]]
  have "ParseIndex body = Inr (sorted_index (AList.update (DeploymentKey g n) (applied_entry g d) index))"
    by (rule MarshalIndex_Inr(2)[OF entries c(3)])
  moreover have "map_of (sorted_index (AList.update (DeploymentKey g n) (applied_entry g d) index))
      = (map_of index)(DeploymentKey g n \<mapsto> applied_entry g d)"
    by (simp add: map_of_sorted_index[OF entries(1)] update_conv')
  ultimately show ?thesis using c(1,2) pod svc by (auto split: option.splits)
qed


text \<open>
  C25: when \<open>Apply\<close> returns without an error, the newest index is the index it replaced, also
  when other processes committed in between, with the entry of this deployment set and every
  other entry unchanged; no competing commit is lost. The Pod and the Service that the new
  entry refers to are in storage, under keys that carry their digests.
\<close>

theorem apply_commits:
  assumes "cloud_laws cl" and "others_keep payloads_verified cl" and "payloads_verified (st_objects st)"
    and "valid_names d" and "Apply cl g n d st = (None, st')"
  shows "\<exists>body before index index'. st_objects st' index_key = body # before \<and>
     (before = [] \<and> index = [] \<or> (\<exists>old older. before = old # older \<and> ParseIndex old = Inr index)) \<and>
     ParseIndex body = Inr index' \<and>
     map_of index' = (map_of index)(DeploymentKey g n \<mapsto> applied_entry g d) \<and>
     payload_stored (st_objects st') (pod_key g (dep_Pod d)) \<and>
     (case dep_Service d of None \<Rightarrow> True
        | Some s \<Rightarrow> payload_stored (st_objects st') (service_key s (dep_ServiceYAML d)))"
  by (rule Apply_commit[OF assms])

section \<open>Progress\<close>

text \<open>The index, whenever it exists, can be read.\<close>

definition index_readable :: "objects \<Rightarrow> bool" where
  "index_readable objects \<longleftrightarrow> (case objects index_key of [] \<Rightarrow> True | body # _ \<Rightarrow> (\<exists>index. ParseIndex body = Inr index))"

lemma mutate_attempt_progress:
  assumes laws: "cloud_laws cl" and faults: "cl_fault cl (st_calls st) = None" "cl_fault cl (Suc (st_calls st)) = None"
    and keep: "others_keep index_readable cl" and readable: "index_readable (st_objects st)"
    and total: "\<And>index. valid_index index \<Longrightarrow> \<exists>index'. mutation index = Inr index' \<and> valid_index index'"
    and attempt: "mutate_attempt cl mutation st = (r, st')"
  shows "r = Some None \<or> (r = None \<and> index_readable (st_objects st') \<and> st_calls st' = st_calls st + 2)"
    and "(\<And>objects. cl_other cl (Suc (st_calls st)) objects index_key = objects index_key) \<Longrightarrow> r = Some None"
proof -
  let ?o1 = "cl_other cl (st_calls st) (st_objects st)"
  let ?o2 = "cl_other cl (Suc (st_calls st)) ?o1"
  have r1: "index_readable ?o1" using keep readable by (simp add: others_keep_def)
  then have r2: "index_readable ?o2" using keep by (simp add: others_keep_def)
  have get: "cloud_Get cl index_key st = (storage_Get cloud_ErrNotFound (cl_tag cl) (?o1 index_key),
      \<lparr>st_objects = ?o1, st_calls = Suc (st_calls st)\<rparr>)" using faults(1) by (simp add: cloud_Get_def Let_def)
  define index where "index = (case ?o1 index_key of [] \<Rightarrow> [] | body # _ \<Rightarrow> projr (ParseIndex body))"
  define etag where "etag = current_tag (cl_tag cl) (?o1 index_key)"
  have read: "(case storage_Get cloud_ErrNotFound (cl_tag cl) (?o1 index_key) of
      Inl e \<Rightarrow> if errors_Is e cloud_ErrNotFound then Inr [] else Inl e | Inr (body, _) \<Rightarrow> ParseIndex body) = Inr index"
    "(case storage_Get cloud_ErrNotFound (cl_tag cl) (?o1 index_key) of Inr (_, etag) \<Rightarrow> etag | Inl _ \<Rightarrow> []) = etag"
    using r1 by (auto simp: storage_Get_def index_def etag_def index_readable_def current_tag_def split: list.splits)
  have "valid_index index"
    using r1 by (auto simp: index_def index_readable_def valid_index_def split: list.splits dest: ParseIndex_valid[unfolded valid_index_def])
  then obtain index' where i': "mutation index = Inr index'" "valid_index index'" using total by blast
  obtain body where body: "MarshalIndex index' = Inr body" using MarshalIndex_valid[OF i'(2)] by blast
  have put: "cloud_PutIfMatch cl index_key body etag \<lparr>st_objects = ?o1, st_calls = Suc (st_calls st)\<rparr> =
     (if current_tag (cl_tag cl) (?o2 index_key) = etag
      then (None, \<lparr>st_objects = ?o2(index_key := body # ?o2 index_key), st_calls = Suc (Suc (st_calls st))\<rparr>)
      else (Some cloud_ErrPrecondition, \<lparr>st_objects = ?o2, st_calls = Suc (Suc (st_calls st))\<rparr>))"
    using faults(2) by (simp add: cloud_PutIfMatch_def storage_PutIfMatch_def Let_def)
  have result: "mutate_attempt cl mutation st =
     (if current_tag (cl_tag cl) (?o2 index_key) = etag
      then (Some None, \<lparr>st_objects = ?o2(index_key := body # ?o2 index_key), st_calls = Suc (Suc (st_calls st))\<rparr>)
      else (None, \<lparr>st_objects = ?o2, st_calls = Suc (Suc (st_calls st))\<rparr>))"
    unfolding mutate_attempt_def get prod.case Let_def read sum.case i'(1) body put by simp
  show "r = Some None \<or> (r = None \<and> index_readable (st_objects st') \<and> st_calls st' = st_calls st + 2)"
    using attempt r2 by (auto simp: result split: if_splits)
  show "r = Some None" if "\<And>objects. cl_other cl (Suc (st_calls st)) objects index_key = objects index_key"
    using attempt that by (auto simp: result etag_def split: if_splits)
qed

lemma mutate_attempts_progress:
  assumes "cloud_laws cl" and "\<And>n. cl_fault cl n = None" and "others_keep index_readable cl"
    and "\<And>index. valid_index index \<Longrightarrow> \<exists>index'. mutation index = Inr index' \<and> valid_index index'"
    and "index_readable (st_objects st)" and "j < k"
    and "\<And>objects. cl_other cl (st_calls st + 2 * j + 1) objects index_key = objects index_key"
  shows "fst (mutate_attempts cl mutation k st) = None"
  using assms(5-)
proof (induction k arbitrary: j st)
  case (Suc k)
  obtain r st1 where a: "mutate_attempt cl mutation st = (r, st1)" by fastforce
  note progress = mutate_attempt_progress[OF assms(1,2,2,3) Suc.prems(1) assms(4) a]
  show ?case
  proof (cases "r = Some None")
    case False
    with progress(1) have r: "r = None" "index_readable (st_objects st1)" "st_calls st1 = st_calls st + 2" by auto
    have "j \<noteq> 0" using False progress(2) Suc.prems(3) by (metis Suc_eq_plus1 add.right_neutral mult_0_right)
    then obtain j' where j: "j = Suc j'" using not0_implies_Suc by blast
    then have "fst (mutate_attempts cl mutation k st1) = None"
      using Suc.prems(2,3) r by (intro Suc.IH[of st1 j']) (simp_all add: algebra_simps)
    with r a show ?thesis by simp
  qed (use a in simp)
qed simp

text \<open>
  C26: \<open>Delete\<close> succeeds when storage is reachable and other processes leave the index
  readable, unless another process commits to the index between the read and the write of
  each of the sixteen attempts.
\<close>

theorem delete_progress:
  assumes "cloud_laws cl" and "\<And>m. cl_fault cl m = None" and "others_keep index_readable cl"
    and "index_readable (st_objects st)" and "ValidID g" and "ValidID n" and "attempt < 16"
    and "\<And>objects. cl_other cl (st_calls st + 2 * attempt + 1) objects index_key = objects index_key"
  shows "fst (deploy_Delete cl g n st) = None"
proof -
  have "\<exists>index'. Inr (AList.delete (DeploymentKey g n) index) = Inr index' \<and> valid_index index'" if "valid_index index" for index
    using delete_valid_index[OF that] by simp
  from mutate_attempts_progress[OF assms(1-3) this assms(4,7,8)] assms(5,6) show ?thesis
    by (simp add: deploy_Delete_def mutateIndex_def)
qed


section \<open>A store of its own\<close>

definition example_deployment :: Deployment where
  "example_deployment = \<lparr>dep_Pod = ''pod'', dep_ServiceYAML = [], dep_Service = None\<rparr>"

lemma example_entry_valid: "valid_entry (DeploymentKey ''workers'' ''web'', applied_entry ''workers'' example_deployment)"
proof (rule applied_entry_valid)
  show "ValidID ''workers''" "ValidID ''web''" by code_simp+
qed (simp add: valid_names_def example_deployment_def)

lemma example_index_valid: "valid_index [(DeploymentKey ''workers'' ''web'', applied_entry ''workers'' example_deployment)]"
  using example_entry_valid by (simp add: valid_index_def)

lemma quiet_Apply: "\<exists>st'. Apply quiet_store ''workers'' ''web'' example_deployment empty_store = (None, st')"
proof -
  let ?key = "pod_key ''workers'' ''pod''" and ?index = "[(DeploymentKey ''workers'' ''web'', applied_entry ''workers'' example_deployment)]"
  have v: "ValidID ''workers''" "ValidID ''web''" by code_simp+
  have "HasPrefix ?key ''nodegroups/''" "\<not> HasPrefix index_key ''nodegroups/''"
    by (simp_all add: pod_key_def index_key_def HasPrefix_def)
  then have k: "?key \<noteq> index_key" by metis
  let ?st = "\<lparr>st_objects = (\<lambda>key. [])(?key := [''pod'']), st_calls = 1\<rparr>"
  have p: "put_payload quiet_store ?key ''pod'' empty_store = (None, ?st)"
    by (simp add: put_payload_def cloud_PutIfMatch_def storage_PutIfMatch_def quiet_store_def empty_store_def current_tag_def)
  obtain body where b: "MarshalIndex ?index = Inr body" using MarshalIndex_valid[OF example_index_valid] by blast
  have g: "cloud_Get quiet_store index_key ?st = (Inl cloud_ErrNotFound, ?st\<lparr>st_calls := 2\<rparr>)"
    using k by (simp add: cloud_Get_def quiet_store_def storage_Get_def Let_def)
  have "\<exists>st'. cloud_PutIfMatch quiet_store index_key body [] (?st\<lparr>st_calls := 2\<rparr>) = (None, st')"
    using k by (simp add: cloud_PutIfMatch_def quiet_store_def storage_PutIfMatch_def current_tag_def Let_def)
  then obtain st' where "cloud_PutIfMatch quiet_store index_key body [] (?st\<lparr>st_calls := 2\<rparr>) = (None, st')" by blast
  then have "mutate_attempt quiet_store (\<lambda>index. Inr (AList.update (DeploymentKey ''workers'' ''web'')
      (applied_entry ''workers'' example_deployment) index)) ?st = (Some None, st')"
    using b unfolding mutate_attempt_def g by simp
  then have "mutateIndex quiet_store (\<lambda>index. Inr (AList.update (DeploymentKey ''workers'' ''web'')
      (applied_entry ''workers'' example_deployment) index)) ?st = (None, st')"
    by (simp add: mutateIndex_def eval_nat_numeral)
  then show ?thesis
    using v p unfolding Apply_def applied_entry_def[symmetric] by (simp add: example_deployment_def)
qed

theorem apply_commits_witness:
  "\<exists>st'. Apply quiet_store ''workers'' ''web'' example_deployment empty_store = (None, st') \<and>
     payload_stored (st_objects st') (pod_key ''workers'' ''pod'')"
proof -
  obtain st' where st': "Apply quiet_store ''workers'' ''web'' example_deployment empty_store = (None, st')"
    using quiet_Apply by blast
  have "payloads_verified (st_objects empty_store)" "valid_names example_deployment"
    by (simp_all add: payloads_verified_def empty_store_def valid_names_def example_deployment_def)
  from apply_commits[OF quiet_laws this st'] st' show ?thesis by (auto simp: example_deployment_def)
qed

theorem delete_progress_witness:
  "fst (deploy_Delete quiet_store ''workers'' ''web'' empty_store) = None"
proof -
  have v: "ValidID ''workers''" "ValidID ''web''" by code_simp+
  have "cl_fault quiet_store m = None" "cl_other quiet_store m = (\<lambda>objects. objects)" for m by (simp_all add: quiet_store_def)
  moreover have "index_readable (st_objects empty_store)" by (simp add: index_readable_def empty_store_def)
  ultimately show ?thesis using delete_progress[OF quiet_laws(1) _ quiet_laws(2) _ v, of _ 0] by simp
qed

text \<open>
  C27: an index that is read is valid: every key is a node group and a name, every Pod
  reference belongs to the node group of its key, and no two deployments claim one Service.
  Writing it and reading it back yields the same index, in the order of its keys.
\<close>

theorem index_round_trip:
  assumes "ParseIndex text = Inr index"
  shows "valid_index index \<and> (\<exists>body. MarshalIndex index = Inr body \<and> ParseIndex body = Inr (sorted_index index)) \<and>
     map_of (sorted_index index) = map_of index"
proof -
  have v: "valid_index index" by (rule ParseIndex_valid[OF assms])
  then have d: "distinct (map fst index)" "list_all valid_entry index" by (simp_all add: valid_index_def)
  obtain body where b: "MarshalIndex index = Inr body" using MarshalIndex_valid[OF v] by blast
  show ?thesis using v b MarshalIndex_Inr(2)[OF d b] map_of_sorted_index[OF d(1)] by blast
qed

theorem index_round_trip_witness:
  "\<exists>text body. ParseIndex text = Inr [(DeploymentKey ''workers'' ''web'', applied_entry ''workers'' example_deployment)] \<and>
     MarshalIndex [(DeploymentKey ''workers'' ''web'', applied_entry ''workers'' example_deployment)] = Inr body"
proof -
  have "ParseIndex (json_text (index_json [(DeploymentKey ''workers'' ''web'', applied_entry ''workers'' example_deployment)]) @ [])
      = Inr [(DeploymentKey ''workers'' ''web'', applied_entry ''workers'' example_deployment)]"
    by (subst ParseIndex_text[OF example_index_valid]) (simp_all add: skip_space_def)
  from this index_round_trip[OF this] show ?thesis by blast
qed

end
