(* ===== verification/Secrets.thy ===== *)
theory Secrets
  imports Manifest_Ids
begin

text \<open>
  Names of secrets, \<open>src/internal/secrets/secrets.go\<close>: the provider name of a secret is built
  from the cluster, the namespace, the Pod and the key.
\<close>

definition AWSParameterStore :: string where
  "AWSParameterStore = ''aws-parameter-store''"

definition AWSSecretsManager :: string where
  "AWSSecretsManager = ''aws-secrets-manager''"

definition OTelLogsHeadersKey :: string where
  "OTelLogsHeadersKey = ''otel-logs-headers''"

definition ParseProvider :: "string \<Rightarrow> error + string" where
  "ParseProvider v =
     (if v \<noteq> AWSParameterStore \<and> v \<noteq> AWSSecretsManager then Inl (Errorf ''unsupported secret provider %q'' [v]) else Inr v)"

definition secrets_Prefix :: "string \<Rightarrow> string \<Rightarrow> string \<Rightarrow> error + string" where
  "secrets_Prefix cluster namespace pod =
     (if \<not> ValidID cluster \<or> \<not> ValidNamespace namespace \<or> \<not> ValidID pod
      then Inl (errors_New ''invalid secret cluster, namespace, or Pod name'')
      else Inr (''/'' @ cluster @ ''/'' @ namespace @ ''/'' @ pod))"

definition secrets_Name :: "string \<Rightarrow> string \<Rightarrow> string \<Rightarrow> string \<Rightarrow> error + string" where
  "secrets_Name cluster namespace pod key =
     (case secrets_Prefix cluster namespace pod of
        Inl e \<Rightarrow> Inl e
      | Inr prefix \<Rightarrow> if \<not> ValidID key then Inl (errors_New ''invalid secret key'') else Inr (prefix @ ''/'' @ key))"

definition ManageableSystemKey :: "string \<Rightarrow> bool" where
  "ManageableSystemKey key \<longleftrightarrow> key = OTelLogsHeadersKey"

definition SystemPrefix :: "string \<Rightarrow> error + string" where
  "SystemPrefix cluster =
     (if \<not> ValidID cluster then Inl (errors_New ''invalid system secret cluster'') else Inr (''/'' @ cluster @ ''/_system''))"

definition SystemName :: "string \<Rightarrow> string \<Rightarrow> error + string" where
  "SystemName cluster key =
     (if \<not> ManageableSystemKey key then Inl (Errorf ''system secret %q is not user-manageable'' [key])
      else case SystemPrefix cluster of Inl e \<Rightarrow> Inl e | Inr prefix \<Rightarrow> Inr (prefix @ ''/'' @ key))"

section \<open>Scopes\<close>

lemma secrets_Name_Inr:
  "secrets_Name cluster namespace pod key = Inr n \<longleftrightarrow>
     ValidID cluster \<and> ValidNamespace namespace \<and> ValidID pod \<and> ValidID key \<and>
     n = ''/'' @ cluster @ ''/'' @ namespace @ ''/'' @ pod @ ''/'' @ key"
  by (auto simp: secrets_Name_def secrets_Prefix_def split: if_splits)

lemma secrets_Name_inject:
  assumes "secrets_Name cluster namespace pod key = Inr n" and "secrets_Name cluster' namespace' pod' key' = Inr n"
  shows "cluster = cluster' \<and> namespace = namespace' \<and> pod = pod' \<and> key = key'"
proof -
  from assms have v: "ValidID cluster" "ValidNamespace namespace" "ValidID pod" "ValidID cluster'" "ValidNamespace namespace'" "ValidID pod'"
    and eq: "cluster @ CHR ''/'' # namespace @ CHR ''/'' # pod @ CHR ''/'' # key = cluster' @ CHR ''/'' # namespace' @ CHR ''/'' # pod' @ CHR ''/'' # key'"
    by (auto simp: secrets_Name_Inr)
  note no_slash = ValidID_no_sep(2) ValidNamespace_no_sep(2)
  have 1: "cluster = cluster'" "namespace @ CHR ''/'' # pod @ CHR ''/'' # key = namespace' @ CHR ''/'' # pod' @ CHR ''/'' # key'"
    using join_sep_inj[OF no_slash(1)[OF v(1)] no_slash(1)[OF v(4)] eq] by simp_all
  have 2: "namespace = namespace'" "pod @ CHR ''/'' # key = pod' @ CHR ''/'' # key'"
    using join_sep_inj[OF no_slash(2)[OF v(2)] no_slash(2)[OF v(5)] 1(2)] by simp_all
  show ?thesis using 1 2 join_sep_inj[OF no_slash(1)[OF v(3)] no_slash(1)[OF v(6)] 2(2)] by simp
qed

text \<open>No secret of a Pod is a system secret: a namespace has no underscore.\<close>

lemma secrets_Name_not_system:
  assumes "secrets_Name cluster namespace pod key = Inr n" and "SystemPrefix cluster' = Inr p"
  shows "\<not> HasPrefix n (p @ ''/'')"
proof
  assume "HasPrefix n (p @ ''/'')"
  then obtain rest where n: "n = p @ ''/'' @ rest" by (auto simp: HasPrefix_iff)
  from assms have v: "ValidID cluster" "ValidNamespace namespace" "ValidID cluster'"
    and eq: "cluster @ CHR ''/'' # (namespace @ CHR ''/'' # pod @ CHR ''/'' # key) = cluster' @ CHR ''/'' # (''_system'' @ CHR ''/'' # rest)"
    using n by (auto simp: secrets_Name_Inr SystemPrefix_def split: if_splits)
  have "namespace @ CHR ''/'' # pod @ CHR ''/'' # key = ''_system'' @ CHR ''/'' # rest"
    using join_sep_inj[OF ValidID_no_sep(2)[OF v(1)] ValidID_no_sep(2)[OF v(3)] eq] by simp
  then have "namespace = ''_system''"
    using join_sep_inj[of "CHR ''/''" namespace "''_system''" "pod @ CHR ''/'' # key" rest] ValidNamespace_no_sep(2)[OF v(2)] by simp
  moreover have "\<not> ValidNamespace ''_system''" by code_simp
  ultimately show False using v(2) by simp
qed

end
