(* ===== verification/Staticpod_Build.thy ===== *)
theory Staticpod_Build
  imports Manifest_Deployment Manifest_Index Secrets
begin

text \<open>
  One static Pod, \<open>src/internal/agent/staticpod/manifest.go\<close>: the committed Pod is transformed,
  its declared parameters and secrets are fetched and mounted, and its annotations name the
  deployment and the identity generation. The secret stores are arguments.
\<close>

section \<open>Configuration\<close>

definition parameterAnnotation :: string where
  "parameterAnnotation = ''podmin.dev/aws-parameter-store''"

definition secretAnnotation :: string where
  "secretAnnotation = ''podmin.dev/aws-secrets-manager''"

record staticpod_Config =
  sc_Cluster :: string
  sc_NodeGroup :: string
  sc_StaticDir :: string
  sc_SecretDir :: string
  sc_NodeDNS :: string
  sc_PollInterval :: int
  sc_ReconcileTimeout :: int

text \<open>The stores that return the value of a parameter and of a secret.\<close>

record secret_readers =
  sr_params :: "string \<Rightarrow> error + string"
  sr_secrets :: "string \<Rightarrow> error + string"

section \<open>Revisions\<close>

definition deploymentRevision :: "IndexDeployment \<Rightarrow> string" where
  "deploymentRevision deployment =
     hex_EncodeToString (take 16 (sha512 (id_Pod deployment @ [CHR 0x0A] @ id_Service deployment)))"

definition identityRevision ::
  "('x) manifest_ops_scheme \<Rightarrow> string \<Rightarrow> string \<Rightarrow> error + string \<times> string" where
  "identityRevision ops input certificate =
     (case ParsePod ops input of
        Inl e \<Rightarrow> Inl (Wrapf ''parse identity manifest'' [] e)
      | Inr pod \<Rightarrow>
          let revision = hex_EncodeToString (take 16 (sha512 certificate))
          in case MarshalPod ops
                    (pod\<lparr>mp_Annotations := AList.update ''podmin.dev/identity-revision'' revision (mp_Annotations pod)\<rparr>) of
               Inl e \<Rightarrow> Inl e
             | Inr output \<Rightarrow> Inr (output, revision))"

section \<open>Declared keys\<close>

definition annotation_key :: "string \<Rightarrow> string \<Rightarrow> string list \<Rightarrow> error + string list" where
  "annotation_key provider v keys =
     (let key = TrimSpace v
      in if \<not> ValidID key \<or> key \<in> set keys then Inl (Errorf ''invalid %s key %q'' [provider, key]) else Inr (keys @ [key]))"

definition annotationKeys :: "string \<Rightarrow> string \<Rightarrow> error + string list" where
  "annotationKeys raw provider =
     (if TrimSpace raw = [] then Inr []
      else case fold_res (annotation_key provider) (Split raw CHR '','') [] of
             Inl e \<Rightarrow> Inl e
           | Inr keys \<Rightarrow> Inr (sort_slice (\<lambda>x y. x < y) keys))"

section \<open>Mounts\<close>

definition mountPathOverlaps :: "string \<Rightarrow> string \<Rightarrow> bool" where
  "mountPathOverlaps left right =
     (if left = [] \<or> right = [] then False
      else let l = filepath_Clean left; r = filepath_Clean right
           in l = r \<or> HasPrefix l (r @ ''/'') \<or> HasPrefix r (l @ ''/''))"

definition provider_mount :: "string \<Rightarrow> string \<Rightarrow> VolumeMount" where
  "provider_mount volumeName mountPath = \<lparr>vm_Name = volumeName, vm_MountPath = mountPath, vm_ReadOnly = True, vm_Other = []\<rparr>"

definition mount_provider :: "string \<Rightarrow> string \<Rightarrow> Container \<Rightarrow> error + Container" where
  "mount_provider volumeName mountPath container =
     (if list_ex (\<lambda>existing. mountPathOverlaps (vm_MountPath existing) mountPath) (ctr_VolumeMounts container)
      then Inl (Errorf ''mount path %s is reserved by Podmin'' [mountPath])
      else Inr (container\<lparr>ctr_VolumeMounts := ctr_VolumeMounts container @ [provider_mount volumeName mountPath]\<rparr>))"

definition injectProviderMount :: "PodSpec \<Rightarrow> string \<Rightarrow> string \<Rightarrow> string \<Rightarrow> error + PodSpec" where
  "injectProviderMount spec volumeName hostPath mountPath =
     (if list_ex (\<lambda>v. vol_Name v = volumeName) (spec_Volumes spec)
      then Inl (Errorf ''volume %q is reserved by Podmin'' [volumeName])
      else case map_res (mount_provider volumeName mountPath) (spec_Containers spec) of
             Inl e \<Rightarrow> Inl e
           | Inr containers \<Rightarrow>
               (case map_res (mount_provider volumeName mountPath) (spec_InitContainers spec) of
                  Inl e \<Rightarrow> Inl e
                | Inr initContainers \<Rightarrow>
                    Inr (spec\<lparr>spec_Volumes := spec_Volumes spec @
                           [\<lparr>vol_Name = volumeName,
                             vol_HostPath = Some \<lparr>hp_Path = hostPath, hp_Type = Some ''Directory''\<rparr>, vol_Other = []\<rparr>],
                         spec_Containers := containers, spec_InitContainers := initContainers\<rparr>)))"

section \<open>One candidate\<close>

record built =
  bu_name :: string
  bu_namespace :: string
  bu_service :: string
  bu_manifest :: string
  bu_secrets :: "(string \<times> (string \<times> string) list) list"

definition node_dns :: "string \<Rightarrow> string \<Rightarrow> PodSpec \<Rightarrow> PodSpec" where
  "node_dns nodeDNS namespace spec =
     (if nodeDNS = [] then spec
      else let config = (case spec_DNSConfig spec of
                           Some c \<Rightarrow> c | None \<Rightarrow> \<lparr>dns_Nameservers = [], dns_Searches = [], dns_Other = []\<rparr>)
           in spec\<lparr>spec_DNSPolicy := ''None'',
                spec_DNSConfig := Some (config\<lparr>dns_Nameservers := [nodeDNS],
                  dns_Searches := [namespace @ ''.svc.cluster.local'', ''svc.cluster.local'', ''cluster.local'']\<rparr>)\<rparr>)"

definition fetch_key ::
  "staticpod_Config \<Rightarrow> string \<Rightarrow> string \<Rightarrow> string \<Rightarrow> (string \<Rightarrow> error + string) \<Rightarrow> string
     \<Rightarrow> (string \<times> string) list \<Rightarrow> error + (string \<times> string) list" where
  "fetch_key config namespace name directory store key values =
     (case secrets_Name (sc_Cluster config) namespace name key of
        Inl e \<Rightarrow> Inl e
      | Inr path \<Rightarrow>
          (case store path of
             Inl e \<Rightarrow> Inl (Wrapf ''fetch %s from %s'' [path, directory] e)
           | Inr v \<Rightarrow> Inr (AList.update key v values)))"

text \<open>A provider: its keys, directory, volume, mount path and store.\<close>

definition add_provider ::
  "staticpod_Config \<Rightarrow> string \<Rightarrow> string
     \<Rightarrow> string list \<times> string \<times> string \<times> string \<times> (string \<Rightarrow> error + string)
     \<Rightarrow> PodSpec \<times> (string \<times> (string \<times> string) list) list
     \<Rightarrow> error + PodSpec \<times> (string \<times> (string \<times> string) list) list" where
  "add_provider config namespace name = (\<lambda>(keys, directory, volume, mountPath, store) (spec, secrets).
     if length keys = 0 then Inr (spec, secrets)
     else case injectProviderMount spec volume (filepath_Join [sc_SecretDir config, name, directory]) mountPath of
            Inl e \<Rightarrow> Inl e
          | Inr spec' \<Rightarrow>
              (case fold_res (fetch_key config namespace name directory store) keys [] of
                 Inl e \<Rightarrow> Inl e
               | Inr fetched \<Rightarrow> Inr (spec', AList.update directory fetched secrets)))"

definition providers ::
  "secret_readers \<Rightarrow> string list \<Rightarrow> string list
     \<Rightarrow> (string list \<times> string \<times> string \<times> string \<times> (string \<Rightarrow> error + string)) list" where
  "providers stores parameterKeys secretKeys =
     [(parameterKeys, AWSParameterStore, ''podmin-aws-parameter-store'', ''/var/run/podmin/aws-parameter-store'', sr_params stores),
      (secretKeys, AWSSecretsManager, ''podmin-aws-secrets-manager'', ''/var/run/podmin/aws-secrets-manager'', sr_secrets stores)]"

definition annotation :: "corev1_Pod \<Rightarrow> string \<Rightarrow> string" where
  "annotation pod key = (case map_of (mp_Annotations pod) key of Some v \<Rightarrow> v | None \<Rightarrow> [])"

definition build ::
  "('x) manifest_ops_scheme \<Rightarrow> staticpod_Config \<Rightarrow> secret_readers \<Rightarrow> string \<Rightarrow> string \<Rightarrow> error + built" where
  "build ops config stores input revision =
     (case TransformPod ops input [] [] of
        Inl e \<Rightarrow> Inl e
      | Inr pod \<Rightarrow>
          let namespace = (if mp_Namespace pod = [] then ''default'' else mp_Namespace pod)
          in case annotationKeys (annotation pod parameterAnnotation) ''Parameter Store'' of
               Inl e \<Rightarrow> Inl e
             | Inr parameterKeys \<Rightarrow>
                 (case annotationKeys (annotation pod secretAnnotation) ''Secrets Manager'' of
                    Inl e \<Rightarrow> Inl e
                  | Inr secretKeys \<Rightarrow>
                      (case fold_res (add_provider config namespace (mp_Name pod)) (providers stores parameterKeys secretKeys)
                              (node_dns (sc_NodeDNS config) namespace (mp_Spec pod), []) of
                         Inl e \<Rightarrow> Inl e
                       | Inr (spec, secrets) \<Rightarrow>
                           (case MarshalPod ops (pod\<lparr>mp_Spec := spec,
                                   mp_Annotations := AList.update ''podmin.dev/revision'' revision (mp_Annotations pod)\<rparr>) of
                              Inl e \<Rightarrow> Inl e
                            | Inr encoded \<Rightarrow>
                                Inr \<lparr>bu_name = mp_Name pod, bu_namespace = namespace,
                                     bu_service = annotation pod ''podmin.dev/service'', bu_manifest = encoded,
                                     bu_secrets = secrets\<rparr>))))"

section \<open>The secrets of a Pod\<close>

text \<open>A value is read from the provider's store under the name of the Pod's own scope.\<close>

definition fetched_from :: "staticpod_Config \<Rightarrow> string \<Rightarrow> string \<Rightarrow> (string \<Rightarrow> error + string) \<Rightarrow> string \<times> string \<Rightarrow> bool" where
  "fetched_from config namespace name store = (\<lambda>(key, v).
     \<exists>path. secrets_Name (sc_Cluster config) namespace name key = Inr path \<and> store path = Inr v)"

definition provider_store :: "secret_readers \<Rightarrow> string \<Rightarrow> string \<Rightarrow> error + string" where
  "provider_store stores provider = (if provider = AWSParameterStore then sr_params stores else sr_secrets stores)"

definition scoped_secrets ::
  "staticpod_Config \<Rightarrow> secret_readers \<Rightarrow> string \<Rightarrow> string \<Rightarrow> (string \<times> (string \<times> string) list) list \<Rightarrow> bool" where
  "scoped_secrets config stores namespace name secrets \<longleftrightarrow> distinct (map fst secrets) \<and>
     (\<forall>(provider, contents) \<in> set secrets. provider \<in> {AWSParameterStore, AWSSecretsManager} \<and> contents \<noteq> [] \<and>
        distinct (map fst contents) \<and> list_all (fetched_from config namespace name (provider_store stores provider)) contents)"

lemma update_subset: "set (AList.update k v xs) \<subseteq> insert (k, v) (set xs)"
  by (induction xs) auto

lemma update_new: "k \<notin> fst ` set xs \<Longrightarrow> AList.update k v xs = xs @ [(k, v)]"
  by (induction xs) auto

lemma fetched_keys:
  assumes "fold_res (fetch_key config namespace name directory store) keys contents = Inr contents'"
    and "list_all (fetched_from config namespace name store) contents" and "distinct (map fst contents)"
  shows "list_all (fetched_from config namespace name store) contents'" "distinct (map fst contents')"
    "keys \<noteq> [] \<or> contents \<noteq> [] \<Longrightarrow> contents' \<noteq> []"
proof -
  have "list_all (fetched_from config namespace name store) contents' \<and> distinct (map fst contents') \<and>
    (keys \<noteq> [] \<or> contents \<noteq> [] \<longrightarrow> contents' \<noteq> [])"
    using assms
  proof (induction keys arbitrary: contents)
    case (Cons key keys)
    obtain t where t: "fetch_key config namespace name directory store key contents = Inr t"
      and rest: "fold_res (fetch_key config namespace name directory store) keys t = Inr contents'"
      using Cons.prems(1) by (rule fold_res_ConsE)
    from t obtain path v where v: "secrets_Name (sc_Cluster config) namespace name key = Inr path" "store path = Inr v"
      "t = AList.update key v contents"
      by (auto simp: fetch_key_def split: sum.splits)
    have "set t \<subseteq> insert (key, v) (set contents)" unfolding v(3) by (rule update_subset)
    then have "list_all (fetched_from config namespace name store) t"
      using Cons.prems(2) v(1,2) by (auto simp: list_all_iff fetched_from_def)
    moreover have "distinct (map fst t)" unfolding v(3) using Cons.prems(3) by (simp add: distinct_update)
    moreover have "t \<noteq> []" unfolding v(3) by (cases contents) auto
    ultimately show ?case using Cons.IH[OF rest] by simp
  qed simp
  then show "list_all (fetched_from config namespace name store) contents'" "distinct (map fst contents')"
    "keys \<noteq> [] \<or> contents \<noteq> [] \<Longrightarrow> contents' \<noteq> []" by blast+
qed

lemma add_provider_scoped:
  assumes "add_provider config namespace name (keys, directory, volume, mountPath, store) (spec, secrets) = Inr (spec', secrets')"
    and "scoped_secrets config stores namespace name secrets" and "directory \<in> {AWSParameterStore, AWSSecretsManager}"
    and "store = provider_store stores directory" and "directory \<notin> fst ` set secrets"
  shows "scoped_secrets config stores namespace name secrets'" "fst ` set secrets' \<subseteq> insert directory (fst ` set secrets)"
proof -
  have "scoped_secrets config stores namespace name secrets' \<and> fst ` set secrets' \<subseteq> insert directory (fst ` set secrets)"
  proof (cases "keys = []")
    case False
    then obtain fetched where f: "fold_res (fetch_key config namespace name directory store) keys [] = Inr fetched"
      and s: "secrets' = AList.update directory fetched secrets"
      using assms(1) by (auto simp: add_provider_def split: sum.splits)
    have s': "secrets' = secrets @ [(directory, fetched)]"
      using s assms(5) by (simp add: update_new)
    show ?thesis using fetched_keys[OF f] False assms(2-5) unfolding s' by (auto simp: scoped_secrets_def)
  qed (use assms in \<open>auto simp: add_provider_def\<close>)
  then show "scoped_secrets config stores namespace name secrets'" "fst ` set secrets' \<subseteq> insert directory (fst ` set secrets)"
    by blast+
qed

lemma build_secrets:
  assumes "build ops config stores input revision = Inr bu"
  shows "scoped_secrets config stores (bu_namespace bu) (bu_name bu) (bu_secrets bu)"
proof -
  have "\<exists>podSpec parameterKeys secretKeys spec. fold_res (add_provider config (bu_namespace bu) (bu_name bu)) (providers stores parameterKeys secretKeys)
       (node_dns (sc_NodeDNS config) (bu_namespace bu) podSpec, []) = Inr (spec, bu_secrets bu)"
    using assms by (auto simp: build_def Let_def split: sum.splits) blast+
  then obtain podSpec parameterKeys secretKeys spec where
    p: "fold_res (add_provider config (bu_namespace bu) (bu_name bu)) (providers stores parameterKeys secretKeys)
       (node_dns (sc_NodeDNS config) (bu_namespace bu) podSpec, []) = Inr (spec, bu_secrets bu)" by blast
  then obtain spec1 secrets1 where
    1: "add_provider config (bu_namespace bu) (bu_name bu) (parameterKeys, AWSParameterStore, ''podmin-aws-parameter-store'',
      ''/var/run/podmin/aws-parameter-store'', sr_params stores) (node_dns (sc_NodeDNS config) (bu_namespace bu) podSpec, []) = Inr (spec1, secrets1)"
    and 2: "add_provider config (bu_namespace bu) (bu_name bu) (secretKeys, AWSSecretsManager, ''podmin-aws-secrets-manager'',
      ''/var/run/podmin/aws-secrets-manager'', sr_secrets stores) (spec1, secrets1) = Inr (spec, bu_secrets bu)"
    by (auto simp: providers_def split: sum.splits)
  have ne: "AWSParameterStore \<noteq> AWSSecretsManager" by (simp add: AWSParameterStore_def AWSSecretsManager_def)
  have s1: "scoped_secrets config stores (bu_namespace bu) (bu_name bu) secrets1" "fst ` set secrets1 \<subseteq> {AWSParameterStore}"
    using add_provider_scoped[OF 1, of stores] by (simp_all add: scoped_secrets_def provider_store_def)
  have "AWSSecretsManager \<notin> fst ` set secrets1" using subsetD[OF s1(2), of AWSSecretsManager] ne by (metis singletonD)
  then show ?thesis using add_provider_scoped(1)[OF 2 s1(1)] ne by (simp add: provider_store_def)
qed

lemma fetched_fst:
  assumes "fold_res (fetch_key config namespace name directory store) keys contents = Inr contents'"
    and "distinct keys" and "set keys \<inter> fst ` set contents = {}"
  shows "map fst contents' = map fst contents @ keys"
  using assms
proof (induction keys arbitrary: contents)
  case (Cons key keys)
  obtain t where t: "fetch_key config namespace name directory store key contents = Inr t"
    and rest: "fold_res (fetch_key config namespace name directory store) keys t = Inr contents'"
    using Cons.prems(1) by (rule fold_res_ConsE)
  from t Cons.prems(3) obtain v where "t = contents @ [(key, v)]"
    by (auto simp: fetch_key_def update_new split: sum.splits)
  with Cons.IH[OF rest] Cons.prems(2,3) show ?case by auto
qed simp

lemma annotationKeys_distinct:
  assumes "annotationKeys raw provider = Inr keys"
  shows "distinct keys"
proof -
  have "distinct ks'" if "fold_res (annotation_key provider) vs ks = Inr ks'" "distinct ks" for vs ks ks'
    using that by (induction vs arbitrary: ks) (auto simp: annotation_key_def Let_def split: sum.splits if_splits)
  from this[of _ "[]"] show ?thesis
    using assms distinct_map_sort_slice[of "\<lambda>x. x"] by (auto simp: annotationKeys_def split: if_splits sum.splits)
qed

definition declared_keys :: "corev1_Pod \<Rightarrow> string \<Rightarrow> error + string list" where
  "declared_keys pod provider =
     (if provider = AWSParameterStore then annotationKeys (annotation pod parameterAnnotation) ''Parameter Store''
      else annotationKeys (annotation pod secretAnnotation) ''Secrets Manager'')"

lemma add_provider_keys:
  assumes "add_provider config namespace name (keys, directory, volume, mountPath, store) (spec, secrets) = Inr (spec', secrets')"
    and "distinct keys" and "directory \<notin> fst ` set secrets"
  shows "\<forall>(provider, contents) \<in> set secrets'. (provider, contents) \<in> set secrets \<or> provider = directory \<and> map fst contents = keys"
proof (cases "keys = []")
  case False
  then obtain fetched where f: "fold_res (fetch_key config namespace name directory store) keys [] = Inr fetched"
    and "secrets' = AList.update directory fetched secrets"
    using assms(1) by (auto simp: add_provider_def split: sum.splits)
  then have "secrets' = secrets @ [(directory, fetched)]" using assms(3) by (simp add: update_new)
  moreover have "map fst fetched = keys" using fetched_fst[OF f assms(2)] by simp
  ultimately show ?thesis by auto
qed (use assms(1) in \<open>auto simp: add_provider_def\<close>)

lemma build_declared:
  assumes "build ops config stores input revision = Inr bu"
  shows "\<exists>pod. TransformPod ops input [] [] = Inr pod \<and> bu_name bu = mp_Name pod \<and>
    (\<forall>(provider, contents) \<in> set (bu_secrets bu). declared_keys pod provider = Inr (map fst contents))"
proof -
  have "\<exists>pod parameterKeys secretKeys spec. TransformPod ops input [] [] = Inr pod \<and> bu_name bu = mp_Name pod \<and>
      annotationKeys (annotation pod parameterAnnotation) ''Parameter Store'' = Inr parameterKeys \<and>
      annotationKeys (annotation pod secretAnnotation) ''Secrets Manager'' = Inr secretKeys \<and>
      fold_res (add_provider config (bu_namespace bu) (bu_name bu)) (providers stores parameterKeys secretKeys)
        (node_dns (sc_NodeDNS config) (bu_namespace bu) (mp_Spec pod), []) = Inr (spec, bu_secrets bu)"
    using assms by (auto simp: build_def Let_def split: sum.splits)
  then obtain pod parameterKeys secretKeys spec where pod: "TransformPod ops input [] [] = Inr pod" "bu_name bu = mp_Name pod"
    and keys: "annotationKeys (annotation pod parameterAnnotation) ''Parameter Store'' = Inr parameterKeys"
      "annotationKeys (annotation pod secretAnnotation) ''Secrets Manager'' = Inr secretKeys"
    and p: "fold_res (add_provider config (bu_namespace bu) (bu_name bu)) (providers stores parameterKeys secretKeys)
        (node_dns (sc_NodeDNS config) (bu_namespace bu) (mp_Spec pod), []) = Inr (spec, bu_secrets bu)" by blast
  then obtain spec1 secrets1 where
    1: "add_provider config (bu_namespace bu) (bu_name bu) (parameterKeys, AWSParameterStore, ''podmin-aws-parameter-store'',
      ''/var/run/podmin/aws-parameter-store'', sr_params stores) (node_dns (sc_NodeDNS config) (bu_namespace bu) (mp_Spec pod), []) = Inr (spec1, secrets1)"
    and 2: "add_provider config (bu_namespace bu) (bu_name bu) (secretKeys, AWSSecretsManager, ''podmin-aws-secrets-manager'',
      ''/var/run/podmin/aws-secrets-manager'', sr_secrets stores) (spec1, secrets1) = Inr (spec, bu_secrets bu)"
    by (auto simp: providers_def split: sum.splits)
  have ne: "AWSSecretsManager \<noteq> AWSParameterStore" by (simp add: AWSParameterStore_def AWSSecretsManager_def)
  note k1 = add_provider_keys[OF 1 annotationKeys_distinct[OF keys(1)], simplified]
  then have "AWSSecretsManager \<notin> fst ` set secrets1" using ne by auto
  note k2 = add_provider_keys[OF 2 annotationKeys_distinct[OF keys(2)] this]
  have "declared_keys pod provider = Inr (map fst contents)" if "(provider, contents) \<in> set (bu_secrets bu)" for provider contents
    using k1 k2 that keys ne unfolding declared_keys_def by fastforce
  with pod show ?thesis by blast
qed


definition secret_ops :: manifest_ops where
  "secret_ops = \<lparr>mo_yaml = (\<lambda>b. [Inr (YNode DocumentNode [] [] [YNode MappingNode ''!!map'' [] []], [])]), mo_toJSON = (\<lambda>b. Inr JNull),
     mo_pod = (\<lambda>j. Inr ([], example_manifest_pod\<lparr>mp_Annotations := [(parameterAnnotation, ''url'')], mp_Spec := (mp_Spec example_manifest_pod)
       \<lparr>spec_Containers := map (\<lambda>c. c\<lparr>ctr_Image := ''registry.podmin.internal/apps/web:v1''\<rparr>) (spec_Containers (mp_Spec example_manifest_pod))\<rparr>\<rparr>)),
     mo_encodePod = (\<lambda>p. Inr ''pod''), mo_newTag = example_tag\<rparr>"

definition example_config :: staticpod_Config where
  "example_config = \<lparr>sc_Cluster = ''demo'', sc_NodeGroup = ''workers'', sc_StaticDir = ''/etc/manifests'', sc_SecretDir = ''/run/workloads'',
     sc_NodeDNS = [], sc_PollInterval = 0, sc_ReconcileTimeout = 0\<rparr>"

definition secret_stores :: secret_readers where
  "secret_stores = \<lparr>sr_params = (\<lambda>name. if name = ''/demo/default/web/url'' then Inr ''postgres'' else Inl (errors_New ''not found'')),
     sr_secrets = (\<lambda>name. Inl (errors_New ''not found''))\<rparr>"

lemma example_build:
  "case build secret_ops example_config secret_stores ''input'' ''r'' of Inl e \<Rightarrow> False
   | Inr bu \<Rightarrow> bu_secrets bu = [(AWSParameterStore, [(''url'', ''postgres'')])]"
  by code_simp


end
