(* ===== verification/Staticpod_Files.thy ===== *)
theory Staticpod_Files
  imports Go_Path Secrets "HOL-Library.AList"
begin

text \<open>
  Publication of files, \<open>src/internal/agent/staticpod/filesystem.go\<close>. The operating system is a
  list of paths with their nodes; every call may fail instead of taking effect, as \<open>h_fault\<close>
  says for the number of the call, and \<open>h_temp\<close> is the random part of the temporary name that
  \<open>CreateTemp\<close> settles on, which is free unless the call fails. The paths are free of symbolic
  links above the last element, as the directories that Podmin owns are.
\<close>

section \<open>The file system\<close>

datatype fs_node = FFile string nat | FLink string | FDir nat int

record filesystem =
  fs_nodes :: "(string \<times> fs_node) list"
  fs_calls :: nat

record host =
  h_fault :: "nat \<Rightarrow> error option"
  h_temp :: "nat \<Rightarrow> string"
  h_now :: "nat \<Rightarrow> int"

definition os_ErrNotExist :: error where
  "os_ErrNotExist = Sentinel ''file does not exist''"

definition os_ErrExist :: error where
  "os_ErrExist = Sentinel ''file already exists''"

definition fs_call ::
  "host \<Rightarrow> ((string \<times> fs_node) list \<Rightarrow> error + (string \<times> fs_node) list) \<Rightarrow> filesystem \<Rightarrow> error option \<times> filesystem" where
  "fs_call host f fs =
     (case h_fault host (fs_calls fs) of
        Some e \<Rightarrow> (Some e, fs\<lparr>fs_calls := Suc (fs_calls fs)\<rparr>)
      | None \<Rightarrow>
          (case f (fs_nodes fs) of
             Inl e \<Rightarrow> (Some e, fs\<lparr>fs_calls := Suc (fs_calls fs)\<rparr>)
           | Inr nodes \<Rightarrow> (None, \<lparr>fs_nodes = nodes, fs_calls = Suc (fs_calls fs)\<rparr>)))"

definition is_dir :: "(string \<times> fs_node) list \<Rightarrow> string \<Rightarrow> bool" where
  "is_dir nodes path = (case map_of nodes path of Some (FDir _ _) \<Rightarrow> True | _ \<Rightarrow> False)"

text \<open>The path and the directories above it, the outermost first.\<close>

definition ancestors :: "string \<Rightarrow> string list" where
  "ancestors path =
     (let es = path_elements path
      in map (\<lambda>n. (if rooted path then ''/'' else []) @ strings_Join (take n es) ''/'') [1..<Suc (length es)])"

text \<open>A change of its entries sets the modification time of a directory.\<close>

definition touch :: "int \<Rightarrow> string \<Rightarrow> (string \<times> fs_node) list \<Rightarrow> (string \<times> fs_node) list" where
  "touch now path nodes =
     (case map_of nodes (filepath_Dir path) of
        Some (FDir mode _) \<Rightarrow> AList.update (filepath_Dir path) (FDir mode now) nodes
      | _ \<Rightarrow> nodes)"

definition mkdir_step :: "nat \<Rightarrow> int \<Rightarrow> string \<Rightarrow> (string \<times> fs_node) list \<Rightarrow> error + (string \<times> fs_node) list" where
  "mkdir_step mode now path nodes =
     (case map_of nodes path of
        None \<Rightarrow> Inr (AList.update path (FDir mode now) (touch now path nodes))
      | Some (FDir _ _) \<Rightarrow> Inr nodes
      | Some _ \<Rightarrow> Inl (errors_New ''not a directory''))"

definition os_MkdirAll :: "host \<Rightarrow> string \<Rightarrow> nat \<Rightarrow> filesystem \<Rightarrow> error option \<times> filesystem" where
  "os_MkdirAll host path mode fs =
     fs_call host (\<lambda>nodes. case map_of nodes path of
        Some (FDir _ _) \<Rightarrow> Inr nodes
      | Some _ \<Rightarrow> Inl (errors_New ''not a directory'')
      | None \<Rightarrow> fold_res (mkdir_step mode (h_now host (fs_calls fs))) (ancestors path) nodes) fs"

definition os_Chmod :: "host \<Rightarrow> string \<Rightarrow> nat \<Rightarrow> filesystem \<Rightarrow> error option \<times> filesystem" where
  "os_Chmod host path mode fs =
     fs_call host (\<lambda>nodes. case map_of nodes path of
        Some (FDir _ t) \<Rightarrow> Inr (AList.update path (FDir mode t) nodes)
      | Some (FFile body _) \<Rightarrow> Inr (AList.update path (FFile body mode) nodes)
      | Some (FLink _) \<Rightarrow> Inl os_ErrNotExist
      | None \<Rightarrow> Inl os_ErrNotExist) fs"

definition os_CreateFile :: "host \<Rightarrow> string \<Rightarrow> filesystem \<Rightarrow> error option \<times> filesystem" where
  "os_CreateFile host path fs =
     fs_call host (\<lambda>nodes.
       if map_of nodes path \<noteq> None then Inl os_ErrExist else Inr (AList.update path (FFile [] 384) (touch (h_now host (fs_calls fs)) path nodes))) fs"

definition os_Write :: "host \<Rightarrow> string \<Rightarrow> string \<Rightarrow> filesystem \<Rightarrow> error option \<times> filesystem" where
  "os_Write host path body fs =
     fs_call host (\<lambda>nodes. case map_of nodes path of
        Some (FFile _ mode) \<Rightarrow> Inr (AList.update path (FFile body mode) nodes)
      | _ \<Rightarrow> Inl os_ErrNotExist) fs"

definition os_Symlink :: "host \<Rightarrow> string \<Rightarrow> string \<Rightarrow> filesystem \<Rightarrow> error option \<times> filesystem" where
  "os_Symlink host target path fs =
     fs_call host (\<lambda>nodes.
       if map_of nodes path \<noteq> None then Inl os_ErrExist else Inr (AList.update path (FLink target) (touch (h_now host (fs_calls fs)) path nodes))) fs"

definition has_children :: "(string \<times> fs_node) list \<Rightarrow> string \<Rightarrow> bool" where
  "has_children nodes path = list_ex (\<lambda>(p, _). HasPrefix p (path @ ''/'')) nodes"

definition os_Remove :: "host \<Rightarrow> string \<Rightarrow> filesystem \<Rightarrow> error option \<times> filesystem" where
  "os_Remove host path fs =
     fs_call host (\<lambda>nodes.
       if map_of nodes path = None then Inl os_ErrNotExist
       else if has_children nodes path then Inl (errors_New ''directory not empty'')
       else Inr (AList.delete path (touch (h_now host (fs_calls fs)) path nodes))) fs"

definition os_RemoveAll :: "host \<Rightarrow> string \<Rightarrow> filesystem \<Rightarrow> error option \<times> filesystem" where
  "os_RemoveAll host path fs =
     fs_call host (\<lambda>nodes. Inr (filter (\<lambda>(p, _). p \<noteq> path \<and> \<not> HasPrefix p (path @ ''/''))
       (if map_of nodes path = None then nodes else touch (h_now host (fs_calls fs)) path nodes))) fs"

definition os_Rename :: "host \<Rightarrow> string \<Rightarrow> string \<Rightarrow> filesystem \<Rightarrow> error option \<times> filesystem" where
  "os_Rename host old new fs =
     fs_call host (\<lambda>nodes. case map_of nodes old of
        None \<Rightarrow> Inl os_ErrNotExist
      | Some node \<Rightarrow>
          if is_dir nodes new then Inl os_ErrExist
          else let now = h_now host (fs_calls fs)
               in Inr (AList.update new node (AList.delete old (touch now old (touch now new nodes))))) fs"

text \<open>The entries of a directory by name, without the directory itself and its parent.\<close>

definition os_ReadDir :: "host \<Rightarrow> string \<Rightarrow> filesystem \<Rightarrow> (error + (string \<times> fs_node) list) \<times> filesystem" where
  "os_ReadDir host path fs =
     (case fs_call host Inr fs of
        (Some e, fs') \<Rightarrow> (Inl e, fs')
      | (None, fs') \<Rightarrow>
          (if map_of (fs_nodes fs') (filepath_Clean path) = None then Inl os_ErrNotExist
           else if \<not> is_dir (fs_nodes fs') (filepath_Clean path) then Inl (errors_New ''not a directory'')
           else Inr (sort_slice (\<lambda>x y. fst x < fst y)
             (filter (\<lambda>(name, _). name \<noteq> ''.'' \<and> name \<noteq> ''..'' \<and> name \<noteq> ''/'')
               (map (\<lambda>(p, node). (filepath_Base p, node))
                 (filter (\<lambda>(p, _). filepath_Dir p = filepath_Clean path) (fs_nodes fs'))))), fs'))"

text \<open>A call that changes nothing, such as \<open>Sync\<close>.\<close>

definition os_Sync :: "host \<Rightarrow> filesystem \<Rightarrow> error option \<times> filesystem" where
  "os_Sync host fs = fs_call host Inr fs"

section \<open>Staging\<close>

record staged =
  sg_path :: string
  sg_temporary :: string

definition stageSymlink ::
  "host \<Rightarrow> string \<Rightarrow> string \<Rightarrow> filesystem \<Rightarrow> (error + staged) \<times> filesystem" where
  "stageSymlink host path target fs =
     (case os_MkdirAll host (filepath_Dir path) 448 fs of
        (Some e, fs1) \<Rightarrow> (Inl e, fs1)
      | (None, fs1) \<Rightarrow>
          let temporary = filepath_Join [filepath_Dir path, ''.podmin-link-'' @ filepath_Base target];
              (_, fs2) = os_Remove host temporary fs1
          in case os_Symlink host target temporary fs2 of
               (Some e, fs3) \<Rightarrow> (Inl e, fs3)
             | (None, fs3) \<Rightarrow> (Inr \<lparr>sg_path = path, sg_temporary = temporary\<rparr>, fs3))"

text \<open>How \<open>os.CreateTemp\<close> puts a name under a directory.\<close>

definition join_path :: "string \<Rightarrow> string \<Rightarrow> string" where
  "join_path directory name =
     (if directory \<noteq> [] \<and> last directory = CHR ''/'' then directory @ name else directory @ ''/'' @ name)"

text \<open>The content of a temporary file: mode, bytes, synchronisation and close.\<close>

definition fill_file :: "host \<Rightarrow> string \<Rightarrow> string \<Rightarrow> nat \<Rightarrow> filesystem \<Rightarrow> error option \<times> filesystem" where
  "fill_file host temporary body fileMode fs =
     (let (e1, fs1) = os_Chmod host temporary fileMode fs;
          (e2, fs2) = (case e1 of Some e \<Rightarrow> (Some e, fs1) | None \<Rightarrow> os_Write host temporary body fs1);
          (e3, fs3) = (case e2 of Some e \<Rightarrow> (Some e, fs2) | None \<Rightarrow> os_Sync host fs2);
          (closeErr, fs4) = os_Sync host fs3
      in (case e3 of Some e \<Rightarrow> Some e | None \<Rightarrow> closeErr, fs4))"

definition stageFile ::
  "host \<Rightarrow> string \<Rightarrow> string \<Rightarrow> nat \<Rightarrow> nat \<Rightarrow> filesystem \<Rightarrow> (error + staged) \<times> filesystem" where
  "stageFile host path body directoryMode fileMode fs =
     (let directory = filepath_Dir path
      in case os_MkdirAll host directory directoryMode fs of
           (Some e, fs1) \<Rightarrow> (Inl e, fs1)
         | (None, fs1) \<Rightarrow>
             (case os_Chmod host directory directoryMode fs1 of
                (Some e, fs2) \<Rightarrow> (Inl e, fs2)
              | (None, fs2) \<Rightarrow>
                  let temporary = join_path directory (''.podmin-'' @ h_temp host (fs_calls fs2))
                  in case os_CreateFile host temporary fs2 of
                       (Some e, fs3) \<Rightarrow> (Inl e, fs3)
                     | (None, fs3) \<Rightarrow>
                         (case fill_file host temporary body fileMode fs3 of
                            (Some e, fs4) \<Rightarrow> (Inl e, snd (os_Remove host temporary fs4))
                          | (None, fs4) \<Rightarrow> (Inr \<lparr>sg_path = path, sg_temporary = temporary\<rparr>, fs4))))"

definition syncDirectory :: "host \<Rightarrow> string \<Rightarrow> filesystem \<Rightarrow> error option \<times> filesystem" where
  "syncDirectory host path fs =
     (case fs_call host (\<lambda>nodes. if map_of nodes (filepath_Clean path) = None then Inl os_ErrNotExist else Inr nodes) fs of
        (Some e, fs1) \<Rightarrow> (if errors_Is e os_ErrNotExist then None else Some e, fs1)
      | (None, fs1) \<Rightarrow>
          (case os_Sync host fs1 of
             (Some e, fs2) \<Rightarrow> (Some e, snd (os_Sync host fs2))
           | (None, fs2) \<Rightarrow> os_Sync host fs2))"

text \<open>After a successful rename the temporary name is cleared, also when the directory is not synchronised.\<close>

definition staged_commit :: "host \<Rightarrow> staged \<Rightarrow> filesystem \<Rightarrow> error option \<times> staged \<times> filesystem" where
  "staged_commit host s fs =
     (case os_Rename host (sg_temporary s) (sg_path s) fs of
        (Some e, fs1) \<Rightarrow> (Some e, s, fs1)
      | (None, fs1) \<Rightarrow>
          (let (e, fs2) = syncDirectory host (filepath_Dir (sg_path s)) fs1 in (e, s\<lparr>sg_temporary := []\<rparr>, fs2)))"

definition discard :: "host \<Rightarrow> staged \<Rightarrow> filesystem \<Rightarrow> filesystem" where
  "discard host s fs = (if sg_temporary s \<noteq> [] then snd (os_Remove host (sg_temporary s) fs) else fs)"

section \<open>Cleaning up\<close>

definition os_each ::
  "('a \<Rightarrow> filesystem \<Rightarrow> error option \<times> filesystem) \<Rightarrow> 'a \<Rightarrow> error option \<times> filesystem \<Rightarrow> error option \<times> filesystem" where
  "os_each f x = (\<lambda>(e, fs). case e of Some e \<Rightarrow> (Some e, fs) | None \<Rightarrow> f x fs)"

definition is_dir_node :: "fs_node \<Rightarrow> bool" where
  "is_dir_node node = (case node of FDir _ _ \<Rightarrow> True | _ \<Rightarrow> False)"

text \<open>A missing directory has no entries.\<close>

definition read_entries :: "host \<Rightarrow> string \<Rightarrow> filesystem \<Rightarrow> (error + (string \<times> fs_node) list) \<times> filesystem" where
  "read_entries host path fs =
     (case os_ReadDir host path fs of
        (Inl e, fs1) \<Rightarrow> (if errors_Is e os_ErrNotExist then Inr [] else Inl e, fs1)
      | (Inr entries, fs1) \<Rightarrow> (Inr entries, fs1))"

definition cleanup_manifest ::
  "host \<Rightarrow> string \<Rightarrow> string set \<Rightarrow> string \<times> fs_node \<Rightarrow> filesystem \<Rightarrow> error option \<times> filesystem" where
  "cleanup_manifest host staticDir keep = (\<lambda>(name, _) fs.
     if HasSuffix name ''.yaml'' \<and> TrimSuffix name ''.yaml'' \<notin> keep
     then os_Remove host (filepath_Join [staticDir, name]) fs else (None, fs))"

text \<open>The desired keys of a Pod's provider.\<close>

type_synonym desired_secrets = "(string \<times> (string \<times> string list) list) list"

definition desired_keys :: "desired_secrets \<Rightarrow> string \<Rightarrow> string \<Rightarrow> string list" where
  "desired_keys desired pod provider =
     (case map_of desired pod of
        None \<Rightarrow> []
      | Some providers \<Rightarrow> (case map_of providers provider of None \<Rightarrow> [] | Some keys \<Rightarrow> keys))"

definition cleanup_provider ::
  "host \<Rightarrow> string \<Rightarrow> desired_secrets \<Rightarrow> string \<Rightarrow> string \<Rightarrow> filesystem \<Rightarrow> error option \<times> filesystem" where
  "cleanup_provider host secretDir desired pod name fs =
     (let provider = filepath_Join [secretDir, pod, name]; keys = desired_keys desired pod name
      in case read_entries host provider fs of
           (Inl e, fs1) \<Rightarrow> (Some e, fs1)
         | (Inr files, fs1) \<Rightarrow>
             (case fold (os_each (\<lambda>(file, node) fs.
                      if \<not> is_dir_node node \<and> file \<notin> set keys then os_Remove host (filepath_Join [provider, file]) fs
                      else (None, fs))) files (None, fs1) of
                (Some e, fs2) \<Rightarrow> (Some e, fs2)
              | (None, fs2) \<Rightarrow> if length keys = 0 then os_RemoveAll host provider fs2 else (None, fs2)))"

definition cleanup_pod ::
  "host \<Rightarrow> string \<Rightarrow> string set \<Rightarrow> desired_secrets \<Rightarrow> string \<times> fs_node \<Rightarrow> filesystem \<Rightarrow> error option \<times> filesystem" where
  "cleanup_pod host secretDir keep desired = (\<lambda>(name, node) fs.
     if is_dir_node node \<and> name \<notin> keep then os_RemoveAll host (filepath_Join [secretDir, name]) fs
     else if is_dir_node node
     then fold (os_each (cleanup_provider host secretDir desired name)) [AWSParameterStore, AWSSecretsManager] (None, fs)
     else (None, fs))"

definition cleanup ::
  "host \<Rightarrow> string \<Rightarrow> string \<Rightarrow> string set \<Rightarrow> desired_secrets \<Rightarrow> filesystem \<Rightarrow> error option \<times> filesystem" where
  "cleanup host staticDir secretDir keep desired fs =
     (case read_entries host staticDir fs of
        (Inl e, fs1) \<Rightarrow> (Some e, fs1)
      | (Inr entries, fs1) \<Rightarrow>
          (case fold (os_each (cleanup_manifest host staticDir keep)) entries (None, fs1) of
             (Some e, fs2) \<Rightarrow> (Some e, fs2)
           | (None, fs2) \<Rightarrow>
               (case read_entries host secretDir fs2 of
                  (Inl e, fs3) \<Rightarrow> (Some e, fs3)
                | (Inr pods, fs3) \<Rightarrow>
                    (case fold (os_each (cleanup_pod host secretDir keep desired)) pods (None, fs3) of
                       (Some e, fs4) \<Rightarrow> (Some e, fs4)
                     | (None, fs4) \<Rightarrow>
                         (case syncDirectory host staticDir fs4 of
                            (Some e, fs5) \<Rightarrow> (Some e, fs5)
                          | (None, fs5) \<Rightarrow> syncDirectory host secretDir fs5)))))"

text \<open>The newest directory other than the current generation; \<open>Info\<close> is a call of its own.\<close>

definition previous_generation ::
  "host \<Rightarrow> string \<Rightarrow> string \<times> fs_node \<Rightarrow> (error + (string \<times> int) option) \<times> filesystem
     \<Rightarrow> (error + (string \<times> int) option) \<times> filesystem" where
  "previous_generation host current = (\<lambda>(name, node) (result, fs).
     case result of
       Inl e \<Rightarrow> (Inl e, fs)
     | Inr previous \<Rightarrow>
         (case node of
            FDir _ mtime \<Rightarrow>
              if name = current then (Inr previous, fs)
              else (case os_Sync host fs of
                      (Some e, fs') \<Rightarrow> (Inl e, fs')
                    | (None, fs') \<Rightarrow>
                        (Inr (case previous of
                           None \<Rightarrow> Some (name, mtime)
                         | Some (_, t) \<Rightarrow> if mtime > t then Some (name, mtime) else previous), fs'))
          | _ \<Rightarrow> (Inr previous, fs)))"

definition stale_generation :: "string \<Rightarrow> (string \<times> int) option \<Rightarrow> string \<times> fs_node \<Rightarrow> bool" where
  "stale_generation current previous = (\<lambda>(name, node).
     is_dir_node node \<and> name \<noteq> current \<and> (case previous of None \<Rightarrow> True | Some (p, _) \<Rightarrow> name \<noteq> p))"

definition cleanup_generations ::
  "host \<Rightarrow> string \<Rightarrow> string \<times> string \<Rightarrow> filesystem \<Rightarrow> error option \<times> filesystem" where
  "cleanup_generations host secretDir = (\<lambda>(pod, current) fs.
     let root = filepath_Join [secretDir, pod, ''identity-generations'']
     in case read_entries host root fs of
          (Inl e, fs1) \<Rightarrow> (Some e, fs1)
        | (Inr entries, fs1) \<Rightarrow>
            (case fold (previous_generation host current) entries (Inr None, fs1) of
               (Inl e, fs2) \<Rightarrow> (Some e, fs2)
             | (Inr previous, fs2) \<Rightarrow>
                 fold (os_each (\<lambda>(name, node) fs.
                     if stale_generation current previous (name, node) then os_RemoveAll host (filepath_Join [root, name]) fs
                     else (None, fs))) entries (None, fs2)))"

definition cleanupIdentityGenerations ::
  "host \<Rightarrow> string \<Rightarrow> (string \<times> string) list \<Rightarrow> filesystem \<Rightarrow> error option \<times> filesystem" where
  "cleanupIdentityGenerations host secretDir desired fs =
     fold (os_each (cleanup_generations host secretDir)) desired (None, fs)"

section \<open>What a reader sees\<close>

text \<open>The files and links, without the directories; the names under which Podmin stages files are not live.\<close>

definition files :: "filesystem \<Rightarrow> string \<Rightarrow> fs_node option" where
  "files fs p = (case map_of (fs_nodes fs) p of Some (FDir _ _) \<Rightarrow> None | n \<Rightarrow> n)"

definition is_temporary :: "string \<Rightarrow> bool" where
  "is_temporary p \<longleftrightarrow> HasPrefix (filepath_Base p) ''.podmin-''"

definition live :: "filesystem \<Rightarrow> string \<Rightarrow> fs_node option" where
  "live fs p = (if is_temporary p then None else files fs p)"

text \<open>
  The random part of a temporary name is a decimal number, and a call that fails for another
  reason does not report that the file does not exist.
\<close>

definition host_laws :: "host \<Rightarrow> bool" where
  "host_laws host \<longleftrightarrow> (\<forall>n. set (h_temp host n) \<subseteq> set ''0123456789'') \<and>
     (\<forall>n e. h_fault host n = Some e \<longrightarrow> \<not> errors_Is e os_ErrNotExist)"

abbreviation node_file :: "(string \<times> fs_node) list \<Rightarrow> string \<Rightarrow> fs_node option" where
  "node_file nodes \<equiv> files \<lparr>fs_nodes = nodes, fs_calls = 0\<rparr>"

lemma files_nodes: "files fs = node_file (fs_nodes fs)"
  by (simp add: fun_eq_iff files_def)

lemma files_Some: "files fs p = Some n \<longleftrightarrow> map_of (fs_nodes fs) p = Some n \<and> \<not> is_dir_node n"
  by (auto simp: files_def is_dir_node_def split: option.splits fs_node.splits)

lemma files_None: "files fs p = None \<longleftrightarrow> (\<forall>n. map_of (fs_nodes fs) p = Some n \<longrightarrow> is_dir_node n)"
  by (auto simp: files_def is_dir_node_def split: option.splits fs_node.splits)

lemma is_dir_node_simps [simp]: "is_dir_node (FDir m t)" "\<not> is_dir_node (FFile b m)" "\<not> is_dir_node (FLink l)"
  by (simp_all add: is_dir_node_def)

lemma files_calls [simp]: "files (fs\<lparr>fs_calls := n\<rparr>) = files fs" "files \<lparr>fs_nodes = nodes, fs_calls = Suc n\<rparr> = node_file nodes"
  by (simp_all add: files_def fun_eq_iff)

lemma fs_call_cases:
  assumes "fs_call host f fs = (e, fs')"
  obtains (failed) err where "e = Some err" "fs' = fs\<lparr>fs_calls := Suc (fs_calls fs)\<rparr>"
  | (worked) nodes where "e = None" "f (fs_nodes fs) = Inr nodes" "fs' = \<lparr>fs_nodes = nodes, fs_calls = Suc (fs_calls fs)\<rparr>"
proof (cases "h_fault host (fs_calls fs)")
  case None
  then show thesis using assms that by (cases "f (fs_nodes fs)") (auto simp: fs_call_def)
next
  case (Some err)
  then show thesis using assms that(1)[of err] by (simp add: fs_call_def)
qed

text \<open>A call that fails changes nothing, and the file view of one that works is that of its nodes.\<close>

lemma fs_call_files:
  assumes "fs_call host f fs = (e, fs')" and "\<And>nodes. f (fs_nodes fs) = Inr nodes \<Longrightarrow> node_file nodes p = files fs p"
  shows "files fs' p = files fs p"
  using assms(1) by (cases rule: fs_call_cases) (auto simp: assms(2))

lemma node_file_update: "node_file (AList.update q n nodes) p =
    (if p = q then (case n of FDir _ _ \<Rightarrow> None | _ \<Rightarrow> Some n) else node_file nodes p)"
  by (auto simp: files_def update_conv' split: fs_node.splits)

lemma node_file_delete: "node_file (AList.delete q nodes) p = (if p = q then None else node_file nodes p)"
  by (auto simp: files_def delete_conv')

lemma files_dir: "map_of (fs_nodes fs) q = Some (FDir m t) \<Longrightarrow> files fs q = None"
  "map_of (fs_nodes fs) q = None \<Longrightarrow> files fs q = None"
  by (simp_all add: files_def)

lemma node_file_touch [simp]: "node_file (touch now q nodes) = node_file nodes"
  by (auto simp: fun_eq_iff touch_def node_file_update files_dir split: option.splits fs_node.splits)

lemma node_file_mkdir: "mkdir_step mode now q nodes = Inr nodes' \<Longrightarrow> node_file nodes' = node_file nodes"
  by (auto simp: fun_eq_iff mkdir_step_def node_file_update files_dir split: option.splits fs_node.splits)

lemma node_file_mkdirs: "fold_res (mkdir_step mode now) ps nodes = Inr nodes' \<Longrightarrow> node_file nodes' = node_file nodes"
proof (induction ps arbitrary: nodes)
  case (Cons q ps)
  from Cons.prems obtain t where "mkdir_step mode now q nodes = Inr t" "fold_res (mkdir_step mode now) ps t = Inr nodes'"
    by (rule fold_res_ConsE)
  with Cons.IH node_file_mkdir show ?case by metis
qed simp

section \<open>The calls\<close>

lemma MkdirAll_files:
  assumes "os_MkdirAll host path mode fs = (e, fs')"
  shows "files fs' = files fs" and "e = None \<Longrightarrow> files fs path = None"
proof -
  have "files fs' p = files fs p" for p
    using assms unfolding os_MkdirAll_def
    by (rule fs_call_files) (auto simp: files_nodes[of fs] dest: node_file_mkdirs split: option.splits fs_node.splits)
  then show "files fs' = files fs" by blast
  show "e = None \<Longrightarrow> files fs path = None"
    using assms unfolding os_MkdirAll_def
    by (auto elim!: fs_call_cases simp: files_def split: option.splits fs_node.splits)
qed

lemma Chmod_files:
  assumes "os_Chmod host path mode fs = (e, fs')"
  shows "files fs path = None \<Longrightarrow> files fs' = files fs"
    and "files fs path = Some (FFile body m) \<Longrightarrow>
      files fs' p = (if p = path \<and> e = None then Some (FFile body mode) else files fs p)"
proof -
  note call = assms[unfolded os_Chmod_def]
  show "files fs' = files fs" if "files fs path = None"
    using call by (cases rule: fs_call_cases)
      (use that in \<open>auto simp: fun_eq_iff node_file_update files_None files_dir files_nodes[symmetric] split: option.splits fs_node.splits\<close>)
  show "files fs' p = (if p = path \<and> e = None then Some (FFile body mode) else files fs p)"
    if "files fs path = Some (FFile body m)"
    using call by (cases rule: fs_call_cases) (use that[unfolded files_Some] in \<open>auto simp: node_file_update files_nodes[symmetric]\<close>)
qed

lemma Write_files:
  assumes "os_Write host path body fs = (e, fs')" and "files fs path = Some (FFile old m)"
  shows "files fs' p = (if p = path \<and> e = None then Some (FFile body m) else files fs p)"
  using assms(1)[unfolded os_Write_def]
  by (cases rule: fs_call_cases) (use assms(2)[unfolded files_Some] in \<open>auto simp: node_file_update files_nodes[symmetric]\<close>)

lemma Sync_files [simp]: "os_Sync host fs = (e, fs') \<Longrightarrow> files fs' = files fs"
  unfolding os_Sync_def by (auto elim!: fs_call_cases simp: files_nodes[of fs])

lemma CreateFile_files:
  assumes "os_CreateFile host path fs = (e, fs')"
  shows "files fs' p = (if p = path \<and> e = None then Some (FFile [] 384) else files fs p)" "e = None \<Longrightarrow> files fs path = None"
  using assms unfolding os_CreateFile_def
  by (auto elim!: fs_call_cases simp: node_file_update files_nodes[of fs] files_dir split: if_splits)

lemma Symlink_files:
  assumes "os_Symlink host target path fs = (e, fs')"
  shows "files fs' p = (if p = path \<and> e = None then Some (FLink target) else files fs p)" "e = None \<Longrightarrow> files fs path = None"
  using assms unfolding os_Symlink_def
  by (auto elim!: fs_call_cases simp: node_file_update files_nodes[of fs] files_dir split: if_splits)

lemma Remove_files:
  assumes "os_Remove host path fs = (e, fs')"
  shows "files fs' p = (if p = path \<and> e = None then None else files fs p)"
  using assms unfolding os_Remove_def
  by (auto elim!: fs_call_cases simp: node_file_delete files_nodes[of fs] split: if_splits)

lemma Rename_files:
  assumes "os_Rename host old new fs = (e, fs')" and "files fs old = Some n" and "old \<noteq> new"
  shows "files fs' p = (if e \<noteq> None then files fs p else if p = new then Some n else if p = old then None else files fs p)"
proof -
  from assms(2) have old: "map_of (fs_nodes fs) old = Some n" "\<not> is_dir_node n" by (simp_all add: files_Some)
  show ?thesis
    using assms(1)[unfolded os_Rename_def]
  proof (cases rule: fs_call_cases)
    case (worked nodes)
    then have "nodes = AList.update new n (AList.delete old
        (touch (h_now host (fs_calls fs)) old (touch (h_now host (fs_calls fs)) new (fs_nodes fs))))"
      using old by (auto simp: Let_def split: if_splits)
    with worked old(2) show ?thesis
      by (simp add: node_file_update node_file_delete files_nodes[of fs]) (auto simp: is_dir_node_def split: fs_node.splits)
  qed simp
qed

lemma node_file_filter: "node_file (filter (\<lambda>(p, _). P p) nodes) p = (if P p then node_file nodes p else None)"
  by (induction nodes) (auto simp: files_def)

lemma RemoveAll_files:
  assumes "os_RemoveAll host path fs = (e, fs')"
  shows "files fs' p = (if e = None \<and> (p = path \<or> HasPrefix p (path @ ''/'')) then None else files fs p)"
  using assms unfolding os_RemoveAll_def
  by (cases rule: fs_call_cases) (auto simp: node_file_filter files_nodes[of fs])

lemma ReadDir_files: "os_ReadDir host path fs = (r, fs') \<Longrightarrow> files fs' = files fs"
  by (auto simp: os_ReadDir_def files_nodes[of fs] elim!: fs_call_cases split: prod.splits option.splits)

end
