(* ===== verification/Workload_Ca.thy ===== *)
theory Workload_Ca
  imports Cloud_Store Manifest_Ids
begin

text \<open>
  The workload certificate authority, \<open>src/internal/agent/workload/workload.go\<close>: the durable
  document with the public CA generations, its validation, rotation and publication, and the
  leaves that are issued. Times are nanoseconds. Certificates, keys, PEM, the calendar and the
  JSON codec are libraries and arguments of the model; a parsed certificate is the record of
  what the code asks of it.
\<close>

section \<open>Types\<close>

definition time_Second :: int where
  "time_Second = 1000000000"

definition time_Minute :: int where
  "time_Minute = 60 * time_Second"

definition time_Hour :: int where
  "time_Hour = 60 * time_Minute"

definition stateVersion :: int where
  "stateVersion = 1"

definition maxStateSize :: nat where
  "maxStateSize = 32 * 1024"

definition maxCASRetries :: nat where
  "maxCASRetries = 8"

definition clockSkew :: int where
  "clockSkew = 5 * time_Minute"

definition activationLag :: int where
  "activationLag = 10 * time_Minute"

definition retention :: int where
  "retention = 30 * 24 * time_Hour"

definition CAStateKey :: string where
  "CAStateKey = ''identity/ca.json''"

text \<open>The public key is present when it is an Ed25519 key.\<close>

record Certificate =
  x_PublicKey :: "string option"
  x_IsCA :: bool
  x_BasicConstraintsValid :: bool
  x_KeyUsageCertSign :: bool
  x_NotBefore :: int
  x_NotAfter :: int
  x_SelfSigned :: bool

datatype key_usage = KeyUsageDigitalSignature | KeyUsageCertSign | KeyUsageCRLSign

datatype ext_key_usage = ExtKeyUsageClientAuth | ExtKeyUsageServerAuth

record CertificateTemplate =
  t_SerialNumber :: nat
  t_CommonName :: string
  t_NotBefore :: int
  t_NotAfter :: int
  t_KeyUsage :: "key_usage list"
  t_ExtKeyUsage :: "ext_key_usage list"
  t_IsCA :: bool
  t_URIs :: "string list"
  t_DNSNames :: "string list"

record Material =
  m_Certificate :: string
  m_PrivateKey :: string
  m_CABundle :: string
  m_NotAfter :: int
  m_SPIFFEID :: string

record certificateRecord =
  cr_Generation :: "64 word"
  cr_DER :: string
  cr_PublishedAt :: "int option"
  cr_ActivateAt :: "int option"
  cr_RetiredAt :: "int option"

record caState =
  ca_Version :: int
  ca_Current :: "64 word"
  ca_Certs :: "certificateRecord list"

text \<open>The authority; \<open>a_publication\<close> is the key of the published bundle when publication is configured.\<close>

record Authority =
  a_cluster :: string
  a_key :: string
  a_publication :: "string option"
  a_ca :: "Certificate option"
  a_bundle :: string
  a_state :: string
  a_revision :: "64 word"

text \<open>
  \<open>CreateCertificate\<close> takes the template, the parent (none for a self-signed certificate), the
  public key and the signing key. The decoder returns the document and whether nothing
  follows it.
\<close>

record workload_ops =
  wo_Public :: "string \<Rightarrow> string"
  wo_CreateCertificate :: "CertificateTemplate \<Rightarrow> Certificate option \<Rightarrow> string \<Rightarrow> string \<Rightarrow> error + string"
  wo_ParseCertificate :: "string \<Rightarrow> error + Certificate"
  wo_MarshalPKCS8 :: "string \<Rightarrow> error + string"
  wo_pem :: "string \<Rightarrow> string \<Rightarrow> string"
  wo_ParseURL :: "string \<Rightarrow> error + string"
  wo_AddYear :: "int \<Rightarrow> int"
  wo_decodeState :: "string \<Rightarrow> error + caState \<times> bool"
  wo_marshalState :: "caState \<Rightarrow> error + string"
  wo_base64 :: "string \<Rightarrow> error + string"

section \<open>Configuration\<close>

definition workload_New :: "string \<Rightarrow> string \<Rightarrow> bool \<Rightarrow> error + Authority" where
  "workload_New cluster key storage =
     (if \<not> ValidID cluster \<or> length key \<noteq> 32 \<or> \<not> storage
      then Inl (errors_New ''valid cluster, 32-byte workload CA key, and storage are required'')
      else Inr \<lparr>a_cluster = cluster, a_key = key, a_publication = None, a_ca = None, a_bundle = [], a_state = [],
                a_revision = 0\<rparr>)"

definition ConfigurePublication :: "bool \<Rightarrow> string \<Rightarrow> Authority \<Rightarrow> error option \<times> Authority" where
  "ConfigurePublication storage key a =
     (if \<not> storage \<or> key = [] then (Some (errors_New ''publication storage and key are required''), a)
      else (None, a\<lparr>a_publication := Some key\<rparr>))"

definition DecodeKey :: "workload_ops \<Rightarrow> string \<Rightarrow> error + string" where
  "DecodeKey ops encoded =
     (case wo_base64 ops (TrimSpace encoded) of
        Inl _ \<Rightarrow> Inl (errors_New ''workload CA key must be base64-encoded 32 bytes'')
      | Inr key \<Rightarrow>
          if length key \<noteq> 32 then Inl (errors_New ''workload CA key must be base64-encoded 32 bytes'') else Inr key)"

definition workload_Revision :: "Authority \<Rightarrow> 64 word" where
  "workload_Revision a = a_revision a"

section \<open>The durable document\<close>

definition newRecord :: "workload_ops \<Rightarrow> Authority \<Rightarrow> 64 word \<Rightarrow> int \<Rightarrow> error + certificateRecord" where
  "newRecord ops a generation now =
     (case wo_CreateCertificate ops
             \<lparr>t_SerialNumber = unat generation,
              t_CommonName = a_cluster a @ '' workload CA '' @ dec_nat (unat generation),
              t_NotBefore = now - 5 * time_Minute, t_NotAfter = wo_AddYear ops now,
              t_KeyUsage = [KeyUsageDigitalSignature, KeyUsageCertSign, KeyUsageCRLSign], t_ExtKeyUsage = [],
              t_IsCA = True, t_URIs = [], t_DNSNames = []\<rparr> None (wo_Public ops (a_key a)) (a_key a) of
        Inl e \<Rightarrow> Inl (Wrapf ''create CA certificate'' [] e)
      | Inr der \<Rightarrow>
          Inr \<lparr>cr_Generation = generation, cr_DER = der, cr_PublishedAt = None, cr_ActivateAt = None, cr_RetiredAt = None\<rparr>)"

definition bad_certificate :: "workload_ops \<Rightarrow> Authority \<Rightarrow> string \<Rightarrow> bool" where
  "bad_certificate ops a der =
     (case wo_ParseCertificate ops der of
        Inl _ \<Rightarrow> True
      | Inr certificate \<Rightarrow>
          x_PublicKey certificate \<noteq> Some (wo_Public ops (a_key a)) \<or> \<not> x_IsCA certificate
          \<or> \<not> x_BasicConstraintsValid certificate \<or> \<not> x_KeyUsageCertSign certificate
          \<or> \<not> x_NotAfter certificate > x_NotBefore certificate \<or> \<not> x_SelfSigned certificate)"

definition parsed :: "workload_ops \<Rightarrow> certificateRecord \<Rightarrow> Certificate" where
  "parsed ops r = projr (wo_ParseCertificate ops (cr_DER r))"

text \<open>The lifecycle of a record: current, pending or previous.\<close>

definition check_lifecycle :: "workload_ops \<Rightarrow> int \<Rightarrow> bool \<Rightarrow> 64 word \<Rightarrow> certificateRecord \<Rightarrow> error option" where
  "check_lifecycle ops now requireCurrentValid current r =
     (let certificate = parsed ops r
      in if cr_Generation r = current
         then (if cr_RetiredAt r \<noteq> None \<or> cr_ActivateAt r \<noteq> None \<or> now + clockSkew < x_NotBefore certificate
                  \<or> requireCurrentValid \<and> (now < x_NotBefore certificate \<or> \<not> now < x_NotAfter certificate)
               then Some (errors_New ''current CA is not usable for issuing'') else None)
         else case cr_ActivateAt r of
                Some activate \<Rightarrow>
                  let expectedActivation =
                        (case cr_PublishedAt r of
                           Some published \<Rightarrow> published + activationLag
                         | None \<Rightarrow> x_NotBefore certificate + (clockSkew + activationLag))
                  in if cr_Generation r < current \<or> activate \<noteq> expectedActivation \<or> activate > x_NotAfter certificate
                        \<or> (case cr_PublishedAt r of Some published \<Rightarrow> published < x_NotBefore certificate | None \<Rightarrow> False)
                     then Some (errors_New ''pending CA activation is invalid'') else None
              | None \<Rightarrow>
                  (case cr_RetiredAt r of
                     None \<Rightarrow> Some (errors_New ''previous CA retirement is invalid'')
                   | Some retired \<Rightarrow>
                       if cr_Generation r > current \<or> retired > now + clockSkew
                       then Some (errors_New ''previous CA retirement is invalid'') else None))"

text \<open>One record: the generations before it, the parsed certificates and whether the current one was found.\<close>

definition check_record ::
  "workload_ops \<Rightarrow> Authority \<Rightarrow> int \<Rightarrow> bool \<Rightarrow> 64 word \<Rightarrow> certificateRecord
     \<Rightarrow> 64 word list \<times> Certificate list \<times> bool \<Rightarrow> error + 64 word list \<times> Certificate list \<times> bool" where
  "check_record ops a now requireCurrentValid current r = (\<lambda>(seen, certificates, currentFound).
     if cr_Generation r = 0 \<or> cr_Generation r \<in> set seen \<or> (seen \<noteq> [] \<and> last seen \<ge> cr_Generation r)
        \<or> length (cr_DER r) = 0 \<or> length (cr_DER r) > 8 * 1024
     then Inl (errors_New ''CA certificate record is invalid'')
     else if bad_certificate ops a (cr_DER r)
     then Inl (errors_New ''CA certificate is invalid or does not match its generation'')
     else if (cr_ActivateAt r \<noteq> None \<and> cr_RetiredAt r \<noteq> None) \<or> (cr_PublishedAt r \<noteq> None \<and> cr_ActivateAt r = None)
     then Inl (errors_New ''CA certificate lifecycle is invalid'')
     else case check_lifecycle ops now requireCurrentValid current r of
            Some e \<Rightarrow> Inl e
          | None \<Rightarrow> Inr (seen @ [cr_Generation r], certificates @ [parsed ops r],
                        currentFound \<or> cr_Generation r = current))"

definition check_state ::
  "workload_ops \<Rightarrow> Authority \<Rightarrow> int \<Rightarrow> bool \<Rightarrow> caState \<Rightarrow> error + Certificate list" where
  "check_state ops a now requireCurrentValid state =
     (if ca_Version state \<noteq> stateVersion \<or> ca_Current state = 0 \<or> length (ca_Certs state) = 0 \<or> length (ca_Certs state) > 2
      then Inl (errors_New ''CA state schema is invalid'')
      else case fold_res (check_record ops a now requireCurrentValid (ca_Current state)) (ca_Certs state) ([], [], False) of
             Inl e \<Rightarrow> Inl e
           | Inr (_, certificates, currentFound) \<Rightarrow>
               if \<not> currentFound then Inl (errors_New ''current CA generation is missing'') else Inr certificates)"

definition validateState ::
  "workload_ops \<Rightarrow> Authority \<Rightarrow> string \<Rightarrow> int \<Rightarrow> bool \<Rightarrow> error + caState \<times> Certificate list" where
  "validateState ops a body now requireCurrentValid =
     (if length body = 0 \<or> length body > maxStateSize then Inl (errors_New ''CA state has invalid size'')
      else case wo_decodeState ops body of
             Inl e \<Rightarrow> Inl (Wrapf ''decode CA state'' [] e)
           | Inr (state, atEnd) \<Rightarrow>
               if \<not> atEnd then Inl (errors_New ''CA state contains trailing data'')
               else case check_state ops a now requireCurrentValid state of
                      Inl e \<Rightarrow> Inl e
                    | Inr certificates \<Rightarrow> Inr (state, certificates))"

definition encodeState :: "workload_ops \<Rightarrow> caState \<Rightarrow> error + string" where
  "encodeState ops state =
     (case wo_marshalState ops state of
        Inl _ \<Rightarrow> Inl (errors_New ''encode CA state'')
      | Inr encoded \<Rightarrow> if length encoded > maxStateSize then Inl (errors_New ''encode CA state'') else Inr encoded)"

text \<open>The first position with a property, or \<open>-1\<close>.\<close>

fun first_index :: "('a \<Rightarrow> bool) \<Rightarrow> 'a list \<Rightarrow> int" where
  "first_index P [] = -1"
| "first_index P (x # xs) = (if P x then 0 else let i = first_index P xs in if i < 0 then -1 else i + 1)"

definition currentIndex :: "caState \<Rightarrow> int" where
  "currentIndex state = first_index (\<lambda>r. cr_Generation r = ca_Current state) (ca_Certs state)"

definition pendingIndex :: "caState \<Rightarrow> int" where
  "pendingIndex state = first_index (\<lambda>r. cr_ActivateAt r \<noteq> None) (ca_Certs state)"

definition promoteState :: "int \<Rightarrow> int \<Rightarrow> caState \<Rightarrow> caState" where
  "promoteState pending now state =
     (let certs = ca_Certs state; i = nat (currentIndex state); p = nat pending;
          retired = certs[i := (certs ! i)\<lparr>cr_RetiredAt := Some now\<rparr>];
          promoted = retired[p := (retired ! p)\<lparr>cr_PublishedAt := None, cr_ActivateAt := None\<rparr>]
      in state\<lparr>ca_Certs := promoted, ca_Current := cr_Generation (promoted ! p)\<rparr>)"

definition prunable :: "64 word \<Rightarrow> int \<Rightarrow> certificateRecord \<Rightarrow> bool" where
  "prunable current now r \<longleftrightarrow> cr_Generation r \<noteq> current \<and>
     (case cr_RetiredAt r of Some retired \<Rightarrow> \<not> retired + (retention + clockSkew) > now | None \<Rightarrow> False)"

definition pruneState :: "int \<Rightarrow> caState \<Rightarrow> caState \<times> bool" where
  "pruneState now state =
     (state\<lparr>ca_Certs := filter (\<lambda>r. \<not> prunable (ca_Current state) now r) (ca_Certs state)\<rparr>,
      list_ex (prunable (ca_Current state) now) (ca_Certs state))"

definition bundleForState :: "workload_ops \<Rightarrow> caState \<Rightarrow> string" where
  "bundleForState ops state = concat (map (\<lambda>r. wo_pem ops ''CERTIFICATE'' (cr_DER r)) (ca_Certs state))"

section \<open>Publication\<close>

fun publish_attempts :: "cloud_store \<Rightarrow> string \<Rightarrow> string \<Rightarrow> nat \<Rightarrow> store_state \<Rightarrow> error option \<times> store_state" where
  "publish_attempts cl key bundle 0 st = (Some (errors_New ''published CA bundle changed too frequently''), st)"
| "publish_attempts cl key bundle (Suc n) st =
     (let (got, st1) = cloud_Get cl key st;
          put = (\<lambda>etag. case cloud_PutIfMatch cl key bundle etag st1 of
                   (None, st2) \<Rightarrow> (None, st2)
                 | (Some e, st2) \<Rightarrow>
                     if errors_Is e ErrStoragePrecondition then publish_attempts cl key bundle n st2
                     else (Some (Wrapf ''publish CA bundle'' [] e), st2))
      in case got of
           Inl e \<Rightarrow>
             if errors_Is e ErrStorageNotFound then put []
             else (Some (Wrapf ''load published CA bundle'' [] e), st1)
         | Inr (current, etag) \<Rightarrow> if current = bundle then (None, st1) else put etag)"

definition publishBundle :: "cloud_store \<Rightarrow> string \<Rightarrow> string \<Rightarrow> store_state \<Rightarrow> error option \<times> store_state" where
  "publishBundle cl key bundle st = publish_attempts cl key bundle maxCASRetries st"

definition workload_Publish :: "cloud_store \<Rightarrow> Authority \<Rightarrow> store_state \<Rightarrow> error option \<times> store_state" where
  "workload_Publish cl a st =
     (case a_publication a of
        None \<Rightarrow> (None, st)
      | Some key \<Rightarrow>
          if length (a_bundle a) = 0 then (Some (errors_New ''CA state has not been synchronized''), st)
          else publishBundle cl key (a_bundle a) st)"

definition publicationReady ::
  "workload_ops \<Rightarrow> cloud_store \<Rightarrow> Authority \<Rightarrow> caState \<Rightarrow> store_state \<Rightarrow> (error + bool) \<times> store_state" where
  "publicationReady ops cl a state st =
     (case a_publication a of
        None \<Rightarrow> (Inr True, st)
      | Some key \<Rightarrow>
          let (got, st1) = cloud_Get cl key st
          in case got of
               Inl e \<Rightarrow>
                 (if errors_Is e ErrStorageNotFound then Inr False else Inl (Wrapf ''load published CA bundle'' [] e), st1)
             | Inr (published, _) \<Rightarrow> (Inr (published = bundleForState ops state), st1))"

section \<open>Rotation\<close>

text \<open>The pending record of a new generation: it becomes active some time after it is valid.\<close>

definition pending_record :: "workload_ops \<Rightarrow> certificateRecord \<Rightarrow> certificateRecord" where
  "pending_record ops r = r\<lparr>cr_ActivateAt := Some (x_NotBefore (parsed ops r) + (clockSkew + activationLag))\<rparr>"

text \<open>
  The current certificate has expired: a usable pending generation, made when there is none,
  is published and promoted.
\<close>

definition expired_candidate :: "workload_ops \<Rightarrow> Authority \<Rightarrow> int \<Rightarrow> caState \<Rightarrow> error + caState \<times> int \<times> bool" where
  "expired_candidate ops a now state =
     (let current = ca_Certs state ! nat (currentIndex state);
          pending = pendingIndex state;
          certificate = parsed ops (ca_Certs state ! nat pending)
      in if pending < 0 \<or> now < x_NotBefore certificate \<or> \<not> now < x_NotAfter certificate
         then (case newRecord ops a (cr_Generation current + 1) now of
                 Inl e \<Rightarrow> Inl e
               | Inr next \<Rightarrow> Inr (state\<lparr>ca_Certs := [current, pending_record ops next]\<rparr>, 1, True))
         else Inr (state, pending, False))"

definition ensure_expired ::
  "workload_ops \<Rightarrow> cloud_store \<Rightarrow> Authority \<Rightarrow> int \<Rightarrow> caState \<Rightarrow> store_state
     \<Rightarrow> (error + caState \<times> bool) \<times> store_state" where
  "ensure_expired ops cl a now state0 st =
     (case expired_candidate ops a now state0 of
        Inl e \<Rightarrow> (Inl e, st)
      | Inr (state, pending, created) \<Rightarrow>
          (case (case a_publication a of
                   None \<Rightarrow> (None, st)
                 | Some key \<Rightarrow> publishBundle cl key (bundleForState ops state) st) of
             (Some e, st1) \<Rightarrow> (Inl e, st1)
           | (None, st1) \<Rightarrow>
               (case publicationReady ops cl a state st1 of
                  (Inl e, st2) \<Rightarrow> (Inl e, st2)
                | (Inr ready, st2) \<Rightarrow>
                    (Inr (if ready then (promoteState pending now state, True) else (state, created)), st2))))"

definition publish_pending :: "int \<Rightarrow> certificateRecord \<Rightarrow> certificateRecord" where
  "publish_pending now r = r\<lparr>cr_PublishedAt := Some now, cr_ActivateAt := Some (now + activationLag)\<rparr>"

definition ensure_pending ::
  "workload_ops \<Rightarrow> cloud_store \<Rightarrow> Authority \<Rightarrow> int \<Rightarrow> caState \<Rightarrow> store_state
     \<Rightarrow> (error + caState \<times> bool) \<times> store_state" where
  "ensure_pending ops cl a now state0 st =
     (let position = pendingIndex state0; i = nat position
      in case publicationReady ops cl a state0 st of
           (Inl e, st1) \<Rightarrow> (Inl e, st1)
         | (Inr ready, st1) \<Rightarrow>
             let publishes = (a_publication a \<noteq> None \<and> ready \<and> cr_PublishedAt (ca_Certs state0 ! i) = None);
                 state = (if publishes then state0\<lparr>ca_Certs := (ca_Certs state0)[i := publish_pending now (ca_Certs state0 ! i)]\<rparr>
                          else state0);
                 activates = (ready \<and> (case cr_ActivateAt (ca_Certs state ! i) of
                                         Some activate \<Rightarrow> \<not> now < activate | None \<Rightarrow> False))
             in (Inr (if activates then (promoteState position now state, True) else (state, publishes)), st1))"

definition ensure_rotate :: "workload_ops \<Rightarrow> Authority \<Rightarrow> int \<Rightarrow> caState \<Rightarrow> error + caState \<times> bool" where
  "ensure_rotate ops a now state =
     (let current = ca_Certs state ! nat (currentIndex state)
      in if \<not> x_NotAfter (parsed ops current) > now + retention
         then (case newRecord ops a (cr_Generation current + 1) now of
                 Inl e \<Rightarrow> Inl e
               | Inr next \<Rightarrow>
                   (case wo_ParseCertificate ops (cr_DER next) of
                      Inl e \<Rightarrow> Inl e
                    | Inr _ \<Rightarrow> Inr (state\<lparr>ca_Certs := ca_Certs state @ [pending_record ops next]\<rparr>, True)))
         else Inr (state, False))"

text \<open>The document after one round, and whether it changed.\<close>

definition ensure_update ::
  "workload_ops \<Rightarrow> cloud_store \<Rightarrow> Authority \<Rightarrow> int \<Rightarrow> caState \<Rightarrow> store_state
     \<Rightarrow> (error + caState \<times> bool) \<times> store_state" where
  "ensure_update ops cl a now state0 st =
     (let (state, pruned) = pruneState now state0;
          certificate = parsed ops (ca_Certs state ! nat (currentIndex state));
          (result, st') =
            (if \<not> now < x_NotAfter certificate then ensure_expired ops cl a now state st
             else if pendingIndex state \<ge> 0 then ensure_pending ops cl a now state st
             else (ensure_rotate ops a now state, st))
      in (case result of Inl e \<Rightarrow> Inl e | Inr (state', changed) \<Rightarrow> Inr (state', pruned \<or> changed), st'))"

record ca_stores =
  cs_storage :: store_state
  cs_publication :: store_state

text \<open>One attempt: the result, or \<^term>\<open>None\<close> when another commit came first.\<close>

definition put_state ::
  "workload_ops \<Rightarrow> cloud_store \<Rightarrow> caState \<Rightarrow> string \<Rightarrow> ca_stores \<Rightarrow> error option option \<times> ca_stores" where
  "put_state ops cl state etag s =
     (case encodeState ops state of
        Inl e \<Rightarrow> (Some (Some e), s)
      | Inr encoded \<Rightarrow>
          (case cloud_PutIfMatch cl CAStateKey encoded etag (cs_storage s) of
             (None, st) \<Rightarrow> (Some None, s\<lparr>cs_storage := st\<rparr>)
           | (Some e, st) \<Rightarrow>
               (if errors_Is e ErrStoragePrecondition then None else Some (Some e), s\<lparr>cs_storage := st\<rparr>)))"

definition ensure_attempt ::
  "workload_ops \<Rightarrow> cloud_store \<Rightarrow> cloud_store \<Rightarrow> Authority \<Rightarrow> int \<Rightarrow> ca_stores \<Rightarrow> error option option \<times> ca_stores" where
  "ensure_attempt ops cl pub a now s =
     (let (got, st1) = cloud_Get cl CAStateKey (cs_storage s); s1 = s\<lparr>cs_storage := st1\<rparr>
      in case got of
           Inl e \<Rightarrow>
             if errors_Is e ErrStorageNotFound
             then (case newRecord ops a 1 now of
                     Inl e \<Rightarrow> (Some (Some e), s1)
                   | Inr r \<Rightarrow> put_state ops cl \<lparr>ca_Version = stateVersion, ca_Current = 1, ca_Certs = [r]\<rparr> [] s1)
             else (Some (Some (Wrapf ''load CA state'' [] e)), s1)
         | Inr (body, etag) \<Rightarrow>
             (case validateState ops a body now False of
                Inl e \<Rightarrow> (Some (Some e), s1)
              | Inr (state, _) \<Rightarrow>
                  (case ensure_update ops pub a now state (cs_publication s1) of
                     (Inl e, st2) \<Rightarrow> (Some (Some e), s1\<lparr>cs_publication := st2\<rparr>)
                   | (Inr (state', changed), st2) \<Rightarrow>
                       let s2 = s1\<lparr>cs_publication := st2\<rparr>
                       in if \<not> changed then (Some None, s2) else put_state ops cl state' etag s2)))"

fun ensure_attempts ::
  "workload_ops \<Rightarrow> cloud_store \<Rightarrow> cloud_store \<Rightarrow> Authority \<Rightarrow> int \<Rightarrow> nat \<Rightarrow> ca_stores \<Rightarrow> error option \<times> ca_stores" where
  "ensure_attempts ops cl pub a now 0 s = (Some (errors_New ''CA state changed too frequently''), s)"
| "ensure_attempts ops cl pub a now (Suc n) s =
     (case ensure_attempt ops cl pub a now s of
        (Some result, s') \<Rightarrow> (result, s')
      | (None, s') \<Rightarrow> ensure_attempts ops cl pub a now n s')"

definition Ensure ::
  "workload_ops \<Rightarrow> cloud_store \<Rightarrow> cloud_store \<Rightarrow> Authority \<Rightarrow> int \<Rightarrow> ca_stores \<Rightarrow> error option \<times> ca_stores" where
  "Ensure ops cl pub a now s = ensure_attempts ops cl pub a now maxCASRetries s"

section \<open>Installation and issuing\<close>

definition workload_Sync ::
  "workload_ops \<Rightarrow> cloud_store \<Rightarrow> int \<Rightarrow> Authority \<times> store_state \<Rightarrow> error option \<times> Authority \<times> store_state" where
  "workload_Sync ops cl now = (\<lambda>(a, st).
     let (got, st') = cloud_Get cl CAStateKey st
     in case got of
          Inl e \<Rightarrow> (Some (Wrapf ''load CA state'' [] e), a, st')
        | Inr (body, _) \<Rightarrow>
            (case validateState ops a body now True of
               Inl e \<Rightarrow> (Some e, a, st')
             | Inr (state, certificates) \<Rightarrow>
                 (None, a\<lparr>a_revision := (if a_state a \<noteq> body then a_revision a + 1 else a_revision a),
                          a_state := body, a_ca := Some (certificates ! nat (currentIndex state)),
                          a_bundle := bundleForState ops state\<rparr>, st')))"

definition randomSerial :: "error + string \<Rightarrow> error + nat" where
  "randomSerial bytes =
     (case bytes of
        Inl e \<Rightarrow> Inl (Wrapf ''generate certificate serial'' [] e)
      | Inr b \<Rightarrow>
          let value = foldl (\<lambda>n c. n * 256 + of_char c) 0 (char_of (of_char (hd b) mod 128 :: nat) # tl b)
          in Inr (if value = 0 then 1 else value))"

text \<open>The generated key pair and the random bytes are arguments.\<close>

definition workload_issue ::
  "workload_ops \<Rightarrow> Authority \<Rightarrow> error + string \<times> string \<Rightarrow> error + string \<Rightarrow> string \<Rightarrow> string \<Rightarrow> string list \<Rightarrow> bool \<Rightarrow> int
     \<Rightarrow> error + Material" where
  "workload_issue ops a keys bytes commonName spiffeID dnsNames server now =
     (case keys of
        Inl e \<Rightarrow> Inl (Wrapf ''generate leaf key'' [] e)
      | Inr (publicKey, privateKey) \<Rightarrow>
          (case randomSerial bytes of
             Inl e \<Rightarrow> Inl e
           | Inr serial \<Rightarrow>
               (case wo_ParseURL ops spiffeID of
                  Inl e \<Rightarrow> Inl (Wrapf ''construct SPIFFE ID'' [] e)
                | Inr uri \<Rightarrow>
                    (case a_ca a of
                       None \<Rightarrow> Inl (errors_New ''CA state has not been synchronized'')
                     | Some ca \<Rightarrow>
                         if now < x_NotBefore ca \<or> \<not> now < x_NotAfter ca
                         then Inl (errors_New ''current CA is not currently valid'')
                         else let day = now + 24 * time_Hour;
                                  notAfter = (if x_NotAfter ca < day then x_NotAfter ca else day)
                              in if \<not> notAfter > now then Inl (errors_New ''leaf certificate validity is nonpositive'')
                                 else case wo_CreateCertificate ops
                                        \<lparr>t_SerialNumber = serial, t_CommonName = commonName,
                                         t_NotBefore = now - 5 * time_Minute, t_NotAfter = notAfter,
                                         t_KeyUsage = [KeyUsageDigitalSignature],
                                         t_ExtKeyUsage = ExtKeyUsageClientAuth # (if server then [ExtKeyUsageServerAuth] else []),
                                         t_IsCA = False, t_URIs = [uri], t_DNSNames = dnsNames\<rparr>
                                        (Some ca) publicKey (a_key a) of
                                   Inl e \<Rightarrow> Inl (Wrapf ''create leaf certificate'' [] e)
                                 | Inr der \<Rightarrow>
                                     (case wo_MarshalPKCS8 ops privateKey of
                                        Inl e \<Rightarrow> Inl (Wrapf ''marshal leaf key'' [] e)
                                      | Inr keyDER \<Rightarrow>
                                          Inr \<lparr>m_Certificate = wo_pem ops ''CERTIFICATE'' der,
                                               m_PrivateKey = wo_pem ops ''PRIVATE KEY'' keyDER,
                                               m_CABundle = a_bundle a, m_NotAfter = notAfter, m_SPIFFEID = spiffeID\<rparr>)))))"

definition pod_spiffe :: "string \<Rightarrow> string \<Rightarrow> string \<Rightarrow> string" where
  "pod_spiffe cluster namespace pod = ''spiffe://'' @ cluster @ ''.podmin.internal/ns/'' @ namespace @ ''/pod/'' @ pod"

definition Issue ::
  "workload_ops \<Rightarrow> Authority \<Rightarrow> error + string \<times> string \<Rightarrow> error + string \<Rightarrow> string \<Rightarrow> string \<Rightarrow> string \<Rightarrow> int
     \<Rightarrow> error + Material" where
  "Issue ops a keys bytes namespace pod service now =
     (if \<not> ValidNamespace namespace \<or> \<not> ValidID pod \<or> (service \<noteq> [] \<and> \<not> ValidID service)
      then Inl (errors_New ''namespace, Pod, or Service name is invalid'')
      else let server = (service \<noteq> []);
               serviceNamespace = service @ ''.'' @ namespace;
               dnsNames = (if server then [serviceNamespace @ ''.svc.cluster.local'', serviceNamespace @ ''.svc'', serviceNamespace]
                           else [])
           in workload_issue ops a keys bytes pod (pod_spiffe (a_cluster a) namespace pod) dnsNames server now)"

definition IssueNodeService ::
  "workload_ops \<Rightarrow> Authority \<Rightarrow> error + string \<times> string \<Rightarrow> error + string \<Rightarrow> string \<Rightarrow> string \<Rightarrow> int
     \<Rightarrow> error + Material" where
  "IssueNodeService ops a keys bytes service node now =
     (if \<not> ValidID service \<or> \<not> ValidID node then Inl (errors_New ''service or node name is invalid'')
      else workload_issue ops a keys bytes service
             (''spiffe://'' @ a_cluster a @ ''.podmin.internal/system/'' @ service @ ''/node/'' @ node) [] False now)"

definition NeedsRenewal :: "int \<Rightarrow> int \<Rightarrow> bool" where
  "NeedsRenewal notAfter now \<longleftrightarrow> \<not> notAfter > now + 6 * time_Hour"


section \<open>The shapes of a valid document\<close>

definition record_ok :: "workload_ops \<Rightarrow> Authority \<Rightarrow> certificateRecord \<Rightarrow> bool" where
  "record_ok ops a r \<longleftrightarrow> cr_Generation r \<noteq> 0 \<and> cr_DER r \<noteq> [] \<and> length (cr_DER r) \<le> 8 * 1024 \<and> \<not> bad_certificate ops a (cr_DER r)"

definition current_ok :: "workload_ops \<Rightarrow> Authority \<Rightarrow> int \<Rightarrow> bool \<Rightarrow> 64 word \<Rightarrow> certificateRecord \<Rightarrow> bool" where
  "current_ok ops a now valid g r \<longleftrightarrow> record_ok ops a r \<and> cr_Generation r = g \<and>
     cr_PublishedAt r = None \<and> cr_ActivateAt r = None \<and> cr_RetiredAt r = None \<and>
     x_NotBefore (parsed ops r) \<le> now + clockSkew \<and>
     (valid \<longrightarrow> x_NotBefore (parsed ops r) \<le> now \<and> now < x_NotAfter (parsed ops r))"

definition retired_ok :: "workload_ops \<Rightarrow> Authority \<Rightarrow> int \<Rightarrow> 64 word \<Rightarrow> certificateRecord \<Rightarrow> bool" where
  "retired_ok ops a now g r \<longleftrightarrow> record_ok ops a r \<and> cr_Generation r < g \<and> cr_PublishedAt r = None \<and> cr_ActivateAt r = None \<and>
     (\<exists>t. cr_RetiredAt r = Some t \<and> t \<le> now + clockSkew)"

definition pending_ok :: "workload_ops \<Rightarrow> Authority \<Rightarrow> 64 word \<Rightarrow> certificateRecord \<Rightarrow> bool" where
  "pending_ok ops a g r \<longleftrightarrow> record_ok ops a r \<and> g < cr_Generation r \<and> cr_RetiredAt r = None \<and>
     (\<exists>t. cr_ActivateAt r = Some t \<and> t \<le> x_NotAfter (parsed ops r) \<and>
        (case cr_PublishedAt r of
           None \<Rightarrow> t = x_NotBefore (parsed ops r) + (clockSkew + activationLag)
         | Some p \<Rightarrow> t = p + activationLag \<and> x_NotBefore (parsed ops r) \<le> p))"

lemma check_lifecycle_None:
  assumes "\<not> (cr_ActivateAt r \<noteq> None \<and> cr_RetiredAt r \<noteq> None)" "\<not> (cr_PublishedAt r \<noteq> None \<and> cr_ActivateAt r = None)"
    "record_ok ops a r"
  shows "check_lifecycle ops now valid g r = None \<longleftrightarrow>
    (if cr_Generation r = g then current_ok ops a now valid g r
     else retired_ok ops a now g r \<or> pending_ok ops a g r)"
  using assms
  by (auto simp: check_lifecycle_def current_ok_def retired_ok_def pending_ok_def Let_def split: option.splits)

lemma check_record_Inr:
  "check_record ops a now valid g r (seen, certs, found) = Inr x \<longleftrightarrow>
     (current_ok ops a now valid g r \<or> retired_ok ops a now g r \<or> pending_ok ops a g r) \<and>
     cr_Generation r \<notin> set seen \<and> (seen = [] \<or> last seen < cr_Generation r) \<and>
     x = (seen @ [cr_Generation r], certs @ [parsed ops r], found \<or> cr_Generation r = g)"
proof (cases "record_ok ops a r \<and> \<not> (cr_ActivateAt r \<noteq> None \<and> cr_RetiredAt r \<noteq> None) \<and>
    \<not> (cr_PublishedAt r \<noteq> None \<and> cr_ActivateAt r = None)")
  case True
  then have l: "check_lifecycle ops now valid g r = None \<longleftrightarrow>
      current_ok ops a now valid g r \<or> retired_ok ops a now g r \<or> pending_ok ops a g r"
    by (subst check_lifecycle_None[of r ops a]) (auto simp: current_ok_def retired_ok_def pending_ok_def)
  from True show ?thesis unfolding l[symmetric]
    by (auto simp: check_record_def record_ok_def not_le split: option.splits)
next
  case False
  then have "\<exists>e. check_record ops a now valid g r (seen, certs, found) = Inl e"
    by (auto simp: check_record_def record_ok_def)
  moreover from False have "\<not> (current_ok ops a now valid g r \<or> retired_ok ops a now g r \<or> pending_ok ops a g r)"
    by (auto simp: current_ok_def retired_ok_def pending_ok_def)
  ultimately show ?thesis by auto
qed

lemma check_record_Inl:
  "check_record ops a now valid g r (seen, certs, found) = Inl e \<Longrightarrow>
     \<not> ((current_ok ops a now valid g r \<or> retired_ok ops a now g r \<or> pending_ok ops a g r) \<and>
        cr_Generation r \<notin> set seen \<and> (seen = [] \<or> last seen < cr_Generation r))"
  using check_record_Inr[of ops a now valid g r seen certs found
      "(seen @ [cr_Generation r], certs @ [parsed ops r], found \<or> cr_Generation r = g)"] by auto

text \<open>
  A valid document has the current generation, and beside it either the previous one or the
  next one.
\<close>

lemma check_state_iff:
  "check_state ops a now valid s = Inr certs \<longleftrightarrow> ca_Version s = stateVersion \<and> certs = map (parsed ops) (ca_Certs s) \<and>
     ((\<exists>c. ca_Certs s = [c] \<and> current_ok ops a now valid (ca_Current s) c) \<or>
      (\<exists>p c. ca_Certs s = [p, c] \<and> retired_ok ops a now (ca_Current s) p \<and> current_ok ops a now valid (ca_Current s) c) \<or>
      (\<exists>c n. ca_Certs s = [c, n] \<and> current_ok ops a now valid (ca_Current s) c \<and> pending_ok ops a (ca_Current s) n))"
proof -
  have gens: "current_ok ops a now valid g r \<Longrightarrow> cr_Generation r = g \<and> g \<noteq> 0"
    "retired_ok ops a now g r \<Longrightarrow> cr_Generation r < g" "pending_ok ops a g r \<Longrightarrow> g < cr_Generation r" for g r
    by (auto simp: current_ok_def retired_ok_def pending_ok_def record_ok_def)
  consider "ca_Certs s = []" | r where "ca_Certs s = [r]" | r t where "ca_Certs s = [r, t]" | "length (ca_Certs s) > 2"
    by (metis One_nat_def Suc_1 length_0_conv length_Suc_conv less_2_cases linorder_cases)
  then show ?thesis
  proof cases
    case 2
    note r = this
    show ?thesis
    proof (cases "check_record ops a now valid (ca_Current s) r ([], [], False)")
      case (Inl e)
      then show ?thesis using check_record_Inl[OF Inl] by (auto simp: check_state_def r)
    next
      case (Inr x)
      then show ?thesis unfolding check_record_Inr by (auto simp: check_state_def r check_record_Inr Inr dest: gens)
    qed
  next
    case 3
    note r = this
    show ?thesis
    proof (cases "check_record ops a now valid (ca_Current s) r ([], [], False)")
      case (Inl e)
      then show ?thesis using check_record_Inl[OF Inl] by (auto simp: check_state_def r)
    next
      case first: (Inr x)
      then have x: "x = ([cr_Generation r], [parsed ops r], cr_Generation r = ca_Current s)"
        "current_ok ops a now valid (ca_Current s) r \<or> retired_ok ops a now (ca_Current s) r \<or> pending_ok ops a (ca_Current s) r"
        by (auto simp: check_record_Inr)
      show ?thesis
      proof (cases "check_record ops a now valid (ca_Current s) t x")
        case (Inl e)
        then have "\<not> ((current_ok ops a now valid (ca_Current s) t \<or> retired_ok ops a now (ca_Current s) t \<or> pending_ok ops a (ca_Current s) t) \<and>
            cr_Generation r < cr_Generation t)"
          unfolding x(1) by (auto dest: check_record_Inl)
        moreover have "current_ok ops a now valid (ca_Current s) t \<Longrightarrow> retired_ok ops a now (ca_Current s) r \<Longrightarrow> cr_Generation r < cr_Generation t"
          "current_ok ops a now valid (ca_Current s) r \<Longrightarrow> pending_ok ops a (ca_Current s) t \<Longrightarrow> cr_Generation r < cr_Generation t"
          using gens by metis+
        ultimately show ?thesis using Inl by (auto simp: check_state_def r first)
      next
        case (Inr y)
        then have y: "y = ([cr_Generation r, cr_Generation t], [parsed ops r, parsed ops t],
            cr_Generation r = ca_Current s \<or> cr_Generation t = ca_Current s)" "cr_Generation r < cr_Generation t"
          "current_ok ops a now valid (ca_Current s) t \<or> retired_ok ops a now (ca_Current s) t \<or> pending_ok ops a (ca_Current s) t"
          by (auto simp: check_record_Inr x(1))
        have "check_state ops a now valid s = Inr certs \<longleftrightarrow> ca_Version s = stateVersion \<and> ca_Current s \<noteq> 0 \<and>
            certs = [parsed ops r, parsed ops t] \<and> (cr_Generation r = ca_Current s \<or> cr_Generation t = ca_Current s)"
          by (auto simp: check_state_def r first Inr y(1))
        with x(2) y(2,3) show ?thesis by (auto simp: r dest: gens)
      qed
    qed
  qed (auto simp: check_state_def)
qed


section \<open>Rotation keeps the document valid\<close>

text \<open>
  What is documented of the libraries: a self-signed CA certificate parses to what its
  template says, with its validity cut to whole seconds, and fits the size limit; a calendar
  year has at least 365 days.
\<close>

definition ca_laws :: "workload_ops \<Rightarrow> Authority \<Rightarrow> bool" where
  "ca_laws ops a \<longleftrightarrow>
     (\<forall>t der. wo_CreateCertificate ops t None (wo_Public ops (a_key a)) (a_key a) = Inr der \<longrightarrow>
        t_IsCA t \<longrightarrow> KeyUsageCertSign \<in> set (t_KeyUsage t) \<longrightarrow> der \<noteq> [] \<and> length der \<le> 8 * 1024 \<and>
        wo_ParseCertificate ops der = Inr \<lparr>x_PublicKey = Some (wo_Public ops (a_key a)), x_IsCA = True,
          x_BasicConstraintsValid = True, x_KeyUsageCertSign = True,
          x_NotBefore = t_NotBefore t div time_Second * time_Second,
          x_NotAfter = t_NotAfter t div time_Second * time_Second, x_SelfSigned = True\<rparr>) \<and>
     (\<forall>t. t + 365 * 24 * time_Hour \<le> wo_AddYear ops t)"

lemmas ca_times = time_Second_def time_Minute_def time_Hour_def clockSkew_def activationLag_def retention_def

lemma seconds_floor: "t - time_Second < t div time_Second * time_Second" "t div time_Second * time_Second \<le> t"
proof -
  have "t = t div time_Second * time_Second + t mod time_Second" by simp
  moreover have "0 \<le> t mod time_Second" "t mod time_Second < time_Second" by (simp_all add: time_Second_def)
  ultimately show "t - time_Second < t div time_Second * time_Second" "t div time_Second * time_Second \<le> t" by linarith+
qed

lemma newRecord_ok:
  assumes "ca_laws ops a" and "newRecord ops a g now = Inr r" and "g \<noteq> 0"
  shows "record_ok ops a r" "cr_Generation r = g" "cr_PublishedAt r = None" "cr_ActivateAt r = None" "cr_RetiredAt r = None"
    "x_NotBefore (parsed ops r) \<le> now - clockSkew" "now - clockSkew - time_Second < x_NotBefore (parsed ops r)"
    "now + 364 * 24 * time_Hour < x_NotAfter (parsed ops r)"
proof -
  obtain der where r: "r = \<lparr>cr_Generation = g, cr_DER = der, cr_PublishedAt = None, cr_ActivateAt = None, cr_RetiredAt = None\<rparr>"
    and der: "der \<noteq> []" "length der \<le> 8 * 1024"
    and c: "wo_ParseCertificate ops der = Inr \<lparr>x_PublicKey = Some (wo_Public ops (a_key a)), x_IsCA = True,
          x_BasicConstraintsValid = True, x_KeyUsageCertSign = True,
          x_NotBefore = (now - 5 * time_Minute) div time_Second * time_Second,
          x_NotAfter = wo_AddYear ops now div time_Second * time_Second, x_SelfSigned = True\<rparr>"
    and year: "now + 365 * 24 * time_Hour \<le> wo_AddYear ops now"
    using assms(1,2) unfolding newRecord_def ca_laws_def by (fastforce split: sum.splits)
  show "cr_Generation r = g" "cr_PublishedAt r = None" "cr_ActivateAt r = None" "cr_RetiredAt r = None" by (simp_all add: r)
  show nb: "x_NotBefore (parsed ops r) \<le> now - clockSkew" "now - clockSkew - time_Second < x_NotBefore (parsed ops r)"
    using seconds_floor[of "now - 5 * time_Minute"] by (simp_all add: r c parsed_def clockSkew_def)
  show na: "now + 364 * 24 * time_Hour < x_NotAfter (parsed ops r)"
    using seconds_floor(1)[of "wo_AddYear ops now"] year by (simp add: r c parsed_def) (simp add: ca_times)
  show "record_ok ops a r"
    using nb(1) na der assms(3) by (simp add: record_ok_def bad_certificate_def r c parsed_def) (simp add: ca_times)
qed

lemma pending_record_ok:
  assumes "ca_laws ops a" and "newRecord ops a (g + 1) now = Inr r" and "g \<noteq> - 1"
  shows "pending_ok ops a g (pending_record ops r)" "cr_Generation (pending_record ops r) = g + 1"
    "x_NotBefore (parsed ops (pending_record ops r)) \<le> now" "now < x_NotAfter (parsed ops (pending_record ops r))"
    "cr_RetiredAt (pending_record ops r) = None"
proof -
  have g0: "g + 1 \<noteq> 0" using assms(3) max_word_wrap[of g] by auto
  then have "unat (g + 1) = Suc (unat g)" by (rule unatSuc[of g, unfolded add.commute[of 1 g]])
  then have g: "g + 1 \<noteq> 0" "g < g + 1" using g0 by (simp_all add: word_less_nat_alt)
  note r = newRecord_ok[OF assms(1,2) g(1)]
  have same: "parsed ops (pending_record ops r) = parsed ops r" by (simp add: pending_record_def parsed_def)
  have "record_ok ops a (pending_record ops r)" using r(1) by (simp add: record_ok_def pending_record_def)
  then show "pending_ok ops a g (pending_record ops r)"
    unfolding pending_ok_def same using r g by (simp add: pending_record_def) (simp add: ca_times)
  show "cr_Generation (pending_record ops r) = g + 1" "cr_RetiredAt (pending_record ops r) = None" using r by (simp_all add: pending_record_def)
  show "x_NotBefore (parsed ops (pending_record ops r)) \<le> now" "now < x_NotAfter (parsed ops (pending_record ops r))"
    unfolding same using r(6,8) by (simp_all add: ca_times)
qed

text \<open>Promotion of the pending generation beside the current one.\<close>

lemma promote_valid:
  assumes "ca_Certs s = [c, n]" "ca_Version s = stateVersion" "current_ok ops a now False (ca_Current s) c" "pending_ok ops a (ca_Current s) n"
    and "x_NotBefore (parsed ops n) \<le> now + clockSkew"
  shows "\<exists>cs. check_state ops a now False (promoteState 1 now s) = Inr cs" "ca_Current s < ca_Current (promoteState 1 now s)"
    "bundleForState ops (promoteState 1 now s) = bundleForState ops s"
proof -
  have c: "currentIndex s = 0" using assms(1,3) by (simp add: currentIndex_def current_ok_def)
  let ?c = "c\<lparr>cr_RetiredAt := Some now\<rparr>" and ?n = "n\<lparr>cr_PublishedAt := None, cr_ActivateAt := None\<rparr>"
  have p: "promoteState 1 now s = s\<lparr>ca_Certs := [?c, ?n], ca_Current := cr_Generation n\<rparr>"
    using assms(1) by (simp add: promoteState_def c Let_def)
  have "retired_ok ops a now (cr_Generation n) ?c"
    using assms(3,4) by (auto simp: retired_ok_def current_ok_def pending_ok_def record_ok_def ca_times)
  moreover have "current_ok ops a now False (cr_Generation n) ?n"
    using assms(4,5) by (auto simp: current_ok_def pending_ok_def record_ok_def parsed_def)
  ultimately show "\<exists>cs. check_state ops a now False (promoteState 1 now s) = Inr cs"
    unfolding check_state_iff p using assms(2) by auto
  show "ca_Current s < ca_Current (promoteState 1 now s)" using assms(4) by (simp add: p pending_ok_def)
  show "bundleForState ops (promoteState 1 now s) = bundleForState ops s" by (simp add: p bundleForState_def assms(1))
qed


lemma ready_published:
  assumes "publicationReady ops cl a s st = (Inr True, st')" and "a_publication a = Some key"
  shows "\<exists>older. st_objects st' key = bundleForState ops s # older"
  using assms by (auto simp: publicationReady_def cloud_Get_def storage_Get_def Let_def split: option.splits list.splits if_splits)

text \<open>
  The result of a round: the document is valid, the generation does not go back, and it
  advances only to a document whose bundle is the published one.
\<close>

definition rotated :: "workload_ops \<Rightarrow> Authority \<Rightarrow> int \<Rightarrow> 64 word \<Rightarrow> store_state \<Rightarrow> caState \<Rightarrow> bool" where
  "rotated ops a now g st s \<longleftrightarrow> (\<exists>cs. check_state ops a now False s = Inr cs) \<and> g \<le> ca_Current s \<and>
     (ca_Current s \<noteq> g \<longrightarrow> (\<forall>key. a_publication a = Some key \<longrightarrow> (\<exists>older. st_objects st key = bundleForState ops s # older)))"

lemma promote_rotated:
  assumes "ca_Certs s = [c, n]" "ca_Version s = stateVersion" "current_ok ops a now False (ca_Current s) c" "pending_ok ops a (ca_Current s) n"
    "x_NotBefore (parsed ops n) \<le> now + clockSkew" and "publicationReady ops cl a s st = (Inr True, st')"
  shows "rotated ops a now (ca_Current s) st' (promoteState 1 now s)"
  using promote_valid[OF assms(1-5)] ready_published[OF assms(6)] by (auto simp: rotated_def)

lemma expired_candidate_shape:
  assumes "ca_laws ops a" and "check_state ops a now False s = Inr cs" and "ca_Current s \<noteq> - 1"
    and "expired_candidate ops a now s = Inr (s', pending, created)"
  obtains c n where "ca_Certs s' = [c, n]" "ca_Version s' = stateVersion" "ca_Current s' = ca_Current s"
    "current_ok ops a now False (ca_Current s) c" "pending_ok ops a (ca_Current s) n"
    "x_NotBefore (parsed ops n) \<le> now" "pending = 1"
proof -
  from assms(2) consider (one) c where "ca_Certs s = [c]" "current_ok ops a now False (ca_Current s) c"
    | (previous) p c where "ca_Certs s = [p, c]" "retired_ok ops a now (ca_Current s) p" "current_ok ops a now False (ca_Current s) c"
    | (pending) c n where "ca_Certs s = [c, n]" "current_ok ops a now False (ca_Current s) c" "pending_ok ops a (ca_Current s) n"
    unfolding check_state_iff by blast
  note shape = this
  have version: "ca_Version s = stateVersion" using assms(2) unfolding check_state_iff by simp
  obtain c where c: "ca_Certs s ! nat (currentIndex s) = c" "current_ok ops a now False (ca_Current s) c"
    using shape by cases (auto simp: currentIndex_def current_ok_def retired_ok_def)
  have g: "cr_Generation c = ca_Current s" using c(2) by (simp add: current_ok_def)
  show ?thesis
  proof (cases created)
    case True
    then obtain r where r: "newRecord ops a (ca_Current s + 1) now = Inr r"
      and s': "s' = s\<lparr>ca_Certs := [c, pending_record ops r]\<rparr>" "pending = 1"
      using assms(4) by (auto simp: expired_candidate_def c(1) g Let_def split: if_splits sum.splits)
    note n = pending_record_ok[OF assms(1) r assms(3)]
    show ?thesis using s' version c(2) n by (intro that[of c "pending_record ops r"]) simp_all
  next
    case False
    with assms(4) have keep: "s' = s" "pending = pendingIndex s" "0 \<le> pendingIndex s"
      "x_NotBefore (parsed ops (ca_Certs s ! nat (pendingIndex s))) \<le> now"
      by (auto simp: expired_candidate_def Let_def split: if_splits sum.splits)
    from shape show ?thesis
    proof cases
      case (pending c' n)
      have "pendingIndex s = 1" using pending by (auto simp: pendingIndex_def current_ok_def pending_ok_def)
      with keep pending version show ?thesis by (intro that[of c' n]) auto
    qed (use keep in \<open>auto simp: pendingIndex_def current_ok_def retired_ok_def\<close>)
  qed
qed

lemma ensure_expired_rotated:
  assumes "ca_laws ops a" and "check_state ops a now False s = Inr cs" and "ca_Current s \<noteq> - 1"
    and "ensure_expired ops cl a now s st = (Inr (s', changed), st')"
  shows "rotated ops a now (ca_Current s) st' s'"
proof -
  obtain s1 pending created st1 ready where s1: "expired_candidate ops a now s = Inr (s1, pending, created)"
    and ready: "publicationReady ops cl a s1 st1 = (Inr ready, st')"
    and s': "s' = (if ready then promoteState pending now s1 else s1)"
    using assms(4) by (fastforce simp: ensure_expired_def split: sum.splits prod.splits option.splits if_splits)
  obtain c n where shape: "ca_Certs s1 = [c, n]" "ca_Version s1 = stateVersion" "ca_Current s1 = ca_Current s"
    "current_ok ops a now False (ca_Current s1) c" "pending_ok ops a (ca_Current s1) n"
    "x_NotBefore (parsed ops n) \<le> now" "pending = 1"
    by (rule expired_candidate_shape[OF assms(1-3) s1]) simp
  show ?thesis
  proof (cases ready)
    case True
    have "x_NotBefore (parsed ops n) \<le> now + clockSkew" using shape(6) by (simp add: ca_times)
    from promote_rotated[OF shape(1,2,4,5) this] ready True s' shape(3,7) show ?thesis by simp
  next
    case False
    have "\<exists>cs. check_state ops a now False s1 = Inr cs" unfolding check_state_iff using shape by auto
    with False s' shape(3) show ?thesis by (simp add: rotated_def)
  qed
qed


lemma publish_pending_ok:
  assumes "pending_ok ops a g n" "x_NotBefore (parsed ops n) \<le> now" "now + activationLag \<le> x_NotAfter (parsed ops n)"
  shows "pending_ok ops a g (publish_pending now n)"
  using assms by (auto simp: pending_ok_def publish_pending_def record_ok_def parsed_def)

text \<open>
  A round that publishes the pending generation happens within the validity of its
  certificate, and when the next rotation is due the previous generation has been dropped.
\<close>

definition rotation_window :: "workload_ops \<Rightarrow> int \<Rightarrow> caState \<Rightarrow> bool" where
  "rotation_window ops now s \<longleftrightarrow>
     (\<forall>r \<in> set (ca_Certs s). cr_ActivateAt r \<noteq> None \<longrightarrow>
        x_NotBefore (parsed ops r) \<le> now \<and> now + activationLag \<le> x_NotAfter (parsed ops r)) \<and>
     (\<forall>r \<in> set (ca_Certs s). cr_RetiredAt r \<noteq> None \<longrightarrow> \<not> prunable (ca_Current s) now r \<longrightarrow>
        (let certificate = parsed ops (ca_Certs s ! nat (currentIndex s))
         in x_NotAfter certificate \<le> now \<or> now + retention < x_NotAfter certificate))"

lemma ensure_pending_rotated:
  assumes "ca_Certs s = [c, n]" "ca_Version s = stateVersion" "current_ok ops a now False (ca_Current s) c" "pending_ok ops a (ca_Current s) n"
    and w: "x_NotBefore (parsed ops n) \<le> now" "now + activationLag \<le> x_NotAfter (parsed ops n)"
    and "ensure_pending ops cl a now s st = (Inr (s', changed), st')"
  shows "rotated ops a now (ca_Current s) st' s'"
proof -
  have p: "pendingIndex s = 1" using assms(1,3,4) by (auto simp: pendingIndex_def current_ok_def pending_ok_def)
  obtain ready where ready: "publicationReady ops cl a s st = (Inr ready, st')"
    using assms(7) by (auto simp: ensure_pending_def p Let_def split: sum.splits prod.splits)
  define publishes where "publishes = (a_publication a \<noteq> None \<and> ready \<and> cr_PublishedAt n = None)"
  define n1 where "n1 = (if publishes then publish_pending now n else n)"
  define s1 where "s1 = s\<lparr>ca_Certs := [c, n1]\<rparr>"
  have same: "s\<lparr>ca_Certs := [c, n]\<rparr> = s" using assms(1) by (cases s) simp
  have "s1 = (if publishes then s\<lparr>ca_Certs := (ca_Certs s)[1 := publish_pending now (ca_Certs s ! 1)]\<rparr> else s)"
    using assms(1) same by (simp add: s1_def n1_def)
  then have result: "s' = (if ready \<and> (case cr_ActivateAt n1 of Some activate \<Rightarrow> \<not> now < activate | None \<Rightarrow> False)
      then promoteState 1 now s1 else s1)"
    using assms(7) ready by (auto simp: ensure_pending_def p Let_def assms(1) publishes_def n1_def s1_def same split: if_splits)
  have n1: "pending_ok ops a (ca_Current s) n1" "x_NotBefore (parsed ops n1) \<le> now + clockSkew"
    using assms(4) publish_pending_ok[OF assms(4) w] w(1)
    by (simp_all add: n1_def parsed_def publish_pending_def ca_times)
  have s1: "ca_Certs s1 = [c, n1]" "ca_Version s1 = stateVersion" "ca_Current s1 = ca_Current s" "bundleForState ops s1 = bundleForState ops s"
    using assms(1,2) by (simp_all add: s1_def n1_def bundleForState_def publish_pending_def)
  have "publicationReady ops cl a s1 st = publicationReady ops cl a s st"
    unfolding publicationReady_def s1(4) ..
  with ready have ready1: "publicationReady ops cl a s1 st = (Inr ready, st')" by simp
  show ?thesis
  proof (cases "ready \<and> (case cr_ActivateAt n1 of Some activate \<Rightarrow> \<not> now < activate | None \<Rightarrow> False)")
    case True
    then have "s' = promoteState 1 now s1" "ready" using result by simp_all
    then show ?thesis
      using promote_rotated[of s1 c n1 ops a now cl st st'] s1 assms(3) n1 ready1 by simp
  next
    case False
    then have "s' = s1" using result by auto
    moreover have "\<exists>cs. check_state ops a now False s1 = Inr cs" unfolding check_state_iff using s1 assms(3) n1(1) by auto
    ultimately show ?thesis using s1(3) by (simp add: rotated_def)
  qed
qed

lemma ensure_rotate_rotated:
  assumes "ca_laws ops a" and "check_state ops a now False s = Inr cs" and "ca_Current s \<noteq> - 1"
    and "pendingIndex s < 0" and "length (ca_Certs s) = 1 \<or> now + retention < x_NotAfter (parsed ops (ca_Certs s ! nat (currentIndex s)))"
    and "ensure_rotate ops a now s = Inr (s', changed)"
  shows "rotated ops a now (ca_Current s) st s'"
proof (cases changed)
  case False
  then have "s' = s" using assms(6) by (auto simp: ensure_rotate_def Let_def split: if_splits sum.splits)
  with assms(2) show ?thesis by (auto simp: rotated_def)
next
  case True
  then have due: "\<not> now + retention < x_NotAfter (parsed ops (ca_Certs s ! nat (currentIndex s)))"
    using assms(6) by (auto simp: ensure_rotate_def Let_def split: if_splits sum.splits)
  then have "length (ca_Certs s) = 1" using assms(5) by simp
  then obtain c where c: "ca_Certs s = [c]" "current_ok ops a now False (ca_Current s) c" "ca_Version s = stateVersion"
    using assms(2) unfolding check_state_iff by auto
  then have i: "currentIndex s = 0" "cr_Generation c = ca_Current s" by (simp_all add: currentIndex_def current_ok_def)
  obtain r where r: "newRecord ops a (ca_Current s + 1) now = Inr r" "s' = s\<lparr>ca_Certs := [c, pending_record ops r]\<rparr>"
    using assms(6) due by (auto simp: ensure_rotate_def Let_def i c(1) split: sum.splits)
  note n = pending_record_ok[OF assms(1) r(1) assms(3)]
  have "\<exists>cs. check_state ops a now False s' = Inr cs" unfolding check_state_iff using r(2) c n(1) by auto
  then show ?thesis using r(2) by (simp add: rotated_def)
qed


lemma prune_cases:
  assumes "check_state ops a now False s = Inr cs"
  obtains (one) c where "ca_Certs (fst (pruneState now s)) = [c]" "current_ok ops a now False (ca_Current s) c"
    "ca_Certs s ! nat (currentIndex s) = c"
  | (previous) p c where "ca_Certs s = [p, c]" "fst (pruneState now s) = s" "retired_ok ops a now (ca_Current s) p"
    "current_ok ops a now False (ca_Current s) c" "\<not> prunable (ca_Current s) now p" "ca_Certs s ! nat (currentIndex s) = c"
  | (pending) c n where "ca_Certs s = [c, n]" "fst (pruneState now s) = s" "current_ok ops a now False (ca_Current s) c"
    "pending_ok ops a (ca_Current s) n" "ca_Certs s ! nat (currentIndex s) = c"
proof -
  have keep: "\<not> prunable (ca_Current s) now c" if "current_ok ops a now False (ca_Current s) c" for c
    using that by (simp add: prunable_def current_ok_def)
  have pend: "\<not> prunable (ca_Current s) now n" if "pending_ok ops a (ca_Current s) n" for n
    using that by (auto simp: prunable_def pending_ok_def)
  have self: "s\<lparr>ca_Certs := ca_Certs s\<rparr> = s" by simp
  from assms consider (1) c where "ca_Certs s = [c]" "current_ok ops a now False (ca_Current s) c"
    | (2) p c where "ca_Certs s = [p, c]" "retired_ok ops a now (ca_Current s) p" "current_ok ops a now False (ca_Current s) c"
    | (3) c n where "ca_Certs s = [c, n]" "current_ok ops a now False (ca_Current s) c" "pending_ok ops a (ca_Current s) n"
    unfolding check_state_iff by blast
  then show ?thesis
  proof cases
    case 1
    then show ?thesis by (intro one[of c]) (simp_all add: pruneState_def keep currentIndex_def current_ok_def)
  next
    case 2
    then have i: "ca_Certs s ! nat (currentIndex s) = c" by (auto simp: currentIndex_def current_ok_def retired_ok_def)
    show ?thesis
    proof (cases "prunable (ca_Current s) now p")
      case True
      with 2 i show ?thesis by (intro one[of c]) (simp_all add: pruneState_def keep)
    next
      case False
      have "fst (pruneState now s) = s" using 2 False keep[OF 2(3)] self by (simp add: pruneState_def)
      with 2 False i show ?thesis by (intro previous[of p c]) simp_all
    qed
  next
    case 3
    have "fst (pruneState now s) = s" using 3 keep[OF 3(2)] pend[OF 3(3)] self by (simp add: pruneState_def)
    with 3 show ?thesis by (intro pending[of c n]) (simp_all add: currentIndex_def current_ok_def)
  qed
qed

lemma ensure_update_branch:
  assumes "ensure_update ops cl a now s st = (Inr (s', changed), st')"
  shows "\<exists>ch. (if \<not> now < x_NotAfter (parsed ops (ca_Certs (fst (pruneState now s)) ! nat (currentIndex (fst (pruneState now s)))))
     then ensure_expired ops cl a now (fst (pruneState now s)) st
     else if pendingIndex (fst (pruneState now s)) \<ge> 0 then ensure_pending ops cl a now (fst (pruneState now s)) st
     else (ensure_rotate ops a now (fst (pruneState now s)), st)) = (Inr (s', ch), st')" (is "\<exists>ch. ?branch = _")
proof -
  obtain p pruned where p: "pruneState now s = (p, pruned)" by fastforce
  obtain result st1 where b: "?branch = (result, st1)" by (metis surj_pair)
  have "ensure_update ops cl a now s st =
      (case result of Inl e \<Rightarrow> Inl e | Inr (state', changed) \<Rightarrow> Inr (state', pruned \<or> changed), st1)"
    using b unfolding ensure_update_def p Let_def prod.case fst_conv by simp
  with assms have "\<exists>ch. result = Inr (s', ch)" "st1 = st'" by (auto split: sum.splits)
  with b show ?thesis by blast
qed

text \<open>
  C33: a round of \<open>Ensure\<close> that starts from a valid document ends with a valid document, its
  generation never goes back, and with publication configured a new generation becomes the
  issuer only when the published bundle is the bundle with its certificate. The rounds are
  frequent enough that a pending generation is published while its certificate is valid and
  that a previous generation is dropped before the next rotation is due.
\<close>

theorem ca_rotation_safe:
  assumes "ca_laws ops a" and "check_state ops a now False s = Inr cs" and "ca_Current s \<noteq> - 1"
    and "rotation_window ops now s" and "ensure_update ops cl a now s st = (Inr (s', changed), st')"
  shows "(\<exists>cs'. check_state ops a now False s' = Inr cs') \<and> ca_Current s \<le> ca_Current s' \<and>
     (ca_Current s' \<noteq> ca_Current s \<longrightarrow>
        (\<forall>key. a_publication a = Some key \<longrightarrow> (\<exists>older. st_objects st' key = bundleForState ops s' # older)))"
proof -
  let ?p = "fst (pruneState now s)"
  let ?cert = "parsed ops (ca_Certs ?p ! nat (currentIndex ?p))"
  have cur: "ca_Current ?p = ca_Current s" "ca_Version ?p = ca_Version s" by (simp_all add: pruneState_def)
  have version: "ca_Version s = stateVersion" using assms(2) unfolding check_state_iff by simp
  obtain ch where round: "(if \<not> now < x_NotAfter ?cert then ensure_expired ops cl a now ?p st
     else if pendingIndex ?p \<ge> 0 then ensure_pending ops cl a now ?p st
     else (ensure_rotate ops a now ?p, st)) = (Inr (s', ch), st')"
    using ensure_update_branch[OF assms(5)] by blast
  have "rotated ops a now (ca_Current ?p) st' s'"
    using assms(2)
  proof (cases rule: prune_cases)
    case (one c)
    then have v: "check_state ops a now False ?p = Inr (map (parsed ops) [c])"
      unfolding check_state_iff using cur version by simp
    have "pendingIndex ?p < 0" using one by (simp add: pendingIndex_def current_ok_def)
    with round ensure_expired_rotated[OF assms(1) v] ensure_rotate_rotated[OF assms(1) v] cur assms(3) one(1)
    show ?thesis by (auto split: if_splits)
  next
    case (previous p c)
    have v: "check_state ops a now False ?p = Inr cs" using previous(2) assms(2) by simp
    have "pendingIndex ?p < 0" using previous by (simp add: pendingIndex_def current_ok_def retired_ok_def)
    moreover have "x_NotAfter ?cert \<le> now \<or> now + retention < x_NotAfter ?cert"
      using assms(4) previous unfolding rotation_window_def retired_ok_def by (auto simp: Let_def)
    ultimately show ?thesis
      using round ensure_expired_rotated[OF assms(1) v] ensure_rotate_rotated[OF assms(1) v] cur assms(3)
      by (auto split: if_splits)
  next
    case (pending c n)
    have v: "check_state ops a now False ?p = Inr cs" using pending(2) assms(2) by simp
    have "x_NotBefore (parsed ops n) \<le> now" "now + activationLag \<le> x_NotAfter (parsed ops n)"
      using assms(4) pending(1,4) unfolding rotation_window_def pending_ok_def by auto
    moreover have "\<not> pendingIndex ?p < 0" using pending by (auto simp: pendingIndex_def pending_ok_def current_ok_def)
    ultimately show ?thesis
      using round ensure_expired_rotated[OF assms(1) v] ensure_pending_rotated[of ?p c n ops a now cl st s' ch st'] pending
        cur version assms(3) by (auto split: if_splits)
  qed
  then show ?thesis by (simp add: rotated_def cur)
qed


section \<open>Issued identities\<close>

lemma Issue_Inr:
  assumes "Issue ops a keys bytes namespace pod service now = Inr m"
  obtains ca where "a_ca a = Some ca" "ValidNamespace namespace" "ValidID pod" "x_NotBefore ca \<le> now" "now < m_NotAfter m"
    "m_NotAfter m = min (x_NotAfter ca) (now + 24 * time_Hour)" "m_CABundle m = a_bundle a"
    "m_SPIFFEID m = pod_spiffe (a_cluster a) namespace pod"
proof -
  obtain dnsNames server where i: "workload_issue ops a keys bytes pod (pod_spiffe (a_cluster a) namespace pod) dnsNames server now = Inr m"
    and v: "ValidNamespace namespace" "ValidID pod"
    using assms by (auto simp: Issue_def Let_def split: if_splits)
  from i obtain ca where "a_ca a = Some ca" "x_NotBefore ca \<le> now" "now < m_NotAfter m"
    "m_NotAfter m = min (x_NotAfter ca) (now + 24 * time_Hour)" "m_CABundle m = a_bundle a"
    "m_SPIFFEID m = pod_spiffe (a_cluster a) namespace pod"
    unfolding workload_issue_def by (auto simp: Let_def min_def split: sum.splits option.splits if_splits)
  with v that show ?thesis by blast
qed

lemma pod_spiffe_inject:
  assumes "ValidNamespace n" "ValidNamespace n'" and "pod_spiffe c n p = pod_spiffe c n' p'"
  shows "n = n' \<and> p = p'"
proof -
  have "n @ CHR ''/'' # (''pod/'' @ p) = n' @ CHR ''/'' # (''pod/'' @ p')" using assms(3) by (simp add: pod_spiffe_def)
  with join_sep_inj[of "CHR ''/''" n n'] ValidNamespace_no_sep(2) assms(1,2) show ?thesis by auto
qed

text \<open>
  A workload identity is issued only by a CA certificate that is valid at the time, lives
  at most a day and never longer than the CA certificate, and carries the synchronized trust
  bundle. When the CA is valid for a day it is not at once due for renewal. Two Pods of one
  cluster have the same SPIFFE identity only when they have the same namespace and name.
\<close>

lemma issued_identity:
  assumes "Issue ops a keys bytes namespace pod service now = Inr m"
    and "Issue ops a keys' bytes' namespace' pod' service' now' = Inr m'"
  shows "(\<exists>ca. a_ca a = Some ca \<and> x_NotBefore ca \<le> now \<and> now < m_NotAfter m \<and> m_NotAfter m \<le> x_NotAfter ca \<and>
       m_NotAfter m \<le> now + 24 * time_Hour \<and>
       (now + 24 * time_Hour \<le> x_NotAfter ca \<longrightarrow> \<not> NeedsRenewal (m_NotAfter m) now)) \<and>
     m_CABundle m = a_bundle a \<and>
     (m_SPIFFEID m = m_SPIFFEID m' \<longleftrightarrow> namespace = namespace' \<and> pod = pod')"
proof -
  obtain ca where ca: "a_ca a = Some ca" "ValidNamespace namespace" "ValidID pod" "x_NotBefore ca \<le> now" "now < m_NotAfter m"
    "m_NotAfter m = min (x_NotAfter ca) (now + 24 * time_Hour)" "m_CABundle m = a_bundle a"
    "m_SPIFFEID m = pod_spiffe (a_cluster a) namespace pod"
    by (rule Issue_Inr[OF assms(1)])
  obtain ca' where other: "a_ca a = Some ca'" "ValidNamespace namespace'" "ValidID pod'" "x_NotBefore ca' \<le> now'" "now' < m_NotAfter m'"
    "m_NotAfter m' = min (x_NotAfter ca') (now' + 24 * time_Hour)" "m_CABundle m' = a_bundle a"
    "m_SPIFFEID m' = pod_spiffe (a_cluster a) namespace' pod'"
    by (rule Issue_Inr[OF assms(2)])
  have "m_SPIFFEID m = m_SPIFFEID m' \<longleftrightarrow> namespace = namespace' \<and> pod = pod'"
    unfolding ca(8) other(8) using pod_spiffe_inject[OF ca(2) other(2)] by blast
  moreover have "now + 24 * time_Hour \<le> x_NotAfter ca \<longrightarrow> \<not> NeedsRenewal (m_NotAfter m) now"
    by (simp add: ca(6) NeedsRenewal_def ca_times)
  moreover have "m_NotAfter m \<le> x_NotAfter ca" "m_NotAfter m \<le> now + 24 * time_Hour" by (simp_all add: ca(6))
  ultimately show ?thesis using ca(1,4,5,7) by blast
qed

section \<open>An authority in simulated time\<close>

text \<open>Certificates that are the text of their validity in seconds.\<close>

definition clock_create :: "CertificateTemplate \<Rightarrow> Certificate option \<Rightarrow> string \<Rightarrow> string \<Rightarrow> error + string" where
  "clock_create t parent public key =
     (let der = dec_nat (nat (t_NotBefore t div time_Second)) @ ''='' @ dec_nat (nat (t_NotAfter t div time_Second))
      in if 0 \<le> t_NotBefore t \<and> 0 \<le> t_NotAfter t \<and> length der \<le> 8 * 1024 then Inr der else Inl (errors_New ''time''))"

definition clock_parse :: "string \<Rightarrow> error + Certificate" where
  "clock_parse der =
     (case Cut der CHR ''='' of
        (before, after, _) \<Rightarrow>
          Inr \<lparr>x_PublicKey = Some ''public'', x_IsCA = True, x_BasicConstraintsValid = True, x_KeyUsageCertSign = True,
               x_NotBefore = int (Go_Prelude.dec_value before) * time_Second,
               x_NotAfter = int (Go_Prelude.dec_value after) * time_Second, x_SelfSigned = True\<rparr>)"

definition clock_ops :: workload_ops where
  "clock_ops = \<lparr>wo_Public = (\<lambda>key. ''public''), wo_CreateCertificate = clock_create, wo_ParseCertificate = clock_parse,
     wo_MarshalPKCS8 = Inr, wo_pem = (\<lambda>kind body. body), wo_ParseURL = Inr, wo_AddYear = (\<lambda>t. t + 365 * 24 * time_Hour),
     wo_decodeState = (\<lambda>b. Inl (errors_New ''state'')), wo_marshalState = (\<lambda>s. Inl (errors_New ''state'')),
     wo_base64 = (\<lambda>b. Inl (errors_New ''base64''))\<rparr>"

definition clock_authority :: Authority where
  "clock_authority = \<lparr>a_cluster = ''demo'', a_key = ''seed'', a_publication = None, a_ca = None, a_bundle = [], a_state = [],
     a_revision = 0\<rparr>"


lemma clock_laws: "ca_laws clock_ops clock_authority"
proof -
  have parse: "clock_parse (dec_nat m @ ''='' @ dec_nat n) = Inr \<lparr>x_PublicKey = Some ''public'', x_IsCA = True,
      x_BasicConstraintsValid = True, x_KeyUsageCertSign = True, x_NotBefore = int m * time_Second,
      x_NotAfter = int n * time_Second, x_SelfSigned = True\<rparr>" for m n
    using Cut_append[of "CHR ''=''" "dec_nat m" "dec_nat n"] by (simp add: clock_parse_def Go_Prelude.dec_value_dec_nat)
  note parse = parse[simplified]
  have div: "0 \<le> t \<Longrightarrow> 0 \<le> t div time_Second" for t by (simp add: time_Second_def)
  show ?thesis
    unfolding ca_laws_def clock_ops_def clock_authority_def
    by (auto simp: clock_create_def Let_def parse div split: if_splits)
qed

text \<open>A certificate of the simulation, by its validity in seconds.\<close>

definition clock_der :: "nat \<Rightarrow> nat \<Rightarrow> string" where
  "clock_der m n = dec_nat m @ ''='' @ dec_nat n"

lemma clock_parsed:
  "cr_DER r = clock_der m n \<Longrightarrow> parsed clock_ops r = \<lparr>x_PublicKey = Some ''public'', x_IsCA = True,
      x_BasicConstraintsValid = True, x_KeyUsageCertSign = True, x_NotBefore = int m * time_Second,
      x_NotAfter = int n * time_Second, x_SelfSigned = True\<rparr>"
  using Cut_append[of "CHR ''=''" "dec_nat m" "dec_nat n"]
  by (simp add: parsed_def clock_ops_def clock_parse_def clock_der_def Go_Prelude.dec_value_dec_nat)


text \<open>The rounds of an authority without publication.\<close>

abbreviation clock_round :: "int \<Rightarrow> caState \<Rightarrow> error + caState \<times> bool" where
  "clock_round seconds s \<equiv> fst (ensure_update clock_ops quiet_store clock_authority (seconds * time_Second) s empty_store)"

definition clock_record :: "64 word \<Rightarrow> nat \<Rightarrow> nat \<Rightarrow> int option \<Rightarrow> int option \<Rightarrow> certificateRecord" where
  "clock_record g m n activate retired = \<lparr>cr_Generation = g, cr_DER = clock_der m n, cr_PublishedAt = None,
     cr_ActivateAt = activate, cr_RetiredAt = retired\<rparr>"

lemma clock_record_simps [simp]:
  "cr_Generation (clock_record g m n activate retired) = g"
  "cr_PublishedAt (clock_record g m n activate retired) = None"
  "cr_ActivateAt (clock_record g m n activate retired) = activate"
  "cr_RetiredAt (clock_record g m n activate retired) = retired"
  "x_NotBefore (parsed clock_ops (clock_record g m n activate retired)) = int m * time_Second"
  "x_NotAfter (parsed clock_ops (clock_record g m n activate retired)) = int n * time_Second"
  "(clock_record g m n activate retired)\<lparr>cr_ActivateAt := activate'\<rparr> = clock_record g m n activate' retired"
  "(clock_record g m n activate retired)\<lparr>cr_PublishedAt := None, cr_ActivateAt := activate'\<rparr> = clock_record g m n activate' retired"
  "(clock_record g m n activate retired)\<lparr>cr_RetiredAt := retired'\<rparr> = clock_record g m n activate retired'"
  by (simp_all add: clock_record_def clock_parsed)

lemma length_dec_nat: "n < 10 ^ Suc k \<Longrightarrow> length (dec_nat n) \<le> Suc k"
proof (induction k arbitrary: n)
  case (Suc k)
  then have "n div 10 < 10 ^ Suc k" by (simp add: less_mult_imp_div_less)
  from Suc.IH[OF this] show ?case by (subst dec_nat.simps) simp
qed (subst dec_nat.simps, simp)

lemma clock_newRecord:
  assumes "300 \<le> seconds" "seconds < 1000000000"
  shows "newRecord clock_ops clock_authority g (int seconds * time_Second) = Inr (clock_record g (seconds - 300) (seconds + 31536000) None None)"
proof -
  have "length (clock_der (seconds - 300) (seconds + 31536000)) \<le> 8 * 1024"
    using length_dec_nat[of "seconds - 300" 9] length_dec_nat[of "seconds + 31536000" 9] assms less_imp_diff_less[of seconds "10 ^ 10" 300]
    by (simp add: clock_der_def)
  moreover have "nat (int seconds - 300) = seconds - 300" "nat (int seconds + 31536000) = seconds + 31536000"
    using assms by (simp_all add: nat_diff_distrib nat_add_distrib)
  ultimately show ?thesis using assms
    by (simp add: newRecord_def clock_ops_def clock_create_def clock_record_def clock_der_def ca_times Let_def)
qed


lemma clock_record_ok:
  assumes "g \<noteq> 0" "m < n" "n < 10000000000"
  shows "record_ok clock_ops clock_authority (clock_record g m n activate retired)"
proof -
  have "length (clock_der m n) \<le> 8 * 1024" "clock_der m n \<noteq> []"
    using assms length_dec_nat[of m 9] length_dec_nat[of n 9] by (simp_all add: clock_der_def)
  moreover have "\<not> bad_certificate clock_ops clock_authority (clock_der m n)"
    using assms Cut_append[of "CHR ''=''" "dec_nat m" "dec_nat n"]
    by (simp add: bad_certificate_def clock_ops_def clock_parse_def clock_der_def Go_Prelude.dec_value_dec_nat time_Second_def)
  ultimately show ?thesis using assms(1) by (simp add: record_ok_def clock_record_def)
qed

definition clock_state :: "64 word \<Rightarrow> certificateRecord list \<Rightarrow> caState" where
  "clock_state g certs = \<lparr>ca_Version = stateVersion, ca_Current = g, ca_Certs = certs\<rparr>"

lemma clock_state_simps [simp]:
  "ca_Version (clock_state g certs) = stateVersion" "ca_Current (clock_state g certs) = g" "ca_Certs (clock_state g certs) = certs"
  "(clock_state g certs)\<lparr>ca_Certs := certs'\<rparr> = clock_state g certs'"
  "(clock_state g certs)\<lparr>ca_Certs := certs', ca_Current := g'\<rparr> = clock_state g' certs'"
  by (simp_all add: clock_state_def)

text \<open>One round in which the next generation is appended.\<close>

lemma clock_rotate:
  assumes "newRecord clock_ops clock_authority (g + 1) now = Inr (clock_record (g + 1) m n None None)"
    and "ca_Certs s ! nat (currentIndex s) = clock_record g m0 n0 None None" and "int n0 * time_Second \<le> now + retention"
  shows "ensure_rotate clock_ops clock_authority now s =
    Inr (s\<lparr>ca_Certs := ca_Certs s @ [clock_record (g + 1) m n (Some (int m * time_Second + (clockSkew + activationLag))) None]\<rparr>, True)"
proof -
  obtain c where "wo_ParseCertificate clock_ops (cr_DER (clock_record (g + 1) m n None None)) = Inr c"
    by (cases "Cut (cr_DER (clock_record (g + 1) m n None None)) CHR ''=''") (auto simp: clock_ops_def clock_parse_def)
  with assms show ?thesis by (simp add: ensure_rotate_def pending_record_def Let_def)
qed

text \<open>
  The first generation, made at second 1000000, is rotated when 30 days are left. The next
  round is 345 days later: the pending generation is promoted, 20 days before it expires
  itself. In the round after that, the document has three generations.
\<close>

lemma clock_rotation:
  "newRecord clock_ops clock_authority 1 (1000000 * time_Second) = Inr (clock_record 1 999700 32536000 None None)"
  "clock_round 29944000 (clock_state 1 [clock_record 1 999700 32536000 None None]) =
     Inr (clock_state 1 [clock_record 1 999700 32536000 None None,
       clock_record 2 29943700 61480000 (Some (29944600 * time_Second)) None], True)"
  "clock_round 59752000 (clock_state 1 [clock_record 1 999700 32536000 None None,
       clock_record 2 29943700 61480000 (Some (29944600 * time_Second)) None]) =
     Inr (clock_state 2 [clock_record 1 999700 32536000 None (Some (59752000 * time_Second)),
       clock_record 2 29943700 61480000 None None], True)"
  "clock_round 59752060 (clock_state 2 [clock_record 1 999700 32536000 None (Some (59752000 * time_Second)),
       clock_record 2 29943700 61480000 None None]) =
     Inr (clock_state 2 [clock_record 1 999700 32536000 None (Some (59752000 * time_Second)),
       clock_record 2 29943700 61480000 None None, clock_record 3 59751760 91288060 (Some (59752660 * time_Second)) None], True)"
proof -
  show "newRecord clock_ops clock_authority 1 (1000000 * time_Second) = Inr (clock_record 1 999700 32536000 None None)"
    using clock_newRecord[of 1000000 1] by simp
  have n2: "newRecord clock_ops clock_authority (1 + 1) (29944000 * time_Second) = Inr (clock_record (1 + 1) 29943700 61480000 None None)"
    using clock_newRecord[of 29944000 2] by simp
  have n3: "newRecord clock_ops clock_authority (2 + 1) (59752060 * time_Second) = Inr (clock_record (2 + 1) 59751760 91288060 None None)"
    using clock_newRecord[of 59752060 3] by simp
  note defs = ensure_update_def pruneState_def prunable_def currentIndex_def pendingIndex_def Let_def
  show "clock_round 29944000 (clock_state 1 [clock_record 1 999700 32536000 None None]) =
     Inr (clock_state 1 [clock_record 1 999700 32536000 None None,
       clock_record 2 29943700 61480000 (Some (29944600 * time_Second)) None], True)"
    using clock_rotate[OF n2, of "clock_state 1 [clock_record 1 999700 32536000 None None]"]
    by (simp add: defs) (simp add: ca_times)
  show "clock_round 59752000 (clock_state 1 [clock_record 1 999700 32536000 None None,
       clock_record 2 29943700 61480000 (Some (29944600 * time_Second)) None]) =
     Inr (clock_state 2 [clock_record 1 999700 32536000 None (Some (59752000 * time_Second)),
       clock_record 2 29943700 61480000 None None], True)"
    by (simp add: defs ensure_expired_def expired_candidate_def clock_authority_def publicationReady_def promoteState_def)
      (simp add: ca_times)
  show "clock_round 59752060 (clock_state 2 [clock_record 1 999700 32536000 None (Some (59752000 * time_Second)),
       clock_record 2 29943700 61480000 None None]) =
     Inr (clock_state 2 [clock_record 1 999700 32536000 None (Some (59752000 * time_Second)),
       clock_record 2 29943700 61480000 None None, clock_record 3 59751760 91288060 (Some (59752660 * time_Second)) None], True)"
    using clock_rotate[OF n3, of "clock_state 2 [clock_record 1 999700 32536000 None (Some (59752000 * time_Second)),
       clock_record 2 29943700 61480000 None None]"]
    by (simp add: defs) (simp add: ca_times)
qed


theorem ca_rotation_safe_witness:
  "\<exists>cs. check_state clock_ops clock_authority (29944000 * time_Second) False
     (clock_state 1 [clock_record 1 999700 32536000 None None,
       clock_record 2 29943700 61480000 (Some (29944600 * time_Second)) None]) = Inr cs"
proof -
  let ?s = "clock_state 1 [clock_record 1 999700 32536000 None None]"
  have valid: "check_state clock_ops clock_authority (29944000 * time_Second) False ?s
      = Inr (map (parsed clock_ops) (ca_Certs ?s))"
    unfolding check_state_iff using clock_record_ok[of 1 999700 32536000]
    by (simp add: current_ok_def) (simp add: ca_times)
  have window: "rotation_window clock_ops (29944000 * time_Second) ?s" by (simp add: rotation_window_def)
  obtain st where "ensure_update clock_ops quiet_store clock_authority (29944000 * time_Second) ?s empty_store =
     (Inr (clock_state 1 [clock_record 1 999700 32536000 None None,
       clock_record 2 29943700 61480000 (Some (29944600 * time_Second)) None], True), st)"
    using clock_rotation(2) by (metis prod.collapse)
  from ca_rotation_safe[OF clock_laws valid _ window this] show ?thesis by simp
qed


definition clock_issuer :: Authority where
  "clock_issuer = clock_authority\<lparr>a_ca := Some (parsed clock_ops (clock_record 1 999700 32536000 None None))\<rparr>"

lemma clock_issue:
  "\<exists>m. Issue clock_ops clock_issuer (Inr (''p'', ''k'')) (Inr ''0123456789abcdef'') ''default'' pod [] (2000000 * time_Second) = Inr m \<and>
     m_SPIFFEID m = pod_spiffe ''demo'' ''default'' pod" if "ValidID pod"
proof -
  have v: "ValidNamespace ''default''" by code_simp
  obtain serial where serial: "randomSerial (Inr ''0123456789abcdef'') = Inr serial" by (simp add: randomSerial_def Let_def)
  obtain ca where ca: "a_ca clock_issuer = Some ca" "x_NotBefore ca = 999700 * time_Second" "x_NotAfter ca = 32536000 * time_Second"
    by (simp add: clock_issuer_def)
  have a: "a_cluster clock_issuer = ''demo''" by (simp add: clock_issuer_def clock_authority_def)
  have ops: "wo_ParseURL clock_ops = Inr" "wo_MarshalPKCS8 clock_ops = Inr" "wo_CreateCertificate clock_ops = clock_create"
    by (simp_all add: clock_ops_def)
  have "length (dec_nat 1999700) + length (dec_nat 2086400) \<le> 8191" using length_dec_nat[of 1999700 9] length_dec_nat[of 2086400 9] by simp
  then show ?thesis
    using v that unfolding Issue_def workload_issue_def ca(1) a serial ops
    by (simp add: Let_def ca) (simp add: ca_times clock_create_def Let_def)
qed

lemma issued_identity_example:
  "\<exists>m m'. Issue clock_ops clock_issuer (Inr (''p'', ''k'')) (Inr ''0123456789abcdef'') ''default'' ''web'' [] (2000000 * time_Second) = Inr m \<and>
     Issue clock_ops clock_issuer (Inr (''p'', ''k'')) (Inr ''0123456789abcdef'') ''default'' ''db'' [] (2000000 * time_Second) = Inr m' \<and>
     m_SPIFFEID m \<noteq> m_SPIFFEID m' \<and> 2000000 * time_Second < m_NotAfter m"
proof -
  have "ValidID ''web''" "ValidID ''db''" by code_simp+
  then obtain m m' where
    "Issue clock_ops clock_issuer (Inr (''p'', ''k'')) (Inr ''0123456789abcdef'') ''default'' ''web'' [] (2000000 * time_Second) = Inr m"
    "Issue clock_ops clock_issuer (Inr (''p'', ''k'')) (Inr ''0123456789abcdef'') ''default'' ''db'' [] (2000000 * time_Second) = Inr m'"
    using clock_issue by blast
  with issued_identity[OF this] show ?thesis by auto
qed

end
