(* ===== verification/Staticpod.thy ===== *)
theory Staticpod
  imports Staticpod_Build Staticpod_Files Cloud_Store Workload_Ca
begin

text \<open>
  Reconciliation of static Pods, \<open>src/internal/agent/staticpod/reconciler.go\<close> and
  \<open>runtime.go\<close>. A round reads the index, verifies and builds every Pod of the node group,
  stages the files, confirms that neither the index nor the CA has changed, commits, removes
  what is stale, and only then replaces the state that it keeps.

  The identity authority, the clock and the iteration order of Go maps are the record
  \<open>round_env\<close>: what \<open>Revision\<close> returned at its three reads, the time at each use by Pod name,
  and the permutations in which the loops visit their maps. Names are distinct, so a Pod
  is issued at most one identity in a round.
\<close>

section \<open>State\<close>

record Reconciler =
  rc_indexETag :: string
  rc_health :: bool
  rc_services :: "manifest_Service list"
  rc_identities :: "(string \<times> int) list"
  rc_identityMaterial :: "(string \<times> Material) list"
  rc_deployments :: "(string \<times> IndexDeployment) list"
  rc_identityRevision :: "64 word"

record round_env =
  re_authorityRevision :: "64 word"
  re_checkRevision :: "64 word"
  re_confirmRevision :: "64 word"
  re_checkNow :: "string \<Rightarrow> int"
  re_now :: "string \<Rightarrow> int"
  re_Issue :: "string \<Rightarrow> string \<Rightarrow> string \<Rightarrow> int \<Rightarrow> error + Material"
  re_order :: "Index \<Rightarrow> Index"
  re_fileOrder :: "(string \<times> string) list \<Rightarrow> (string \<times> string) list"
  re_providerOrder :: "(string \<times> (string \<times> string) list) list \<Rightarrow> (string \<times> (string \<times> string) list) list"
  re_generationOrder :: "(string \<times> string) list \<Rightarrow> (string \<times> string) list"

definition errDesiredStateChanged :: error where
  "errDesiredStateChanged = Sentinel ''desired state changed while reconciling''"

text \<open>The interfaces that are given, in the order of the arguments and of the configuration.\<close>

definition NewReconciler :: "staticpod_Config \<Rightarrow> bool \<Rightarrow> bool \<Rightarrow> bool \<Rightarrow> bool \<Rightarrow> error + Reconciler" where
  "NewReconciler config objects params secrets authority =
     (if sc_Cluster config = [] \<or> sc_NodeGroup config = [] \<or> sc_StaticDir config = [] \<or> sc_SecretDir config = []
         \<or> \<not> objects \<or> \<not> params \<or> \<not> secrets \<or> \<not> authority
      then Inl (errors_New ''cluster, node group, directories, object store, parameter store, secret store, and identity authority are required'')
      else Inr \<lparr>rc_indexETag = [], rc_health = False, rc_services = [], rc_identities = [], rc_identityMaterial = [],
                rc_deployments = [], rc_identityRevision = 0\<rparr>)"

definition reconciler_Healthy :: "Reconciler \<Rightarrow> bool" where
  "reconciler_Healthy r = rc_health r"

definition snapshot_Services :: "manifest_Service list \<Rightarrow> manifest_Service list" where
  "snapshot_Services input = map (\<lambda>service. service) input"

definition reconciler_Services :: "Reconciler \<Rightarrow> manifest_Service list" where
  "reconciler_Services r = snapshot_Services (rc_services r)"

section \<open>The candidates\<close>

definition indexKey :: string where
  "indexKey = ''deployments/index.json''"

definition read_index :: "cloud_store \<Rightarrow> store_state \<Rightarrow> (error + Index \<times> string) \<times> store_state" where
  "read_index cl st =
     (case cloud_Get cl indexKey st of
        (Inl e, st') \<Rightarrow>
          (if errors_Is e cloud_ErrNotFound then Inr ([], []) else Inl (Wrapf ''read index'' [] e), st')
      | (Inr (body, etag), st') \<Rightarrow>
          (case ParseIndex body of
             Inl e \<Rightarrow> Inl (Wrapf ''read index'' [] e)
           | Inr index \<Rightarrow> Inr (index, etag), st'))"

definition up_to_date :: "round_env \<Rightarrow> string \<Rightarrow> Reconciler \<Rightarrow> bool" where
  "up_to_date env indexETag r \<longleftrightarrow>
     indexETag = rc_indexETag r \<and> rc_health r \<and> re_checkRevision env = rc_identityRevision r \<and>
     \<not> list_ex (\<lambda>(name, expiry). NeedsRenewal expiry (re_checkNow env name)) (rc_identities r)"

definition selected_deployments :: "staticpod_Config \<Rightarrow> Index \<Rightarrow> (string \<times> IndexDeployment) list" where
  "selected_deployments config index =
     concat (map (\<lambda>(key, deployment).
       (case DeploymentIdentity key of
          Some (nodeGroup, name) \<Rightarrow> if nodeGroup = sc_NodeGroup config then [(name, deployment)] else []
        | None \<Rightarrow> if [] = sc_NodeGroup config then [([], deployment)] else [])) index)"

record candidate =
  cd_name :: string
  cd_service :: string
  cd_manifest :: string
  cd_secrets :: "(string \<times> (string \<times> string) list) list"
  cd_identity :: Material
  cd_identityGeneration :: string
  cd_deployment :: IndexDeployment
  cd_publish :: bool

record round =
  rd_candidates :: "candidate list"
  rd_services :: "manifest_Service list"
  rd_names :: "string set"
  rd_serviceNames :: "string set"
  rd_store :: store_state

text \<open>An object of the store with the body that its name promises.\<close>

definition verified_object :: "cloud_store \<Rightarrow> string \<Rightarrow> store_state \<Rightarrow> error + string \<times> store_state" where
  "verified_object cl key st =
     (case cloud_Get cl key st of
        (Inl e, _) \<Rightarrow> Inl (Wrapf ''get %s'' [key] e)
      | (Inr (input, _), st') \<Rightarrow>
          (case Verify key input of
             Some e \<Rightarrow> Inl (Wrapf ''verify %s'' [key] e)
           | None \<Rightarrow> Inr (input, st')))"

definition time_Zero :: int where
  "time_Zero = - 62135596800 * time_Second"

definition zero_deployment :: IndexDeployment where
  "zero_deployment = \<lparr>id_Pod = [], id_Service = []\<rparr>"

definition lookup_or :: "'b \<Rightarrow> ('a \<times> 'b) list \<Rightarrow> 'a \<Rightarrow> 'b" where
  "lookup_or d m k = (case map_of m k of Some v \<Rightarrow> v | None \<Rightarrow> d)"

definition must_publish :: "round_env \<Rightarrow> Reconciler \<Rightarrow> string \<Rightarrow> IndexDeployment \<Rightarrow> bool" where
  "must_publish env r name deployment \<longleftrightarrow>
     \<not> (lookup_or zero_deployment (rc_deployments r) name = deployment \<and> rc_identityRevision r = re_authorityRevision env)
     \<or> map_of (rc_identityMaterial r) name = None
     \<or> NeedsRenewal (lookup_or time_Zero (rc_identities r) name) (re_now env name)"

text \<open>The identity that is kept when nothing has changed and it is not to be renewed, or a new one.\<close>

definition identity_material ::
  "round_env \<Rightarrow> Reconciler \<Rightarrow> built \<Rightarrow> IndexDeployment \<Rightarrow> error + Material" where
  "identity_material env r c deployment =
     (case map_of (rc_identityMaterial r) (bu_name c) of
        Some material \<Rightarrow>
          if \<not> must_publish env r (bu_name c) deployment then Inr material
          else re_Issue env (bu_namespace c) (bu_name c) (bu_service c) (re_now env (bu_name c))
      | None \<Rightarrow> re_Issue env (bu_namespace c) (bu_name c) (bu_service c) (re_now env (bu_name c)))"

definition candidate_service ::
  "('x) service_ops_scheme \<Rightarrow> cloud_store \<Rightarrow> built \<Rightarrow> string \<Rightarrow> round \<Rightarrow> error + round" where
  "candidate_service ops cl c serviceKey rd =
     (if serviceKey = []
      then if bu_service c \<noteq> []
           then Inl (Errorf ''pod %q annotates unreferenced Service %q'' [bu_name c, bu_service c])
           else Inr rd
      else case verified_object cl serviceKey (rd_store rd) of
             Inl e \<Rightarrow> Inl e
           | Inr (serviceInput, st') \<Rightarrow>
               (case ParseService ops serviceInput of
                  Inl e \<Rightarrow> Inl (Wrapf ''validate %s'' [serviceKey] e)
                | Inr service \<Rightarrow>
                    if bu_service c \<noteq> ms_Name service \<or> bu_namespace c \<noteq> ms_Namespace service
                    then Inl (Errorf ''referenced Service %q does not exactly match Pod %q annotation and namespace''
                                [ms_Name service, bu_name c])
                    else if (case ServiceIdentity serviceKey of
                               Some (keyNamespace, keyName, _) \<Rightarrow> keyNamespace \<noteq> ms_Namespace service \<or> keyName \<noteq> ms_Name service
                             | None \<Rightarrow> True)
                    then Inl (Errorf ''referenced Service payload %q/%q does not match object key identity''
                                [ms_Namespace service, ms_Name service])
                    else let identity = ms_Namespace service @ ''/'' @ ms_Name service
                         in if identity \<in> rd_serviceNames rd then Inl (Errorf ''duplicate Service %q'' [identity])
                            else Inr (rd\<lparr>rd_serviceNames := insert identity (rd_serviceNames rd),
                                         rd_services := rd_services rd @ [service], rd_store := st'\<rparr>)))"

definition build_candidate ::
  "('x) service_ops_scheme \<Rightarrow> staticpod_Config \<Rightarrow> secret_readers \<Rightarrow> cloud_store \<Rightarrow> round_env \<Rightarrow> Reconciler
     \<Rightarrow> string \<times> IndexDeployment \<Rightarrow> round \<Rightarrow> error + round" where
  "build_candidate ops config stores cl env r = (\<lambda>(name, deployment) rd.
     let podKey = id_Pod deployment
     in case verified_object cl podKey (rd_store rd) of
          Inl e \<Rightarrow> Inl e
        | Inr (input, st') \<Rightarrow>
            (case build ops config stores input (deploymentRevision deployment) of
               Inl e \<Rightarrow> Inl (Wrapf ''build %s'' [podKey] e)
             | Inr c \<Rightarrow>
                 if bu_name c \<noteq> name then Inl (Errorf ''indexed deployment %q contains Pod %q'' [name, bu_name c])
                 else if bu_name c \<in> rd_names rd then Inl (Errorf ''duplicate Pod name %q'' [bu_name c])
                 else case identity_material env r c deployment of
                        Inl e \<Rightarrow> Inl (Wrapf ''issue identity for Pod %q'' [bu_name c] e)
                      | Inr material \<Rightarrow>
                          (case identityRevision ops (bu_manifest c) (m_Certificate material) of
                             Inl e \<Rightarrow> Inl (Wrapf ''annotate identity for Pod %q'' [bu_name c] e)
                           | Inr (identityManifest, identityGeneration) \<Rightarrow>
                               candidate_service ops cl c (id_Service deployment)
                                 (rd\<lparr>rd_candidates := rd_candidates rd @
                                       [\<lparr>cd_name = bu_name c, cd_service = bu_service c, cd_manifest = identityManifest,
                                         cd_secrets = bu_secrets c, cd_identity = material,
                                         cd_identityGeneration = identityGeneration, cd_deployment = deployment,
                                         cd_publish = must_publish env r (bu_name c) deployment\<rparr>],
                                     rd_names := insert (bu_name c) (rd_names rd), rd_store := st'\<rparr>))))"

definition build_round ::
  "('x) service_ops_scheme \<Rightarrow> staticpod_Config \<Rightarrow> secret_readers \<Rightarrow> cloud_store \<Rightarrow> round_env \<Rightarrow> Reconciler
     \<Rightarrow> Index \<Rightarrow> store_state \<Rightarrow> error + round" where
  "build_round ops config stores cl env r index st =
     fold_res (build_candidate ops config stores cl env r) (selected_deployments config (re_order env index))
       \<lparr>rd_candidates = [], rd_services = [], rd_names = {}, rd_serviceNames = {}, rd_store = st\<rparr>"

section \<open>Staging and publication\<close>

datatype stage_action = SFile string string nat nat | SLink string string

definition candidate_actions :: "staticpod_Config \<Rightarrow> round_env \<Rightarrow> candidate \<Rightarrow> stage_action list" where
  "candidate_actions config env c =
     (if \<not> cd_publish c then []
      else map (\<lambda>(name, v).
             SFile (filepath_Join [sc_SecretDir config, cd_name c, ''identity-generations'', cd_identityGeneration c, name]) v 493 292)
             (re_fileOrder env
                [(''tls.crt'', m_Certificate (cd_identity c)), (''tls.key'', m_PrivateKey (cd_identity c)),
                 (''ca.crt'', m_CABundle (cd_identity c))])
         @ [SLink (filepath_Join [sc_SecretDir config, cd_name c, ''identity''])
              (filepath_Join [''identity-generations'', cd_identityGeneration c])]
         @ concat (map (\<lambda>(provider, contents).
             map (\<lambda>(key, v). SFile (filepath_Join [sc_SecretDir config, cd_name c, provider, key]) v 493 292)
               (re_fileOrder env contents)) (re_providerOrder env (cd_secrets c)))
         @ [SFile (filepath_Join [sc_StaticDir config, cd_name c @ ''.yaml'']) (cd_manifest c) 448 384])"

fun stage :: "host \<Rightarrow> stage_action \<Rightarrow> filesystem \<Rightarrow> (error + staged) \<times> filesystem" where
  "stage host (SFile path body directoryMode fileMode) fs = stageFile host path body directoryMode fileMode fs"
| "stage host (SLink path target) fs = stageSymlink host path target fs"

text \<open>What was staged before an error is returned with it, for the deferred discard.\<close>

fun stage_all :: "host \<Rightarrow> stage_action list \<Rightarrow> filesystem \<Rightarrow> error option \<times> staged list \<times> filesystem" where
  "stage_all host [] fs = (None, [], fs)"
| "stage_all host (a # as) fs =
     (case stage host a fs of
        (Inl e, fs1) \<Rightarrow> (Some e, [], fs1)
      | (Inr s, fs1) \<Rightarrow> (let (e, ss, fs2) = stage_all host as fs1 in (e, s # ss, fs2)))"

fun commit_all :: "host \<Rightarrow> staged list \<Rightarrow> filesystem \<Rightarrow> error option \<times> staged list \<times> filesystem" where
  "commit_all host [] fs = (None, [], fs)"
| "commit_all host (s # ss) fs =
     (case staged_commit host s fs of
        (Some e, s', fs1) \<Rightarrow> (Some e, s' # ss, fs1)
      | (None, s', fs1) \<Rightarrow> (let (e, ss', fs2) = commit_all host ss fs1 in (e, s' # ss', fs2)))"

definition discard_all :: "host \<Rightarrow> staged list \<Rightarrow> filesystem \<Rightarrow> filesystem" where
  "discard_all host ss fs = fold (discard host) ss fs"

definition confirm_round :: "cloud_store \<Rightarrow> round_env \<Rightarrow> string \<Rightarrow> store_state \<Rightarrow> error option \<times> store_state" where
  "confirm_round cl env indexETag st =
     (let (got, st') = cloud_Get cl indexKey st;
          (err, confirmedETag) = (case got of
             Inl e \<Rightarrow> (if errors_Is e cloud_ErrNotFound \<and> indexETag = [] then None else Some e, [])
           | Inr (_, etag) \<Rightarrow> (None, etag))
      in (case err of
            Some e \<Rightarrow> Some (Wrapf ''confirm index'' [] e)
          | None \<Rightarrow>
              if confirmedETag \<noteq> indexETag then Some (Wrapf ''deployment index'' [] errDesiredStateChanged)
              else if re_confirmRevision env \<noteq> re_authorityRevision env
              then Some (Wrapf ''workload CA'' [] errDesiredStateChanged)
              else None, st'))"

definition cleanup_round ::
  "host \<Rightarrow> staticpod_Config \<Rightarrow> round_env \<Rightarrow> candidate list \<Rightarrow> filesystem \<Rightarrow> error option \<times> filesystem" where
  "cleanup_round host config env candidates fs =
     (case cleanup host (sc_StaticDir config) (sc_SecretDir config) (set (map cd_name candidates))
             (map (\<lambda>c. (cd_name c, map (\<lambda>(provider, contents). (provider, map fst contents)) (cd_secrets c))) candidates) fs of
        (Some e, fs1) \<Rightarrow> (Some e, fs1)
      | (None, fs1) \<Rightarrow>
          cleanupIdentityGenerations host (sc_SecretDir config)
            (re_generationOrder env (map (\<lambda>c. (cd_name c, cd_identityGeneration c)) candidates)) fs1)"

definition round_state :: "round_env \<Rightarrow> string \<Rightarrow> round \<Rightarrow> Reconciler \<Rightarrow> Reconciler" where
  "round_state env indexETag rd r =
     r\<lparr>rc_services := snapshot_Services (rd_services rd),
       rc_identities := map (\<lambda>c. (cd_name c, m_NotAfter (cd_identity c))) (rd_candidates rd),
       rc_identityMaterial := map (\<lambda>c. (cd_name c, cd_identity c)) (rd_candidates rd),
       rc_deployments := map (\<lambda>c. (cd_name c, cd_deployment c)) (rd_candidates rd),
       rc_identityRevision := re_authorityRevision env, rc_indexETag := indexETag, rc_health := True\<rparr>"

text \<open>Confirmation, commits and removal, between staging and the deferred discard.\<close>

definition publish_staged ::
  "host \<Rightarrow> staticpod_Config \<Rightarrow> cloud_store \<Rightarrow> round_env \<Rightarrow> string \<Rightarrow> round \<Rightarrow> staged list \<Rightarrow> filesystem
     \<Rightarrow> error option \<times> store_state \<times> staged list \<times> filesystem" where
  "publish_staged host config cl env indexETag rd ss fs =
     (case confirm_round cl env indexETag (rd_store rd) of
        (Some e, st') \<Rightarrow> (Some e, st', ss, fs)
      | (None, st') \<Rightarrow>
          (case commit_all host ss fs of
             (Some e, ss', fs') \<Rightarrow> (Some e, st', ss', fs')
           | (None, ss', fs') \<Rightarrow>
               (let (e, fs'') = cleanup_round host config env (rd_candidates rd) fs' in (e, st', ss', fs''))))"

text \<open>
  The result: the error, the new state, what was passed to \<open>PublishServices\<close>, and the file
  system. The store only serves reads and its calls are not needed after the round.
\<close>

definition publish_round ::
  "host \<Rightarrow> staticpod_Config \<Rightarrow> cloud_store \<Rightarrow> round_env \<Rightarrow> string \<Rightarrow> round \<Rightarrow> Reconciler \<Rightarrow> filesystem
     \<Rightarrow> error option \<times> Reconciler \<times> manifest_Service list option \<times> filesystem" where
  "publish_round host config cl env indexETag rd r fs =
     (let (stageErr, ss, fs1) = stage_all host (concat (map (candidate_actions config env) (rd_candidates rd))) fs
      in case stageErr of
           Some e \<Rightarrow> (Some e, r\<lparr>rc_health := False\<rparr>, None, discard_all host ss fs1)
         | None \<Rightarrow>
             (let (err, _, ss', fs2) = publish_staged host config cl env indexETag rd ss fs1;
                  fs3 = discard_all host ss' fs2
              in case err of
                   Some e \<Rightarrow> (Some e, r\<lparr>rc_health := False\<rparr>, None, fs3)
                 | None \<Rightarrow> (None, round_state env indexETag rd r, Some (snapshot_Services (rd_services rd)), fs3)))"

definition staticpod_Reconcile ::
  "('x) service_ops_scheme \<Rightarrow> host \<Rightarrow> staticpod_Config \<Rightarrow> secret_readers \<Rightarrow> cloud_store \<Rightarrow> round_env
     \<Rightarrow> Reconciler \<Rightarrow> store_state \<Rightarrow> filesystem
     \<Rightarrow> error option \<times> Reconciler \<times> manifest_Service list option \<times> filesystem" where
  "staticpod_Reconcile ops host config stores cl env r st fs =
     (case read_index cl st of
        (Inl e, _) \<Rightarrow> (Some e, r\<lparr>rc_health := False\<rparr>, None, fs)
      | (Inr (index, indexETag), st1) \<Rightarrow>
          if up_to_date env indexETag r then (None, r, None, fs)
          else case build_round ops config stores cl env r index st1 of
                 Inl e \<Rightarrow> (Some e, r\<lparr>rc_health := False\<rparr>, None, fs)
               | Inr rd \<Rightarrow> publish_round host config cl env indexETag rd r fs)"

end
