(* ===== verification/Staticpod_Stage.thy ===== *)
theory Staticpod_Stage
  imports Staticpod
begin

text \<open>
  Staging and commits, as a reader of the files sees them: staging changes temporary names
  only, and a commit replaces a file as a whole, so after any number of commits the live
  files are those of before overlaid with the first changes.
\<close>

section \<open>Staging leaves the live files\<close>

lemma host_temp_name:
  assumes "host_laws host"
  shows "file_name (''.podmin-'' @ h_temp host n)" "\<not> HasPrefix (''.podmin-'' @ h_temp host n) ''.podmin-link-''"
proof -
  have d: "set (h_temp host n) \<subseteq> set ''0123456789''" using assms by (simp add: host_laws_def)
  then have "CHR ''/'' \<notin> set (h_temp host n)" by auto
  then show "file_name (''.podmin-'' @ h_temp host n)" by (auto simp: file_name_def clean_element_def)
  show "\<not> HasPrefix (''.podmin-'' @ h_temp host n) ''.podmin-link-''"
    using d by (auto simp: HasPrefix_iff)
qed

lemma Base_join_path: "file_name e \<Longrightarrow> filepath_Base (join_path d e) = e"
proof -
  assume e: "file_name e"
  show ?thesis
  proof (cases "d \<noteq> [] \<and> last d = CHR ''/''")
    case True
    then have "d = butlast d @ ''/''" by (metis append_butlast_last_id)
    then have "join_path d e = butlast d @ CHR ''/'' # e" using True unfolding join_path_def by (metis append.assoc append_Cons append_Nil)
    then show ?thesis using Base_snoc[OF e, of "butlast d"] by simp
  next
    case False
    then have "join_path d e = d @ CHR ''/'' # e" by (auto simp: join_path_def)
    then show ?thesis using Base_snoc[OF e, of d] by simp
  qed
qed

lemma fill_file_files:
  assumes "fill_file host t body mode fs = (e, fs')" and "files fs t = Some (FFile b m)"
  shows "p \<noteq> t \<Longrightarrow> files fs' p = files fs p" "e = None \<Longrightarrow> files fs' t = Some (FFile body mode)"
proof -
  obtain e1 fs1 where 1: "os_Chmod host t mode fs = (e1, fs1)" by fastforce
  note f1 = Chmod_files(2)[OF 1 assms(2)]
  have "(p \<noteq> t \<longrightarrow> files fs' p = files fs p) \<and> (e = None \<longrightarrow> files fs' t = Some (FFile body mode))" for p
  proof (cases e1)
    case (Some err)
    then show ?thesis using assms(1) 1 f1 by (auto simp: fill_file_def split: prod.splits)
  next
    case None
    obtain e2 fs2 where 2: "os_Write host t body fs1 = (e2, fs2)" by fastforce
    have "files fs1 t = Some (FFile b mode)" using f1 None by simp
    note f2 = Write_files[OF 2 this]
    show ?thesis
      using assms(1) 1 2 None f1 f2 by (cases e2) (auto simp: fill_file_def split: prod.splits option.splits)
  qed
  then show "p \<noteq> t \<Longrightarrow> files fs' p = files fs p" "e = None \<Longrightarrow> files fs' t = Some (FFile body mode)" by blast+
qed

lemma stageFile_files:
  assumes "host_laws host" and "stageFile host path body dm fm fs = (r, fs')"
  shows "\<exists>t. is_temporary t \<and> \<not> HasPrefix (filepath_Base t) ''.podmin-link-'' \<and> (\<forall>p. p \<noteq> t \<longrightarrow> files fs' p = files fs p) \<and>
    (\<forall>s. r = Inr s \<longrightarrow> s = \<lparr>sg_path = path, sg_temporary = t\<rparr> \<and> files fs t = None \<and> files fs' t = Some (FFile body fm))"
proof -
  obtain e1 fs1 where 1: "os_MkdirAll host (filepath_Dir path) dm fs = (e1, fs1)" by fastforce
  obtain e2 fs2 where 2: "os_Chmod host (filepath_Dir path) dm fs1 = (e2, fs2)" by fastforce
  let ?n = "''.podmin-'' @ h_temp host (fs_calls fs2)" let ?t = "join_path (filepath_Dir path) ?n"
  obtain e3 fs3 where 3: "os_CreateFile host ?t fs2 = (e3, fs3)" by fastforce
  obtain e4 fs4 where 4: "fill_file host ?t body fm fs3 = (e4, fs4)" by fastforce
  obtain e5 fs5 where 5: "os_Remove host ?t fs4 = (e5, fs5)" by fastforce
  have t: "is_temporary ?t" "\<not> HasPrefix (filepath_Base ?t) ''.podmin-link-''"
    using host_temp_name[OF assms(1)] by (simp_all add: is_temporary_def Base_join_path HasPrefix_def)
  show ?thesis
  proof (cases "e1 = None \<and> e2 = None \<and> e3 = None")
    case False
    have f3: "files fs3 = files fs2" if "e3 \<noteq> None" using CreateFile_files(1)[OF 3] that by (simp add: fun_eq_iff)
    have f2: "files fs2 = files fs" if "e1 = None" using MkdirAll_files[OF 1] Chmod_files(1)[OF 2] that by simp
    consider (a) x where "e1 = Some x" | (b) x where "e1 = None" "e2 = Some x" | (c) x where "e1 = None" "e2 = None" "e3 = Some x"
      using False by (cases e1; cases e2; cases e3) auto
    then have "(\<exists>x. r = Inl x) \<and> files fs' = files fs"
    proof cases
      case a
      then show ?thesis using assms(2) 1 MkdirAll_files(1)[OF 1] by (auto simp: stageFile_def Let_def)
    next
      case b
      then show ?thesis using assms(2) 1 2 f2 by (auto simp: stageFile_def Let_def)
    next
      case c
      then show ?thesis using assms(2) 1 2 3 f2 f3 by (auto simp: stageFile_def Let_def)
    qed
    with t show ?thesis by auto
  next
    case True
    then have f2: "files fs2 = files fs" using MkdirAll_files[OF 1] Chmod_files(1)[OF 2] by simp
    have fresh: "files fs ?t = None" and f3: "files fs3 p = (if p = ?t then Some (FFile [] 384) else files fs p)" for p
      using CreateFile_files[OF 3] True f2 by simp_all
    from f3[of ?t] have c3: "files fs3 ?t = Some (FFile [] 384)" by simp
    note f4 = fill_file_files[OF 4 c3]
    show ?thesis
    proof (cases e4)
      case None
      then have "r = Inr \<lparr>sg_path = path, sg_temporary = ?t\<rparr>" "fs' = fs4"
        using assms(2) 1 2 3 4 True by (simp_all add: stageFile_def Let_def)
      with f3 f4 None fresh t show ?thesis by (intro exI[of _ ?t]) simp
    next
      case (Some err)
      then have "r = Inl err" "fs' = fs5" using assms(2) 1 2 3 4 5 True by (simp_all add: stageFile_def Let_def)
      with f3 f4(1) Remove_files[OF 5] t show ?thesis by (intro exI[of _ ?t]) simp
    qed
  qed
qed

definition link_temporary :: "string \<Rightarrow> string \<Rightarrow> string" where
  "link_temporary path target = filepath_Join [filepath_Dir path, ''.podmin-link-'' @ filepath_Base target]"

lemma link_temporary_Base:
  assumes "rooted (filepath_Dir path)" and "file_name (filepath_Base target)"
  shows "filepath_Base (link_temporary path target) = ''.podmin-link-'' @ filepath_Base target"
proof -
  have "file_name (''.podmin-link-'' @ filepath_Base target)" using assms(2) by (simp add: file_name_def clean_element_def)
  then show ?thesis using Join_rooted[OF assms(1), of "[''.podmin-link-'' @ filepath_Base target]"]
    by (simp add: link_temporary_def Base_abs del: append.simps)
qed

lemma stageSymlink_files:
  assumes "stageSymlink host path target fs = (r, fs')"
  shows "p \<noteq> link_temporary path target \<Longrightarrow> files fs' p = files fs p"
    and "r = Inr s \<Longrightarrow> s = \<lparr>sg_path = path, sg_temporary = link_temporary path target\<rparr> \<and>
      files fs' (link_temporary path target) = Some (FLink target)"
proof -
  let ?t = "link_temporary path target"
  obtain e1 fs1 where 1: "os_MkdirAll host (filepath_Dir path) 448 fs = (e1, fs1)" by fastforce
  obtain e2 fs2 where 2: "os_Remove host ?t fs1 = (e2, fs2)" by fastforce
  obtain e3 fs3 where 3: "os_Symlink host target ?t fs2 = (e3, fs3)" by fastforce
  note f = MkdirAll_files(1)[OF 1] Remove_files[OF 2] Symlink_files(1)[OF 3]
  have eq: "(r, fs') = (case e1 of Some e \<Rightarrow> (Inl e, fs1) | None \<Rightarrow>
      case e3 of Some e \<Rightarrow> (Inl e, fs3) | None \<Rightarrow> (Inr \<lparr>sg_path = path, sg_temporary = ?t\<rparr>, fs3))"
    using assms 1 2 3 by (auto simp: stageSymlink_def link_temporary_def Let_def split: option.splits)
  show "p \<noteq> ?t \<Longrightarrow> files fs' p = files fs p" using eq f by (auto split: option.splits)
  show "r = Inr s \<Longrightarrow> s = \<lparr>sg_path = path, sg_temporary = ?t\<rparr> \<and> files fs' ?t = Some (FLink target)"
    using eq f(3) by (auto split: option.splits)
qed


section \<open>Staging a list of changes\<close>

fun action_path :: "stage_action \<Rightarrow> string" where
  "action_path (SFile path body dm fm) = path"
| "action_path (SLink path target) = path"

fun action_node :: "stage_action \<Rightarrow> fs_node" where
  "action_node (SFile path body dm fm) = FFile body fm"
| "action_node (SLink path target) = FLink target"

fun action_ok :: "stage_action \<Rightarrow> bool" where
  "action_ok (SFile path body dm fm) = True"
| "action_ok (SLink path target) = (rooted (filepath_Dir path) \<and> file_name (filepath_Base target))"

fun link_temporaries :: "stage_action list \<Rightarrow> string list" where
  "link_temporaries [] = []"
| "link_temporaries (SFile path body dm fm # as) = link_temporaries as"
| "link_temporaries (SLink path target # as) = link_temporary path target # link_temporaries as"

lemma link_temporaries_Base:
  "\<forall>a \<in> set as. action_ok a \<Longrightarrow> p \<in> set (link_temporaries as) \<Longrightarrow> HasPrefix (filepath_Base p) ''.podmin-link-''"
  by (induction as rule: link_temporaries.induct) (auto simp: link_temporary_Base HasPrefix_def)

lemma stage_files:
  assumes "host_laws host" and "action_ok a" and "stage host a fs = (r, fs')"
  obtains t where "is_temporary t" "link_temporaries [a] = [t] \<or> link_temporaries [a] = [] \<and> \<not> HasPrefix (filepath_Base t) ''.podmin-link-''"
    "\<And>p. p \<noteq> t \<Longrightarrow> files fs' p = files fs p"
    "\<And>s. r = Inr s \<Longrightarrow> s = \<lparr>sg_path = action_path a, sg_temporary = t\<rparr> \<and> files fs' t = Some (action_node a) \<and>
       (link_temporaries [a] = [] \<longrightarrow> files fs t = None)"
proof (cases a)
  case (SFile path body dm fm)
  then show thesis using stageFile_files[OF assms(1), of path body dm fm fs r fs'] assms(3) that by auto
next
  case (SLink path target)
  have "is_temporary (link_temporary path target)"
    using link_temporary_Base[of path target] assms(2) SLink by (simp add: is_temporary_def HasPrefix_def)
  then show thesis using stageSymlink_files[of host path target fs r fs'] assms(3) SLink that[of "link_temporary path target"] by auto
qed

lemma link_temporaries_Cons: "link_temporaries (a # as) = link_temporaries [a] @ link_temporaries as"
  by (cases a) simp_all

text \<open>
  Staging changes temporary names only. A temporary name is the place of a link that is
  staged, or it was free; so what is staged stays until it is committed.
\<close>

lemma stage_all_files:
  assumes "host_laws host" and "\<forall>a \<in> set as. action_ok a" and "distinct (link_temporaries as)"
    and "stage_all host as fs = (e, ss, fs')"
  shows "live fs' = live fs \<and> (\<forall>s \<in> set ss. is_temporary (sg_temporary s)) \<and>
    (e = None \<longrightarrow> (\<forall>p. files fs p \<noteq> None \<and> p \<notin> set (link_temporaries as) \<longrightarrow> files fs' p = files fs p) \<and>
       (\<forall>s \<in> set ss. sg_temporary s \<in> set (link_temporaries as) \<or> files fs (sg_temporary s) = None) \<and>
       distinct (map sg_temporary ss) \<and>
       list_all2 (\<lambda>a s. sg_path s = action_path a \<and> files fs' (sg_temporary s) = Some (action_node a)) as ss)"
  using assms(2-4)
proof (induction as arbitrary: fs e ss)
  case (Cons a as)
  obtain r fs1 where 1: "stage host a fs = (r, fs1)" by fastforce
  have ok: "action_ok a" "\<forall>a \<in> set as. action_ok a" "distinct (link_temporaries as)"
    and sep: "set (link_temporaries [a]) \<inter> set (link_temporaries as) = {}"
    using Cons.prems(1,2) by (simp_all add: link_temporaries_Cons[of a as])
  obtain t where t: "is_temporary t" "link_temporaries [a] = [t] \<or> link_temporaries [a] = [] \<and> \<not> HasPrefix (filepath_Base t) ''.podmin-link-''"
    and frame: "\<And>p. p \<noteq> t \<Longrightarrow> files fs1 p = files fs p"
    and s: "\<And>s. r = Inr s \<Longrightarrow> s = \<lparr>sg_path = action_path a, sg_temporary = t\<rparr> \<and> files fs1 t = Some (action_node a) \<and>
       (link_temporaries [a] = [] \<longrightarrow> files fs t = None)"
    using that by (rule stage_files[OF assms(1) ok(1) 1])
  have live1: "live fs1 = live fs" proof
    fix p show "live fs1 p = live fs p" using frame[of p] t(1) by (cases "p = t") (simp_all add: live_def)
  qed
  have tl: "t \<notin> set (link_temporaries as)" using t(2) sep link_temporaries_Base[OF ok(2)] by auto
  show ?case
  proof (cases r)
    case (Inl x)
    then have "\<exists>x. e = Some x" "ss = []" "fs' = fs1" using Cons.prems(3) 1 by auto
    then show ?thesis using live1 by auto
  next
    case (Inr s0)
    obtain ss0 where ss: "stage_all host as fs1 = (e, ss0, fs')" "ss = s0 # ss0"
      using Cons.prems(3) 1 Inr by (auto split: prod.splits)
    note s0 = s[OF Inr]
    note IH = Cons.IH[OF ok(2,3) ss(1)]
    have temps: "\<forall>s \<in> set ss. is_temporary (sg_temporary s)" using IH s0 t(1) ss(2) by simp
    show ?thesis
    proof (cases e)
      case None
      have F: "files fs' p = files fs1 p" if "files fs1 p \<noteq> None" "p \<notin> set (link_temporaries as)" for p
        using IH None that by blast
      have ft: "files fs' t = Some (action_node a)" using F[of t] s0 tl by simp
      have frame': "files fs' p = files fs p" if "files fs p \<noteq> None" "p \<notin> set (link_temporaries (a # as))" for p
      proof -
        have "p \<noteq> t" using that t(2) s0 by (auto simp: link_temporaries_Cons[of a as])
        then show ?thesis using F[of p] frame[of p] that by (simp add: link_temporaries_Cons[of a as])
      qed
      have other: "sg_temporary s \<noteq> t" if "s \<in> set ss0" for s using IH None that s0 tl by force
      have origin: "sg_temporary s \<in> set (link_temporaries (a # as)) \<or> files fs (sg_temporary s) = None" if "s \<in> set ss" for s
      proof (cases "s = s0")
        case True
        then show ?thesis using s0 t(2) by (auto simp: link_temporaries_Cons[of a as])
      next
        case False
        then have m: "s \<in> set ss0" using that ss(2) by simp
        then show ?thesis using IH None frame[OF other[OF m]] by (auto simp: link_temporaries_Cons[of a as])
      qed
      have "distinct (map sg_temporary ss)" using IH None other s0 ss(2) by auto
      moreover have "list_all2 (\<lambda>a s. sg_path s = action_path a \<and> files fs' (sg_temporary s) = Some (action_node a)) (a # as) ss"
        using IH None ft s0 ss(2) by simp
      ultimately show ?thesis using IH live1 temps frame' origin by simp
    next
      case (Some x)
      then show ?thesis using IH live1 temps by simp
    qed
  qed
qed simp

section \<open>Commits\<close>

lemma syncDirectory_files: "syncDirectory host path fs = (e, fs') \<Longrightarrow> files fs' = files fs"
proof -
  assume a: "syncDirectory host path fs = (e, fs')"
  obtain e1 fs1 where 1: "fs_call host (\<lambda>nodes. if map_of nodes (filepath_Clean path) = None then Inl os_ErrNotExist else Inr nodes) fs = (e1, fs1)"
    by fastforce
  have f1: "files fs1 = files fs" using 1 by (cases rule: fs_call_cases) (auto simp: files_nodes[of fs] split: if_splits)
  obtain e2 fs2 where 2: "os_Sync host fs1 = (e2, fs2)" by fastforce
  obtain e3 fs3 where 3: "os_Sync host fs2 = (e3, fs3)" by fastforce
  show ?thesis using a 1 2 3 f1 by (auto simp: syncDirectory_def split: option.splits)
qed

lemma commit_files:
  assumes "staged_commit host s fs = (e, s', fs')" and "files fs (sg_temporary s) = Some n"
    and "is_temporary (sg_temporary s)" and "\<not> is_temporary (sg_path s)"
  obtains (kept) "e \<noteq> None" "s' = s" "files fs' = files fs"
  | (renamed) "s' = s\<lparr>sg_temporary := []\<rparr>" "files fs' = (files fs)(sg_temporary s := None, sg_path s := Some n)"
proof -
  obtain e1 fs1 where 1: "os_Rename host (sg_temporary s) (sg_path s) fs = (e1, fs1)" by fastforce
  have "sg_temporary s \<noteq> sg_path s" using assms(3,4) by auto
  note f1 = Rename_files[OF 1 assms(2) this]
  show thesis
  proof (cases e1)
    case None
    obtain e2 fs2 where 2: "syncDirectory host (filepath_Dir (sg_path s)) fs1 = (e2, fs2)" by fastforce
    have "s' = s\<lparr>sg_temporary := []\<rparr>" "fs' = fs2" using assms(1) 1 2 None by (simp_all add: staged_commit_def)
    moreover have "files fs1 = (files fs)(sg_temporary s := None, sg_path s := Some n)" using f1 None by (auto simp: fun_eq_iff)
    ultimately show thesis using renamed syncDirectory_files[OF 2] by simp
  next
    case (Some x)
    then show thesis using kept assms(1) 1 f1 by (auto simp: staged_commit_def fun_eq_iff)
  qed
qed

text \<open>The content that a list of changes leaves under a path: the last change decides.\<close>

definition changes :: "stage_action list \<Rightarrow> string \<Rightarrow> fs_node option" where
  "changes as = map_of (rev (map (\<lambda>a. (action_path a, action_node a)) as))"

definition overlay :: "stage_action list \<Rightarrow> (string \<Rightarrow> fs_node option) \<Rightarrow> string \<Rightarrow> fs_node option" where
  "overlay as view p = (case changes as p of Some n \<Rightarrow> Some n | None \<Rightarrow> view p)"

lemma overlay_Cons: "overlay (a # as) view = overlay as (view(action_path a := Some (action_node a)))"
  by (auto simp: overlay_def changes_def fun_eq_iff map_add_def split: option.splits)

lemma overlay_Nil [simp]: "overlay [] view = view"
  by (simp add: overlay_def changes_def fun_eq_iff)

definition staged_for :: "filesystem \<Rightarrow> stage_action \<Rightarrow> staged \<Rightarrow> bool" where
  "staged_for fs a s \<longleftrightarrow> sg_path s = action_path a \<and> is_temporary (sg_temporary s) \<and> files fs (sg_temporary s) = Some (action_node a)"

lemma commit_all_files:
  assumes "list_all2 (staged_for fs) as ss" and "distinct (map sg_temporary ss)"
    and "\<forall>a \<in> set as. \<not> is_temporary (action_path a)" and "commit_all host ss fs = (e, ss', fs')"
  shows "(\<exists>k. k \<le> length as \<and> (e = None \<longrightarrow> k = length as) \<and> live fs' = overlay (take k as) (live fs)) \<and>
    (\<forall>s \<in> set ss'. sg_temporary s \<noteq> [] \<longrightarrow> is_temporary (sg_temporary s))"
  using assms
proof (induction as arbitrary: fs e ss ss')
  case Nil
  then show ?case by simp
next
  case (Cons a as fs e ss0 ss')
  obtain s ss where ss0: "ss0 = s # ss" and hyps: "staged_for fs a s" "list_all2 (staged_for fs) as ss"
    using Cons.prems(1) by (auto simp: list_all2_Cons1)
  note prems = Cons.prems(2-4)[unfolded ss0]
  obtain e1 s1 fs1 where 1: "staged_commit host s fs = (e1, s1, fs1)" by (metis prod_cases3)
  have s: "sg_path s = action_path a" "is_temporary (sg_temporary s)" "files fs (sg_temporary s) = Some (action_node a)"
    using hyps(1) by (simp_all add: staged_for_def)
  have rest: "\<forall>s \<in> set ss. is_temporary (sg_temporary s)"
    using hyps(2) by (auto simp: list_all2_conv_all_nth in_set_conv_nth staged_for_def)
  have path: "\<not> is_temporary (sg_path s)" using prems(2) s(1) by simp
  from 1 s(3,2) path show ?case
  proof (cases rule: commit_files)
    case kept
    then have "e \<noteq> None" "ss' = s # ss" "fs' = fs1" using prems(3) 1 by auto
    with kept s(2) rest show ?thesis by (auto simp: live_def fun_eq_iff intro!: exI[of _ 0])
  next
    case renamed
    have live1: "live fs1 = (live fs)(action_path a := Some (action_node a))"
      using renamed(2) s path by (auto simp: live_def fun_eq_iff)
    show ?thesis
    proof (cases e1)
      case (Some x)
      then have "e \<noteq> None" "ss' = s1 # ss" "fs' = fs1" using prems(3) 1 by auto
      with renamed rest live1 show ?thesis by (auto simp: overlay_Cons intro!: exI[of _ 1])
    next
      case None
      obtain ss2 where 2: "commit_all host ss fs1 = (e, ss2, fs')" "ss' = s1 # ss2"
        using prems(3) 1 None by (auto split: prod.splits)
      have "staged_for fs1 b t" if "staged_for fs b t" "b \<in> set as" "t \<in> set ss" for b t
      proof -
        have "sg_temporary t \<noteq> sg_temporary s" using prems(1) that(3) by auto (metis image_eqI)
        moreover have "sg_temporary t \<noteq> sg_path s" using path that(3) rest by auto
        ultimately show ?thesis using that(1) renamed(2) by (simp add: staged_for_def)
      qed
      then have all: "list_all2 (staged_for fs1) as ss" by (rule list.rel_mono_strong[OF hyps(2)])
      obtain k where "k \<le> length as" "e = None \<longrightarrow> k = length as" "live fs' = overlay (take k as) (live fs1)"
        and t: "\<forall>s \<in> set ss2. sg_temporary s \<noteq> [] \<longrightarrow> is_temporary (sg_temporary s)"
        using Cons.IH[OF all _ _ 2(1)] prems(1,2) by auto
      then have "Suc k \<le> length (a # as) \<and> (e = None \<longrightarrow> Suc k = length (a # as)) \<and> live fs' = overlay (take (Suc k) (a # as)) (live fs)"
        using live1 by (simp add: overlay_Cons)
      then show ?thesis using t 2(2) renamed(1) by auto
    qed
  qed
qed

lemma discard_all_live:
  "\<forall>s \<in> set ss. sg_temporary s \<noteq> [] \<longrightarrow> is_temporary (sg_temporary s) \<Longrightarrow> live (discard_all host ss fs) = live fs"
proof (induction ss arbitrary: fs)
  case (Cons s ss)
  obtain e fs1 where 1: "os_Remove host (sg_temporary s) fs = (e, fs1)" by fastforce
  have "live (discard host s fs) = live fs"
    using Cons.prems Remove_files[OF 1] 1 by (auto simp: discard_def live_def fun_eq_iff)
  with Cons show ?case by (simp add: discard_all_def)
qed (simp add: discard_all_def)

end
