(* ===== verification/Staticpod_Cleanup.thy ===== *)
theory Staticpod_Cleanup
  imports Staticpod
begin

text \<open>
  Removal of stale files: every function of the cleanup only removes, spares the paths that
  are apart from what it removes, and leaves no manifest of a Pod that is not kept.
\<close>

section \<open>Removal\<close>

text \<open>Files are kept or removed, those of \<open>K\<close> are kept, and no directory is created.\<close>

definition removes_only :: "string set \<Rightarrow> filesystem \<Rightarrow> filesystem \<Rightarrow> bool" where
  "removes_only K fs fs' \<longleftrightarrow>
     (\<forall>p. files fs' p = files fs p \<or> p \<notin> K \<and> files fs' p = None) \<and>
     (\<forall>p. is_dir (fs_nodes fs') p \<longrightarrow> is_dir (fs_nodes fs) p)"

lemma removes_only_refl [simp]: "removes_only K fs fs"
  by (simp add: removes_only_def)

lemma removes_only_trans: "removes_only K fs fs1 \<Longrightarrow> removes_only K fs1 fs2 \<Longrightarrow> removes_only K fs fs2"
  unfolding removes_only_def by metis

lemma is_dir_touch [simp]: "is_dir (touch now path nodes) p = is_dir nodes p"
  by (auto simp: is_dir_def touch_def update_conv' split: option.splits fs_node.splits)

lemma is_dir_delete: "is_dir (AList.delete path nodes) p \<Longrightarrow> is_dir nodes p"
  by (auto simp: is_dir_def delete_conv' split: option.splits fs_node.splits if_splits)

lemma is_dir_filter: "is_dir (filter (\<lambda>(p, _). P p) nodes) p \<Longrightarrow> is_dir nodes p"
proof -
  have "map_of (filter (\<lambda>(p, _). P p) nodes) p = (if P p then map_of nodes p else None)" by (induction nodes) auto
  then show "is_dir (filter (\<lambda>(p, _). P p) nodes) p \<Longrightarrow> is_dir nodes p" by (simp add: is_dir_def split: if_splits)
qed

lemma Remove_removes: "os_Remove host path fs = (e, fs') \<Longrightarrow> path \<notin> K \<Longrightarrow> removes_only K fs fs'"
  using Remove_files[of host path fs e fs'] unfolding os_Remove_def removes_only_def
  by (auto elim!: fs_call_cases dest!: is_dir_delete split: if_splits)

lemma RemoveAll_removes:
  "os_RemoveAll host path fs = (e, fs') \<Longrightarrow> \<forall>p \<in> K. p \<noteq> path \<and> \<not> HasPrefix p (path @ ''/'') \<Longrightarrow> removes_only K fs fs'"
  using RemoveAll_files[of host path fs e fs'] unfolding os_RemoveAll_def removes_only_def
  by (auto elim!: fs_call_cases dest!: is_dir_filter split: if_splits)

lemma fs_call_same:
  assumes "fs_call host f fs = (e, fs')" and "\<And>nodes. f (fs_nodes fs) = Inr nodes \<Longrightarrow> nodes = fs_nodes fs"
  shows "removes_only K fs fs'" "fs_nodes fs' = fs_nodes fs"
proof -
  show n: "fs_nodes fs' = fs_nodes fs" using assms(1) by (cases rule: fs_call_cases) (auto dest: assms(2))
  show "removes_only K fs fs'" by (simp add: removes_only_def files_def n)
qed

lemma Sync_removes [simp]: "os_Sync host fs = (e, fs') \<Longrightarrow> removes_only K fs fs'"
  unfolding os_Sync_def by (erule fs_call_same) simp

lemma syncDirectory_removes: "syncDirectory host path fs = (e, fs') \<Longrightarrow> removes_only K fs fs'"
proof -
  assume a: "syncDirectory host path fs = (e, fs')"
  obtain e1 fs1 where 1: "fs_call host (\<lambda>nodes. if map_of nodes (filepath_Clean path) = None then Inl os_ErrNotExist else Inr nodes) fs = (e1, fs1)"
    by fastforce
  have r1: "removes_only K fs fs1" using 1 by (rule fs_call_same) (simp split: if_splits)
  obtain e2 fs2 where 2: "os_Sync host fs1 = (e2, fs2)" by fastforce
  obtain e3 fs3 where 3: "os_Sync host fs2 = (e3, fs3)" by fastforce
  from 2 3 have "removes_only K fs1 fs2" "removes_only K fs2 fs3" by simp_all
  with r1 have "removes_only K fs fs2" "removes_only K fs fs3" by (blast intro: removes_only_trans)+
  with a 1 2 3 r1 show ?thesis by (auto simp: syncDirectory_def split: option.splits)
qed

lemma ReadDir_removes: "os_ReadDir host path fs = (r, fs') \<Longrightarrow> fs_nodes fs' = fs_nodes fs"
proof -
  assume a: "os_ReadDir host path fs = (r, fs')"
  obtain e1 fs1 where 1: "fs_call host Inr fs = (e1, fs1)" by fastforce
  have "fs_nodes fs1 = fs_nodes fs" using 1 by (rule fs_call_same(2)) simp
  then show ?thesis using a 1 by (auto simp: os_ReadDir_def split: option.splits if_splits)
qed

lemma entries_removes:
  assumes "read_entries host path fs = (r, fs')"
  shows "removes_only K fs fs'" "fs_nodes fs' = fs_nodes fs"
proof -
  obtain r1 fs1 where 1: "os_ReadDir host path fs = (r1, fs1)" by fastforce
  with assms have "fs' = fs1" by (auto simp: read_entries_def split: sum.splits)
  then show n: "fs_nodes fs' = fs_nodes fs" using ReadDir_removes[OF 1] by simp
  show "removes_only K fs fs'" by (simp add: removes_only_def files_def n)
qed

text \<open>The names of the entries are single elements, and every file of the directory is listed.\<close>

lemma entries_names:
  assumes "read_entries host path fs = (Inr entries, fs')" and "(name, node) \<in> set entries"
  shows "file_name name"
proof -
  obtain r1 fs1 where 1: "os_ReadDir host path fs = (r1, fs1)" by fastforce
  obtain e1 fs2 where 2: "fs_call host Inr fs = (e1, fs2)" by fastforce
  from assms 1 2 show ?thesis
    by (auto simp: read_entries_def os_ReadDir_def intro!: Base_file_name split: option.splits if_splits sum.splits prod.splits)
qed

lemma entries_complete:
  assumes "host_laws host" and "read_entries host path fs = (Inr entries, fs')" and "is_dir (fs_nodes fs) (filepath_Clean path)"
    and "files fs p = Some node" and "filepath_Dir p = filepath_Clean path" and "file_name (filepath_Base p)"
  shows "(filepath_Base p, node) \<in> set entries"
proof -
  obtain e1 fs1 where 1: "fs_call host Inr fs = (e1, fs1)" by fastforce
  have n: "fs_nodes fs1 = fs_nodes fs" using 1 by (rule fs_call_same(2)) simp
  have e: "\<not> errors_Is x os_ErrNotExist" if "e1 = Some x" for x
    using 1 assms(1) that by (auto simp: fs_call_def host_laws_def split: option.splits)
  have "map_of (fs_nodes fs) p = Some node" using assms(4) by (simp add: files_Some)
  then have "(p, node) \<in> set (fs_nodes fs)" by (rule map_of_SomeD)
  moreover have "map_of (fs_nodes fs) (filepath_Clean path) \<noteq> None" using assms(3) by (auto simp: is_dir_def split: option.splits)
  moreover have "filepath_Base p \<noteq> ''/''" "filepath_Base p \<noteq> ''.''" "filepath_Base p \<noteq> ''..''"
    using assms(6) by (auto simp: file_name_def clean_element_def)
  ultimately show ?thesis
    using assms(2,3,5) 1 n e by (auto simp: read_entries_def os_ReadDir_def split: option.splits if_splits)
qed

lemma os_each_simps [simp]: "os_each f x (None, fs) = f x fs" "os_each f x (Some e, fs) = (Some e, fs)"
  by (simp_all add: os_each_def)

lemma each_fold_removes:
  assumes "\<And>x fs e fs'. x \<in> set xs \<Longrightarrow> f x fs = (e, fs') \<Longrightarrow> removes_only K fs fs'"
    and "fold (os_each f) xs (e0, fs) = (e, fs')"
  shows "removes_only K fs fs'"
  using assms
proof (induction xs arbitrary: e0 fs)
  case (Cons x xs)
  show ?case
  proof (cases e0)
    case (Some err)
    have "fold (os_each f) ys (Some err, fs) = (Some err, fs)" for ys by (induction ys) simp_all
    then show ?thesis using Cons.prems(2) Some by simp
  next
    case None
    obtain e1 fs1 where 1: "f x fs = (e1, fs1)" by fastforce
    then have "fold (os_each f) xs (e1, fs1) = (e, fs')" using Cons.prems(2) None by simp
    with Cons.IH Cons.prems(1) have "removes_only K fs1 fs'" by (metis list.set_intros(2))
    moreover have "removes_only K fs fs1" using Cons.prems(1)[of x fs e1 fs1] 1 by simp
    ultimately show ?thesis by (blast intro: removes_only_trans)
  qed
qed simp

text \<open>The calls of the loop up to one element, and after it.\<close>

lemma each_fold_member:
  assumes "\<And>x fs e fs'. x \<in> set xs \<Longrightarrow> f x fs = (e, fs') \<Longrightarrow> removes_only K fs fs'"
    and "fold (os_each f) xs (None, fs) = (None, fs')" and "x \<in> set xs"
  obtains fs1 fs2 where "f x fs1 = (None, fs2)" "removes_only K fs2 fs'"
proof -
  from assms(3) obtain ys zs where xs: "xs = ys @ x # zs" by (metis split_list)
  have stop: "fold (os_each f) zs (Some e, fs) = (Some e, fs)" for e fs zs by (induction zs) simp_all
  obtain e1 fs1 where 1: "fold (os_each f) ys (None, fs) = (e1, fs1)" by fastforce
  have "e1 = None" using assms(2) xs 1 stop by (cases e1) auto
  obtain e2 fs2 where 2: "f x fs1 = (e2, fs2)" by fastforce
  have 3: "fold (os_each f) zs (e2, fs2) = (None, fs')" using assms(2) xs 1 2 \<open>e1 = None\<close> by simp
  then have "e2 = None" using stop by (cases e2) auto
  have "removes_only K fs2 fs'" by (rule each_fold_removes[OF _ 3]) (use assms(1) xs in auto)
  with 2 \<open>e2 = None\<close> that show thesis by blast
qed

text \<open>The paths that a removal of everything below another spares.\<close>

definition apart :: "string set \<Rightarrow> string \<Rightarrow> bool" where
  "apart K path \<longleftrightarrow> (\<forall>p \<in> K. p \<noteq> path \<and> \<not> HasPrefix p (path @ ''/''))"

definition spared :: "string set \<Rightarrow> string \<Rightarrow> string \<Rightarrow> string set \<Rightarrow> desired_secrets \<Rightarrow> bool" where
  "spared K staticDir secretDir keep desired \<longleftrightarrow>
     (\<forall>name. file_name name \<and> HasSuffix name ''.yaml'' \<and> TrimSuffix name ''.yaml'' \<notin> keep \<longrightarrow> filepath_Join [staticDir, name] \<notin> K) \<and>
     (\<forall>pod. file_name pod \<and> pod \<notin> keep \<longrightarrow> apart K (filepath_Join [secretDir, pod])) \<and>
     (\<forall>pod provider. file_name pod \<and> provider \<in> {AWSParameterStore, AWSSecretsManager} \<longrightarrow>
        (\<forall>file. file_name file \<and> file \<notin> set (desired_keys desired pod provider) \<longrightarrow>
           filepath_Join [filepath_Join [secretDir, pod, provider], file] \<notin> K) \<and>
        (desired_keys desired pod provider = [] \<longrightarrow> apart K (filepath_Join [secretDir, pod, provider])))"

lemma cleanup_provider_removes:
  assumes "spared K staticDir secretDir keep desired" and "file_name pod" and "provider \<in> {AWSParameterStore, AWSSecretsManager}"
    and "cleanup_provider host secretDir desired pod provider fs = (e, fs')"
  shows "removes_only K fs fs'"
proof -
  let ?dir = "filepath_Join [secretDir, pod, provider]" and ?keys = "desired_keys desired pod provider"
  obtain r1 fs1 where 1: "read_entries host ?dir fs = (r1, fs1)" by fastforce
  note r = entries_removes(1)[OF 1, of K]
  show ?thesis
  proof (cases r1)
    case (Inr entries)
    let ?f = "\<lambda>(file, node) fs. if \<not> is_dir_node node \<and> file \<notin> set ?keys then os_Remove host (filepath_Join [?dir, file]) fs else (None, fs)"
    obtain e2 fs2 where 2: "fold (os_each ?f) entries (None, fs1) = (e2, fs2)" by fastforce
    have "removes_only K fs1 fs2"
    proof (rule each_fold_removes[OF _ 2])
      fix x fs e fs' assume x: "x \<in> set entries" "?f x fs = (e, fs')"
      obtain item node where f: "x = (item, node)" by (cases x)
      have "item \<notin> set ?keys \<Longrightarrow> filepath_Join [?dir, item] \<notin> K"
        using entries_names[OF 1[unfolded Inr]] assms(1-3) x(1) f unfolding spared_def by blast
      then show "removes_only K fs fs'" using x(2) f Remove_removes[of host "filepath_Join [?dir, item]" fs e fs' K] by (auto split: if_splits)
    qed
    with r have r2: "removes_only K fs fs2" by (rule removes_only_trans)
    obtain e3 fs3 where 3: "os_RemoveAll host ?dir fs2 = (e3, fs3)" by fastforce
    have "removes_only K fs2 fs3" if "?keys = []"
      using RemoveAll_removes[OF 3, of K] assms(1-3) that by (auto simp: spared_def apart_def)
    with r2 have r3: "removes_only K fs fs3" if "?keys = []" using that by (blast intro: removes_only_trans)
    show ?thesis using assms(4) 1 2 3 Inr r2 r3 by (auto simp: cleanup_provider_def Let_def split: option.splits if_splits)
  qed (use assms(4) 1 r in \<open>auto simp: cleanup_provider_def\<close>)
qed

lemma cleanup_pod_removes:
  assumes "spared K staticDir secretDir keep desired" and "file_name (fst x)"
    and "cleanup_pod host secretDir keep desired x fs = (e, fs')"
  shows "removes_only K fs fs'"
proof -
  obtain name node where x: "x = (name, node)" by (cases x)
  obtain e1 fs1 where 1: "fold (os_each (cleanup_provider host secretDir desired name)) [AWSParameterStore, AWSSecretsManager] (None, fs) = (e1, fs1)"
    by fastforce
  have "removes_only K fs fs1"
    by (rule each_fold_removes[OF _ 1], rule cleanup_provider_removes[OF assms(1)]) (use assms(2) x in auto)
  moreover obtain e2 fs2 where 2: "os_RemoveAll host (filepath_Join [secretDir, name]) fs = (e2, fs2)" by fastforce
  have "removes_only K fs fs2" if "name \<notin> keep"
    using RemoveAll_removes[OF 2, of K] assms(1,2) that x by (auto simp: spared_def apart_def)
  ultimately show ?thesis using assms(3) x 1 2 by (auto simp: cleanup_pod_def split: if_splits)
qed

lemma cleanup_manifest_removes:
  assumes "spared K staticDir secretDir keep desired" and "file_name (fst x)"
    and "cleanup_manifest host staticDir keep x fs = (e, fs')"
  shows "removes_only K fs fs'"
  using assms Remove_removes[of host "filepath_Join [staticDir, fst x]" fs e fs' K]
  by (cases x) (auto simp: cleanup_manifest_def spared_def split: if_splits)

lemma cleanup_removes:
  assumes "spared K staticDir secretDir keep desired" and "cleanup host staticDir secretDir keep desired fs = (e, fs')"
  shows "removes_only K fs fs'"
proof -
  obtain r1 fs1 where 1: "read_entries host staticDir fs = (r1, fs1)" by fastforce
  note r1' = entries_removes(1)[OF 1, of K]
  show ?thesis
  proof (cases r1)
    case (Inr entries)
    obtain e2 fs2 where 2: "fold (os_each (cleanup_manifest host staticDir keep)) entries (None, fs1) = (e2, fs2)" by fastforce
    have "removes_only K fs1 fs2"
      by (rule each_fold_removes[OF _ 2], rule cleanup_manifest_removes[OF assms(1)])
        (use entries_names[OF 1[unfolded Inr]] in \<open>auto simp: prod.collapse\<close>)
    with r1' have r2: "removes_only K fs fs2" by (rule removes_only_trans)
    show ?thesis
    proof (cases e2)
      case None
      obtain r3 fs3 where 3: "read_entries host secretDir fs2 = (r3, fs3)" by fastforce
      have r3': "removes_only K fs fs3" using r2 entries_removes(1)[OF 3] by (rule removes_only_trans)
      show ?thesis
      proof (cases r3)
        case (Inr pods)
        obtain e4 fs4 where 4: "fold (os_each (cleanup_pod host secretDir keep desired)) pods (None, fs3) = (e4, fs4)" by fastforce
        have "removes_only K fs3 fs4"
          by (rule each_fold_removes[OF _ 4], rule cleanup_pod_removes[OF assms(1)])
            (use entries_names[OF 3[unfolded Inr]] in \<open>auto simp: prod.collapse\<close>)
        with r3' have r4: "removes_only K fs fs4" by (rule removes_only_trans)
        obtain e5 fs5 where 5: "syncDirectory host staticDir fs4 = (e5, fs5)" by fastforce
        obtain e6 fs6 where 6: "syncDirectory host secretDir fs5 = (e6, fs6)" by fastforce
        have r5: "removes_only K fs fs5" using r4 syncDirectory_removes[OF 5] by (rule removes_only_trans)
        have r6: "removes_only K fs fs6" using r5 syncDirectory_removes[OF 6] by (rule removes_only_trans)
        show ?thesis using assms(2) 1 2 3 4 5 6 None Inr \<open>r1 = Inr entries\<close> r4 r5 r6
          by (auto simp: cleanup_def split: option.splits)
      qed (use assms(2) 1 2 3 None Inr r3' in \<open>auto simp: cleanup_def\<close>)
    qed (use assms(2) 1 2 Inr r2 in \<open>auto simp: cleanup_def\<close>)
  qed (use assms(2) 1 r1' in \<open>auto simp: cleanup_def\<close>)
qed

lemma spared_empty: "spared {} staticDir secretDir keep desired"
  by (simp add: spared_def apart_def)

lemma removes_only_live: "removes_only K fs fs' \<Longrightarrow> live fs' p = live fs p \<or> p \<notin> K \<and> live fs' p = None"
  unfolding removes_only_def live_def by metis

text \<open>After a cleanup no manifest of another Pod is left in the static directory.\<close>

lemma cleanup_stale:
  assumes "host_laws host" and "cleanup host staticDir secretDir keep desired fs = (None, fs')"
    and "rooted staticDir" and "is_dir (fs_nodes fs') (filepath_Clean staticDir)"
    and "file_name (pod @ ''.yaml'')" and "pod \<notin> keep"
  shows "files fs' (filepath_Join [staticDir, pod @ ''.yaml'']) = None"
proof (rule ccontr)
  let ?p = "filepath_Join [staticDir, pod @ ''.yaml'']"
  assume left: "files fs' ?p \<noteq> None"
  have p: "?p = abs_path (clean_elements staticDir @ [pod @ ''.yaml''])" using Join_rooted[OF assms(3)] assms(5) by simp
  have dir: "filepath_Dir ?p = filepath_Clean staticDir" "filepath_Base ?p = pod @ ''.yaml''"
    unfolding p using Dir_abs[OF clean_elements_names[OF assms(3)] assms(5)] Base_abs[OF assms(5)] Clean_rooted[OF assms(3)] by simp_all
  obtain r1 fs1 where 1: "read_entries host staticDir fs = (r1, fs1)" by fastforce
  have "removes_only {} fs fs'" using cleanup_removes[OF spared_empty assms(2)] .
  then obtain node where node: "files fs ?p = Some node" and here: "is_dir (fs_nodes fs) (filepath_Clean staticDir)"
    using left assms(4) unfolding removes_only_def by (metis option.exhaust)
  obtain entries where r1: "r1 = Inr entries" using assms(2) 1 by (cases r1) (auto simp: cleanup_def)
  obtain e2 fs2 where 2: "fold (os_each (cleanup_manifest host staticDir keep)) entries (None, fs1) = (e2, fs2)" by fastforce
  have "e2 = None" using assms(2) 1 2 r1 by (cases e2) (auto simp: cleanup_def)
  obtain r3 fs3 where 3: "read_entries host secretDir fs2 = (r3, fs3)" by fastforce
  obtain pods where r3: "r3 = Inr pods" using assms(2) 1 2 3 r1 \<open>e2 = None\<close> by (cases r3) (auto simp: cleanup_def)
  obtain e4 fs4 where 4: "fold (os_each (cleanup_pod host secretDir keep desired)) pods (None, fs3) = (e4, fs4)" by fastforce
  have "e4 = None" using assms(2) 1 2 3 4 r1 r3 \<open>e2 = None\<close> by (cases e4) (auto simp: cleanup_def)
  obtain e5 fs5 where 5: "syncDirectory host staticDir fs4 = (e5, fs5)" by fastforce
  have "removes_only {} fs5 fs' \<or> fs' = fs5"
    using assms(2) 1 2 3 4 5 r1 r3 \<open>e2 = None\<close> \<open>e4 = None\<close> syncDirectory_removes[of host secretDir fs5 None fs']
    by (cases e5) (auto simp: cleanup_def)
  moreover have "removes_only {} fs4 fs5" using syncDirectory_removes[OF 5] .
  moreover have "removes_only {} fs3 fs4"
    by (rule each_fold_removes[OF _ 4], rule cleanup_pod_removes[OF spared_empty])
      (use entries_names[OF 3[unfolded r3]] in \<open>auto simp: prod.collapse\<close>)
  moreover have "removes_only {} fs2 fs3" using entries_removes(1)[OF 3] .
  ultimately have later: "removes_only {} fs2 fs'" using removes_only_trans by metis
  have mem: "(pod @ ''.yaml'', node) \<in> set entries"
    using entries_complete[OF assms(1) 1[unfolded r1], of ?p node] here node dir assms(5) by simp
  obtain fsa fsb where rm: "cleanup_manifest host staticDir keep (pod @ ''.yaml'', node) fsa = (None, fsb)" and "removes_only {} fsb fs2"
  proof (rule each_fold_member[OF _ 2[unfolded \<open>e2 = None\<close>] mem, of "{}"])
    fix x fs e fs' assume "x \<in> set entries" "cleanup_manifest host staticDir keep x fs = (e, fs')"
    then show "removes_only {} fs fs'"
      using cleanup_manifest_removes[OF spared_empty _ \<open>cleanup_manifest host staticDir keep x fs = (e, fs')\<close>]
        entries_names[OF 1[unfolded r1], of "fst x" "snd x"] by simp
  qed
  have "os_Remove host ?p fsa = (None, fsb)" using rm assms(6) by (simp add: cleanup_manifest_def)
  then have "files fsb ?p = None" using Remove_files by simp
  then have "files fs' ?p = None" using \<open>removes_only {} fsb fs2\<close> later unfolding removes_only_def by metis
  with left show False by simp
qed

lemma previous_generation_removes:
  "fold (previous_generation host current) entries (r, fs) = (r', fs') \<Longrightarrow> removes_only K fs fs'"
proof (induction entries arbitrary: r fs)
  case (Cons x entries)
  obtain r1 fs1 where 1: "previous_generation host current x (r, fs) = (r1, fs1)" by fastforce
  obtain e2 fs2 where 2: "os_Sync host fs = (e2, fs2)" by fastforce
  have "removes_only K fs fs1"
    using 1 2 Sync_removes[OF 2, of K]
    by (auto simp: previous_generation_def split: prod.splits sum.splits fs_node.splits if_splits option.splits)
  with Cons 1 show ?case by (auto intro: removes_only_trans)
qed simp

lemma generations_removes:
  assumes "\<And>name. file_name name \<Longrightarrow> name \<noteq> current \<Longrightarrow>
      apart K (filepath_Join [filepath_Join [secretDir, pod, ''identity-generations''], name])"
    and "cleanup_generations host secretDir (pod, current) fs = (e, fs')"
  shows "removes_only K fs fs'"
proof -
  let ?root = "filepath_Join [secretDir, pod, ''identity-generations'']"
  obtain r1 fs1 where 1: "read_entries host ?root fs = (r1, fs1)" by fastforce
  note r1' = entries_removes(1)[OF 1, of K]
  show ?thesis
  proof (cases r1)
    case (Inr entries)
    obtain r2 fs2 where 2: "fold (previous_generation host current) entries (Inr None, fs1) = (r2, fs2)" by fastforce
    have r2': "removes_only K fs fs2" using r1' previous_generation_removes[OF 2] by (rule removes_only_trans)
    show ?thesis
    proof (cases r2)
      case (Inr previous)
      let ?f = "\<lambda>(name, node) fs. if stale_generation current previous (name, node)
        then os_RemoveAll host (filepath_Join [?root, name]) fs else (None, fs)"
      have 3: "fold (os_each ?f) entries (None, fs2) = (e, fs')"
        using assms(2) 1 2 Inr \<open>r1 = Inr entries\<close> by (simp add: cleanup_generations_def Let_def)
      have "removes_only K fs2 fs'"
      proof (rule each_fold_removes[OF _ 3])
        fix x fs e fs' assume x: "x \<in> set entries" "?f x fs = (e, fs')"
        obtain name node where f: "x = (name, node)" by (cases x)
        have "file_name name" using entries_names[OF 1[unfolded \<open>r1 = Inr entries\<close>]] x(1) f by blast
        with assms(1) have "name \<noteq> current \<Longrightarrow> apart K (filepath_Join [?root, name])" by blast
        then show "removes_only K fs fs'"
          using x(2) f RemoveAll_removes[of host "filepath_Join [?root, name]" fs e fs' K]
          by (auto simp: stale_generation_def apart_def split: if_splits)
      qed
      with r2' show ?thesis by (rule removes_only_trans)
    qed (use assms(2) 1 2 Inr r2' in \<open>auto simp: cleanup_generations_def Let_def\<close>)
  qed (use assms(2) 1 r1' in \<open>auto simp: cleanup_generations_def Let_def\<close>)
qed

end
