(* ===== verification/Staticpod_Round.thy ===== *)
theory Staticpod_Round
  imports Staticpod_Stage Staticpod_Cleanup
begin

text \<open>
  The candidates of a round and the places of their files: what each candidate is built from,
  the path and the content of every file it places, that no two candidates share a place,
  and that the cleanup spares all of them.
\<close>

section \<open>The candidates of a round\<close>

lemma ValidID_file_name: "ValidID v \<Longrightarrow> file_name v"
  using ValidID_not_Nil ValidID_no_sep(2) ValidID_chars[of v "CHR ''.''"] not_label_char(3)
  by (auto simp: file_name_def clean_element_def)

lemma hex_file_name: "bs \<noteq> [] \<Longrightarrow> file_name (hex_EncodeToString bs)"
proof -
  assume "bs \<noteq> []"
  then have "hex_EncodeToString bs \<noteq> []" using length_hex_EncodeToString[of bs] by (metis length_0_conv mult_eq_0_iff zero_neq_numeral)
  moreover have "hex_EncodeToString bs \<noteq> ''.''" "hex_EncodeToString bs \<noteq> ''..''"
    using hex_EncodeToString_no_sep(2)[of bs] by (metis list.set_intros(1))+
  ultimately show ?thesis using hex_EncodeToString_no_sep(1)[of bs] by (auto simp: file_name_def clean_element_def)
qed

lemma identityRevision_generation:
  "identityRevision ops input certificate = Inr (output, generation) \<Longrightarrow>
     generation = hex_EncodeToString (take 16 (sha512 certificate)) \<and> file_name generation"
proof -
  assume "identityRevision ops input certificate = Inr (output, generation)"
  then have "generation = hex_EncodeToString (take 16 (sha512 certificate))"
    by (auto simp: identityRevision_def Let_def split: sum.splits)
  moreover have "take 16 (sha512 certificate) \<noteq> []" using length_sha512[of certificate] by (metis length_0_conv take_eq_Nil zero_neq_numeral)
  ultimately show ?thesis using hex_file_name by simp
qed

definition candidate_for ::
  "('x) service_ops_scheme \<Rightarrow> staticpod_Config \<Rightarrow> secret_readers \<Rightarrow> round_env \<Rightarrow> Reconciler
     \<Rightarrow> string \<times> IndexDeployment \<Rightarrow> candidate \<Rightarrow> bool" where
  "candidate_for ops config stores env r = (\<lambda>(name, d) c.
     cd_name c = name \<and> cd_deployment c = d \<and> cd_publish c = must_publish env r name d \<and>
     (\<exists>input bu. Verify (id_Pod d) input = None \<and> build ops config stores input (deploymentRevision d) = Inr bu \<and>
        bu_name bu = name \<and> cd_service c = bu_service bu \<and> cd_secrets c = bu_secrets bu \<and>
        identity_material env r bu d = Inr (cd_identity c) \<and>
        identityRevision ops (bu_manifest bu) (m_Certificate (cd_identity c)) = Inr (cd_manifest c, cd_identityGeneration c)))"

definition service_for :: "('x) service_ops_scheme \<Rightarrow> candidate \<Rightarrow> manifest_Service list \<Rightarrow> bool" where
  "service_for ops c ss \<longleftrightarrow>
     (if id_Service (cd_deployment c) = [] then cd_service c = [] \<and> ss = []
      else \<exists>input s. ss = [s] \<and> Verify (id_Service (cd_deployment c)) input = None \<and> ParseService ops input = Inr s \<and>
             cd_service c = ms_Name s)"

lemma verified_object_Inr: "verified_object cl key st = Inr (input, st') \<Longrightarrow> Verify key input = None"
  by (auto simp: verified_object_def split: prod.splits sum.splits option.splits)

lemma candidate_service_Inr:
  assumes "candidate_service ops cl bu (id_Service (cd_deployment c)) rd = Inr rd'" and "cd_service c = bu_service bu"
  shows "\<exists>ss. service_for ops c ss \<and> rd_services rd' = rd_services rd @ ss \<and> rd_candidates rd' = rd_candidates rd \<and>
    rd_names rd' = rd_names rd"
proof (cases "id_Service (cd_deployment c) = []")
  case True
  then show ?thesis using assms by (auto simp: candidate_service_def service_for_def split: if_splits)
next
  case False
  from assms(1) False obtain input st' s where
    s: "verified_object cl (id_Service (cd_deployment c)) (rd_store rd) = Inr (input, st')" "ParseService ops input = Inr s"
      "bu_service bu = ms_Name s" "rd_services rd' = rd_services rd @ [s]" "rd_candidates rd' = rd_candidates rd" "rd_names rd' = rd_names rd"
    by (auto simp: candidate_service_def Let_def split: sum.splits if_splits)
  then show ?thesis using False assms(2) verified_object_Inr[OF s(1)]
    by (intro exI[of _ "[s]"]) (auto simp: service_for_def)
qed

lemma build_candidate_Inr:
  assumes "build_candidate ops config stores cl env r x rd = Inr rd'"
  shows "\<exists>c ss. candidate_for ops config stores env r x c \<and> service_for ops c ss \<and> cd_name c \<notin> rd_names rd \<and>
    rd_candidates rd' = rd_candidates rd @ [c] \<and> rd_services rd' = rd_services rd @ ss \<and> rd_names rd' = insert (cd_name c) (rd_names rd)"
proof -
  obtain name d where x: "x = (name, d)" by (cases x)
  from assms obtain input st' where i: "verified_object cl (id_Pod d) (rd_store rd) = Inr (input, st')"
    by (auto simp: x build_candidate_def Let_def split: sum.splits)
  from assms i obtain bu where b: "build ops config stores input (deploymentRevision d) = Inr bu" "bu_name bu = name" "name \<notin> rd_names rd"
    by (auto simp: x build_candidate_def Let_def split: sum.splits if_splits)
  from assms i b obtain material where m: "identity_material env r bu d = Inr material"
    by (auto simp: x build_candidate_def Let_def split: sum.splits if_splits)
  from assms i b m obtain manifest generation where g: "identityRevision ops (bu_manifest bu) (m_Certificate material) = Inr (manifest, generation)"
    by (auto simp: x build_candidate_def Let_def split: sum.splits if_splits)
  let ?c = "\<lparr>cd_name = bu_name bu, cd_service = bu_service bu, cd_manifest = manifest, cd_secrets = bu_secrets bu, cd_identity = material,
    cd_identityGeneration = generation, cd_deployment = d, cd_publish = must_publish env r (bu_name bu) d\<rparr>"
  have c: "candidate_for ops config stores env r x ?c"
    unfolding x candidate_for_def prod.case using verified_object_Inr[OF i] b(1,2) m g
    by (auto intro!: exI[of _ input] exI[of _ bu])
  have "candidate_service ops cl bu (id_Service (cd_deployment ?c)) (rd\<lparr>rd_candidates := rd_candidates rd @ [?c],
      rd_names := insert (bu_name bu) (rd_names rd), rd_store := st'\<rparr>) = Inr rd'"
    using assms i b m g by (simp add: x build_candidate_def)
  from candidate_service_Inr[OF this] obtain ss where "service_for ops ?c ss" "rd_services rd' = rd_services rd @ ss"
    "rd_candidates rd' = rd_candidates rd @ [?c]" "rd_names rd' = insert (bu_name bu) (rd_names rd)" by auto
  with c b(2,3) show ?thesis by (intro exI[of _ ?c] exI[of _ ss]) simp
qed

lemma build_candidates:
  assumes "fold_res (build_candidate ops config stores cl env r) xs rd = Inr rd'"
  shows "\<exists>cs sss. rd_candidates rd' = rd_candidates rd @ cs \<and> rd_services rd' = rd_services rd @ concat sss \<and>
    list_all2 (candidate_for ops config stores env r) xs cs \<and> list_all2 (service_for ops) cs sss \<and>
    distinct (map cd_name cs) \<and> set (map cd_name cs) \<inter> rd_names rd = {}"
  using assms
proof (induction xs arbitrary: rd)
  case Nil
  then show ?case by (auto intro!: exI[of _ "[]"])
next
  case (Cons x xs)
  obtain rd1 where 1: "build_candidate ops config stores cl env r x rd = Inr rd1"
    and 2: "fold_res (build_candidate ops config stores cl env r) xs rd1 = Inr rd'"
    using Cons.prems by (rule fold_res_ConsE)
  from build_candidate_Inr[OF 1] obtain c ss where c: "candidate_for ops config stores env r x c" "service_for ops c ss"
    "cd_name c \<notin> rd_names rd" "rd_candidates rd1 = rd_candidates rd @ [c]" "rd_services rd1 = rd_services rd @ ss"
    "rd_names rd1 = insert (cd_name c) (rd_names rd)" by blast
  from Cons.IH[OF 2] obtain cs sss where "rd_candidates rd' = rd_candidates rd1 @ cs" "rd_services rd' = rd_services rd1 @ concat sss"
    "list_all2 (candidate_for ops config stores env r) xs cs" "list_all2 (service_for ops) cs sss"
    "distinct (map cd_name cs)" "set (map cd_name cs) \<inter> rd_names rd1 = {}" by blast
  with c show ?case by (intro exI[of _ "c # cs"] exI[of _ "ss # sss"]) auto
qed

text \<open>The entries of the node group, by name.\<close>

lemma selected_valid:
  assumes "valid_index index" and "set entries = set index" and "(name, d) \<in> set (selected_deployments config entries)"
  shows "ValidID name \<and> (DeploymentKey (sc_NodeGroup config) name, d) \<in> set index"
proof -
  let ?f = "\<lambda>(key, deployment). (case DeploymentIdentity key of
      Some (nodeGroup, name) \<Rightarrow> if nodeGroup = sc_NodeGroup config then [(name, deployment)] else []
    | None \<Rightarrow> if [] = sc_NodeGroup config then [([], deployment)] else [])"
  from assms(3) obtain e where e: "e \<in> set entries" "(name, d) \<in> set (?f e)" by (auto simp: selected_deployments_def)
  obtain key d' where k': "e = (key, d')" by (cases e)
  have "valid_entry (key, d')" using e(1) k' assms(1,2) by (auto simp: valid_index_def list_all_iff)
  then obtain g n' where i: "DeploymentIdentity key = Some (g, n')" by (auto simp: valid_entry_def)
  with e(2) k' have "DeploymentIdentity key = Some (sc_NodeGroup config, name)" "d' = d" by (auto split: if_splits)
  then show ?thesis using DeploymentIdentity_key[of key] e(1) k' assms(2) by (auto simp: DeploymentIdentity_Some)
qed

lemma selected_complete:
  assumes "set entries = set index" and "(DeploymentKey (sc_NodeGroup config) name, d) \<in> set index"
    and "ValidID (sc_NodeGroup config)" and "ValidID name"
  shows "(name, d) \<in> set (selected_deployments config entries)"
  unfolding selected_deployments_def set_concat set_map
  by (rule UN_I[OF imageI[OF assms(2)[folded assms(1)]]]) (simp add: DeploymentKey_identity[OF assms(3,4)])

section \<open>Where the files of a round are\<close>

text \<open>Rooted directories of which none is above the other, and loops that visit every entry of a map.\<close>

definition separate_dirs :: "staticpod_Config \<Rightarrow> bool" where
  "separate_dirs config \<longleftrightarrow> rooted (sc_StaticDir config) \<and> rooted (sc_SecretDir config) \<and>
     \<not> path_within (sc_StaticDir config) (sc_SecretDir config) \<and> \<not> path_within (sc_SecretDir config) (sc_StaticDir config)"

definition env_laws :: "round_env \<Rightarrow> bool" where
  "env_laws env \<longleftrightarrow> (\<forall>x. set (re_order env x) = set x) \<and> (\<forall>x. set (re_fileOrder env x) = set x) \<and>
     (\<forall>x. set (re_providerOrder env x) = set x) \<and> (\<forall>x. mset (re_generationOrder env x) = mset x)"

abbreviation static_path :: "staticpod_Config \<Rightarrow> string \<Rightarrow> string list" where
  "static_path config name \<equiv> clean_elements (sc_StaticDir config) @ [name @ ''.yaml'']"

abbreviation secret_path :: "staticpod_Config \<Rightarrow> string list \<Rightarrow> string list" where
  "secret_path config es \<equiv> clean_elements (sc_SecretDir config) @ es"

lemma separate_elements: "separate_dirs config \<Longrightarrow> clean_elements (sc_StaticDir config) @ x \<noteq> secret_path config y"
proof
  assume s: "separate_dirs config" and "clean_elements (sc_StaticDir config) @ x = secret_path config y"
  then have "\<exists>us. clean_elements (sc_StaticDir config) = secret_path config us \<or>
      clean_elements (sc_SecretDir config) = clean_elements (sc_StaticDir config) @ us"
    unfolding append_eq_append_conv2 by metis
  with s show False by (auto simp: separate_dirs_def path_within_def)
qed

definition candidate_ok :: "candidate \<Rightarrow> bool" where
  "candidate_ok c \<longleftrightarrow> ValidID (cd_name c) \<and> file_name (cd_identityGeneration c) \<and> distinct (map fst (cd_secrets c)) \<and>
     (\<forall>(provider, contents) \<in> set (cd_secrets c). provider \<in> {AWSParameterStore, AWSSecretsManager} \<and> contents \<noteq> [] \<and>
        distinct (map fst contents) \<and> (\<forall>(key, v) \<in> set contents. ValidID key))"

text \<open>The elements of a published file and its content.\<close>

inductive placed :: "staticpod_Config \<Rightarrow> candidate \<Rightarrow> string list \<Rightarrow> fs_node \<Rightarrow> bool" for config c where
  certificate: "placed config c (secret_path config [cd_name c, ''identity-generations'', cd_identityGeneration c, ''tls.crt''])
    (FFile (m_Certificate (cd_identity c)) 292)"
| private_key: "placed config c (secret_path config [cd_name c, ''identity-generations'', cd_identityGeneration c, ''tls.key''])
    (FFile (m_PrivateKey (cd_identity c)) 292)"
| ca_bundle: "placed config c (secret_path config [cd_name c, ''identity-generations'', cd_identityGeneration c, ''ca.crt''])
    (FFile (m_CABundle (cd_identity c)) 292)"
| link: "placed config c (secret_path config [cd_name c, ''identity''])
    (FLink (''identity-generations/'' @ cd_identityGeneration c))"
| secret: "(provider, contents) \<in> set (cd_secrets c) \<Longrightarrow> (key, v) \<in> set contents \<Longrightarrow>
    placed config c (secret_path config [cd_name c, provider, key]) (FFile v 292)"
| manifest: "placed config c (static_path config (cd_name c)) (FFile (cd_manifest c) 384)"

lemma provider_names:
  "provider \<in> {AWSParameterStore, AWSSecretsManager} \<Longrightarrow>
     file_name provider \<and> provider \<noteq> ''identity'' \<and> provider \<noteq> ''identity-generations''"
  by (auto simp: AWSParameterStore_def AWSSecretsManager_def file_name_def clean_element_def)

lemma yaml_file_name: "CHR ''/'' \<notin> set name \<Longrightarrow> file_name (name @ ''.yaml'')"
  by (simp add: file_name_def clean_element_def append_eq_Cons_conv)

lemma candidate_names:
  assumes "candidate_ok c"
  shows "file_name (cd_name c)" "file_name (cd_name c @ ''.yaml'')" "file_name (cd_identityGeneration c)"
    "(provider, contents) \<in> set (cd_secrets c) \<Longrightarrow> file_name provider"
    "(provider, contents) \<in> set (cd_secrets c) \<Longrightarrow> (key, v) \<in> set contents \<Longrightarrow> ValidID key"
  using assms provider_names[of provider] yaml_file_name[of "cd_name c"] ValidID_no_sep(2)[of "cd_name c"]
  by (auto simp: candidate_ok_def intro: ValidID_file_name)

lemma placed_names:
  assumes "placed config c es n" and "candidate_ok c" and "separate_dirs config"
  shows "list_all file_name es"
proof -
  have d: "list_all file_name (clean_elements (sc_StaticDir config))" "list_all file_name (clean_elements (sc_SecretDir config))"
    using assms(3) clean_elements_names by (simp_all add: separate_dirs_def)
  have lit: "file_name ''identity''" "file_name ''identity-generations''" "file_name ''tls.crt''" "file_name ''tls.key''" "file_name ''ca.crt''"
    by (simp_all add: file_name_def clean_element_def)
  from assms(1) show ?thesis by cases (use d lit candidate_names[OF assms(2)] in \<open>simp_all add: ValidID_file_name\<close>)
qed

lemma placed_secret:
  assumes "separate_dirs config"
  shows "placed config c (secret_path config es) n \<longleftrightarrow>
    es = [cd_name c, ''identity-generations'', cd_identityGeneration c, ''tls.crt''] \<and> n = FFile (m_Certificate (cd_identity c)) 292 \<or>
    es = [cd_name c, ''identity-generations'', cd_identityGeneration c, ''tls.key''] \<and> n = FFile (m_PrivateKey (cd_identity c)) 292 \<or>
    es = [cd_name c, ''identity-generations'', cd_identityGeneration c, ''ca.crt''] \<and> n = FFile (m_CABundle (cd_identity c)) 292 \<or>
    es = [cd_name c, ''identity''] \<and> n = FLink (''identity-generations/'' @ cd_identityGeneration c) \<or>
    (\<exists>provider contents key v. (provider, contents) \<in> set (cd_secrets c) \<and> (key, v) \<in> set contents \<and>
       es = [cd_name c, provider, key] \<and> n = FFile v 292)"
  unfolding placed.simps using separate_elements[OF assms, symmetric] by auto

lemma placed_unique:
  assumes "placed config c es n" and "placed config c' es n'" and "candidate_ok c" and "candidate_ok c'" and "separate_dirs config"
    and "cd_name c = cd_name c' \<Longrightarrow> c = c'"
  shows "n = n'"
proof -
  note sep = separate_elements[OF assms(5)] separate_elements[OF assms(5), symmetric]
  have p: "provider \<noteq> ''identity''" "provider \<noteq> ''identity-generations''"
    if "(provider, contents) \<in> set (cd_secrets c) \<union> set (cd_secrets c')" for provider contents
    using that assms(3,4) provider_names[of provider] by (auto simp: candidate_ok_def)
  have s: "v = v'" if "(provider, contents) \<in> set (cd_secrets c)" "(key, v) \<in> set contents"
    "(provider, contents') \<in> set (cd_secrets c)" "(key, v') \<in> set contents'" for provider contents contents' key v v'
  proof -
    have "contents = contents'" using that(1,3) assms(3) by (auto simp: candidate_ok_def dest: eq_key_imp_eq_value)
    moreover have "distinct (map fst contents)" using that(1) assms(3) by (auto simp: candidate_ok_def)
    ultimately show ?thesis using that(2,4) by (auto dest: eq_key_imp_eq_value)
  qed
  show ?thesis
  proof (cases "\<exists>x. es = static_path config x")
    case True
    then show ?thesis using assms(1,2,6) sep by (auto elim!: placed.cases)
  next
    case False
    from assms(1) False obtain x where x: "es = secret_path config (cd_name c # x)" by cases auto
    from assms(2) False obtain x' where x': "es = secret_path config (cd_name c' # x')" by cases auto
    from x x' have c: "c' = c" using assms(6) by simp
    show ?thesis using assms(1) assms(2) unfolding c x
      by (simp add: placed_secret[OF assms(5)]) (elim disjE; use p s in auto)
  qed
qed

lemma placed_live:
  assumes "placed config c es n" and "candidate_ok c" and "separate_dirs config"
  shows "\<not> is_temporary (abs_path es)"
proof -
  have v: "\<not> HasPrefix v ''.podmin-''" "\<not> HasPrefix (v @ w) ''.podmin-''" if "ValidID v" for v w
    using that ValidID_chars[of v "CHR ''.''"] not_label_char(3) ValidID_not_Nil[of v]
    by (auto simp: HasPrefix_iff append_eq_Cons_conv)
  note names = placed_names[OF assms]
  have last: "\<not> is_temporary (abs_path (ds @ [e]))" if "file_name e" "\<not> HasPrefix e ''.podmin-''" for ds e
    using that by (simp add: is_temporary_def Base_abs)
  have lits: "file_name ''identity''" "file_name ''tls.crt''" "file_name ''tls.key''" "file_name ''ca.crt''"
    "\<not> HasPrefix ''identity'' ''.podmin-''" "\<not> HasPrefix ''tls.crt'' ''.podmin-''" "\<not> HasPrefix ''tls.key'' ''.podmin-''" "\<not> HasPrefix ''ca.crt'' ''.podmin-''"
    by (simp_all add: file_name_def clean_element_def HasPrefix_def)
  have snoc: "ds @ [a, b] = (ds @ [a]) @ [b]" "ds @ [a, b, c] = (ds @ [a, b]) @ [c]" "ds @ [a, b, c, d] = (ds @ [a, b, c]) @ [d]"
    for ds :: "string list" and a b c d by simp_all
  from assms(1) show ?thesis
  proof cases
    case (secret provider contents key v)
    then have "ValidID key" using candidate_names(5)[OF assms(2)] by blast
    then show ?thesis unfolding secret(1) snoc by (intro last v ValidID_file_name)
  next
    case manifest
    have "ValidID (cd_name c)" using assms(2) by (simp add: candidate_ok_def)
    then show ?thesis unfolding manifest(1) by (intro last v candidate_names(2)[OF assms(2)])
  qed (simp_all only: snoc, (intro last lits)+)
qed

section \<open>The changes of a round\<close>

lemma Join_names:
  assumes "file_name a" and "file_name b"
  shows "filepath_Join [a, b] = a @ CHR ''/'' # b" "filepath_Base (a @ CHR ''/'' # b) = b"
proof -
  obtain c t where a: "a = c # t" "c \<noteq> CHR ''/''" using assms(1) by (cases a) (auto simp: file_name_def clean_element_def)
  then have r: "\<not> rooted (a @ CHR ''/'' # b)" by (auto simp: rooted_def)
  have "path_elements (strings_Join [a, b] ''/'') = [a, b]"
    using assms by (intro path_elements_Join) (auto simp: file_name_def)
  then have "clean_elements (a @ CHR ''/'' # b) = [a, b]"
    using assms by (auto simp: clean_elements_def clean_step_def file_name_def)
  then show "filepath_Join [a, b] = a @ CHR ''/'' # b" using r a by (simp add: filepath_Join_def filepath_Clean_def)
  show "filepath_Base (a @ CHR ''/'' # b) = b" using Base_snoc[OF assms(2)] .
qed

lemma identity_target:
  assumes "candidate_ok c"
  shows "filepath_Join [''identity-generations'', cd_identityGeneration c] = ''identity-generations/'' @ cd_identityGeneration c"
    "filepath_Base (''identity-generations/'' @ cd_identityGeneration c) = cd_identityGeneration c"
  using Join_names[of "''identity-generations''" "cd_identityGeneration c"] candidate_names(3)[OF assms]
  by (simp_all add: file_name_def clean_element_def)

lemma candidate_paths:
  assumes "candidate_ok c" and "separate_dirs config"
  shows "filepath_Join [sc_SecretDir config, cd_name c, ''identity-generations'', cd_identityGeneration c, ''tls.crt''] =
      abs_path (secret_path config [cd_name c, ''identity-generations'', cd_identityGeneration c, ''tls.crt''])"
    "filepath_Join [sc_SecretDir config, cd_name c, ''identity-generations'', cd_identityGeneration c, ''tls.key''] =
      abs_path (secret_path config [cd_name c, ''identity-generations'', cd_identityGeneration c, ''tls.key''])"
    "filepath_Join [sc_SecretDir config, cd_name c, ''identity-generations'', cd_identityGeneration c, ''ca.crt''] =
      abs_path (secret_path config [cd_name c, ''identity-generations'', cd_identityGeneration c, ''ca.crt''])"
    "filepath_Join [sc_SecretDir config, cd_name c, ''identity''] = abs_path (secret_path config [cd_name c, ''identity''])"
    "filepath_Join [sc_StaticDir config, cd_name c @ ''.yaml''] = abs_path (static_path config (cd_name c))"
    "(provider, contents) \<in> set (cd_secrets c) \<Longrightarrow> (key, v) \<in> set contents \<Longrightarrow>
      filepath_Join [sc_SecretDir config, cd_name c, provider, key] = abs_path (secret_path config [cd_name c, provider, key])"
proof -
  have r: "rooted (sc_SecretDir config)" "rooted (sc_StaticDir config)" using assms(2) by (simp_all add: separate_dirs_def)
  note n = candidate_names[OF assms(1)]
  have lits: "file_name ''identity''" "file_name ''identity-generations''" "file_name ''tls.crt''" "file_name ''tls.key''" "file_name ''ca.crt''"
    by (simp_all add: file_name_def clean_element_def)
  show "filepath_Join [sc_SecretDir config, cd_name c, ''identity-generations'', cd_identityGeneration c, ''tls.crt''] =
      abs_path (secret_path config [cd_name c, ''identity-generations'', cd_identityGeneration c, ''tls.crt''])"
    "filepath_Join [sc_SecretDir config, cd_name c, ''identity-generations'', cd_identityGeneration c, ''tls.key''] =
      abs_path (secret_path config [cd_name c, ''identity-generations'', cd_identityGeneration c, ''tls.key''])"
    "filepath_Join [sc_SecretDir config, cd_name c, ''identity-generations'', cd_identityGeneration c, ''ca.crt''] =
      abs_path (secret_path config [cd_name c, ''identity-generations'', cd_identityGeneration c, ''ca.crt''])"
    "filepath_Join [sc_SecretDir config, cd_name c, ''identity''] = abs_path (secret_path config [cd_name c, ''identity''])"
    "filepath_Join [sc_StaticDir config, cd_name c @ ''.yaml''] = abs_path (static_path config (cd_name c))"
    by (rule Join_rooted, use r n lits in simp, use r n lits in simp)+
  show "filepath_Join [sc_SecretDir config, cd_name c, provider, key] = abs_path (secret_path config [cd_name c, provider, key])"
    if "(provider, contents) \<in> set (cd_secrets c)" "(key, v) \<in> set contents"
    using n(4)[OF that(1)] n(5)[OF that] n(1) by (intro Join_rooted[OF r(1)]) (simp add: ValidID_file_name)
qed

lemma actions_placed:
  assumes "env_laws env" and "candidate_ok c" and "separate_dirs config" and "a \<in> set (candidate_actions config env c)"
  shows "\<exists>es. action_path a = abs_path es \<and> placed config c es (action_node a)" "cd_publish c"
proof -
  note paths = candidate_paths[OF assms(2,3)]
  note target = identity_target(1)[OF assms(2)]
  show "cd_publish c" using assms(4) by (simp add: candidate_actions_def split: if_splits)
  have e: "set (re_fileOrder env x) = set x" "set (re_providerOrder env y) = set y" for x y
    using assms(1) by (simp_all add: env_laws_def)
  define I where "I = [(''tls.crt'', m_Certificate (cd_identity c)), (''tls.key'', m_PrivateKey (cd_identity c)), (''ca.crt'', m_CABundle (cd_identity c))]"
  from assms(4) \<open>cd_publish c\<close> consider
    (identity) name v where "(name, v) \<in> set I"
      "a = SFile (filepath_Join [sc_SecretDir config, cd_name c, ''identity-generations'', cd_identityGeneration c, name]) v 493 292"
  | (link) "a = SLink (filepath_Join [sc_SecretDir config, cd_name c, ''identity'']) (filepath_Join [''identity-generations'', cd_identityGeneration c])"
  | (secret) provider contents key v where "(provider, contents) \<in> set (cd_secrets c)" "(key, v) \<in> set contents"
      "a = SFile (filepath_Join [sc_SecretDir config, cd_name c, provider, key]) v 493 292"
  | (manifest) "a = SFile (filepath_Join [sc_StaticDir config, cd_name c @ ''.yaml'']) (cd_manifest c) 448 384"
    unfolding candidate_actions_def I_def[symmetric] by (auto simp: e)
  then show "\<exists>es. action_path a = abs_path es \<and> placed config c es (action_node a)"
  proof cases
    case identity
    from identity(1)[unfolded I_def] have "name = ''tls.crt'' \<and> v = m_Certificate (cd_identity c) \<or> name = ''tls.key'' \<and> v = m_PrivateKey (cd_identity c) \<or>
      name = ''ca.crt'' \<and> v = m_CABundle (cd_identity c)" by auto
    then show ?thesis using identity(2) placed.intros(1-3)[of config c] paths(1-3) by fastforce
  next
    case link
    then show ?thesis using placed.link[of config c] paths(4) target by (metis action_path.simps(2) action_node.simps(2))
  next
    case secret
    then show ?thesis using placed.secret[OF secret(1,2), of config] paths(6) by (metis action_path.simps(1) action_node.simps(1))
  next
    case manifest
    then show ?thesis using placed.manifest[of config c] paths(5) by (metis action_path.simps(1) action_node.simps(1))
  qed
qed

lemma placed_actions:
  assumes "env_laws env" and "candidate_ok c" and "separate_dirs config" and "cd_publish c" and "placed config c es n"
  shows "\<exists>a \<in> set (candidate_actions config env c). action_path a = abs_path es \<and> action_node a = n"
proof -
  note paths = candidate_paths[OF assms(2,3)]
  note target = identity_target(1)[OF assms(2)]
  have e: "set (re_fileOrder env x) = set x" "set (re_providerOrder env y) = set y" for x y
    using assms(1) by (simp_all add: env_laws_def)
  from assms(5) show ?thesis
  proof cases
    case (secret provider contents key v)
    then have "SFile (abs_path es) v 493 292 \<in> set (candidate_actions config env c)"
      using assms(4) paths(6)[OF secret(3,4)] by (force simp: candidate_actions_def e)
    then show ?thesis using secret by force
  qed (use assms(4) in \<open>auto simp: candidate_actions_def e paths(1-5) target\<close>)
qed

lemma link_temporaries_append [simp]: "link_temporaries (as @ bs) = link_temporaries as @ link_temporaries bs"
  by (induction as rule: link_temporaries.induct) simp_all

lemma link_temporaries_files: "link_temporaries (map (\<lambda>(x, y). SFile (f x y) (g x y) dm fm) xs) = []"
  by (induction xs) auto

lemma link_temporaries_providers: "link_temporaries (concat (map (\<lambda>(p, cs). map (\<lambda>(x, y). SFile (f p x y) (g x y) dm fm) (h cs)) ps)) = []"
  by (induction ps) (auto simp: link_temporaries_files[of "f p" g for p])

lemma candidate_links:
  assumes "candidate_ok c" and "separate_dirs config"
  shows "link_temporaries (candidate_actions config env c) =
    (if cd_publish c then [abs_path (secret_path config [cd_name c, ''.podmin-link-'' @ cd_identityGeneration c])] else [])"
proof -
  have d: "list_all file_name (secret_path config [cd_name c])" "rooted (abs_path (secret_path config [cd_name c]))"
    using assms clean_elements_names candidate_names(1)[OF assms(1)] by (simp_all add: separate_dirs_def)
  have i: "file_name ''identity''" by (simp add: file_name_def clean_element_def)
  have g: "file_name (''.podmin-link-'' @ cd_identityGeneration c)"
    using candidate_names(3)[OF assms(1)] by (simp add: file_name_def clean_element_def)
  have "filepath_Dir (abs_path (secret_path config [cd_name c, ''identity''])) = abs_path (secret_path config [cd_name c])"
    using Dir_abs[OF d(1) i] by simp
  moreover have "filepath_Join [abs_path (secret_path config [cd_name c]), ''.podmin-link-'' @ cd_identityGeneration c] =
      abs_path (secret_path config [cd_name c, ''.podmin-link-'' @ cd_identityGeneration c])"
    using Join_rooted[OF d(2), of "[''.podmin-link-'' @ cd_identityGeneration c]"] g clean_elements_abs[OF d(1)] by simp
  ultimately show ?thesis
    by (simp add: candidate_actions_def link_temporaries_files link_temporaries_providers link_temporary_def
        candidate_paths(4)[OF assms] identity_target[OF assms(1)] del: append.simps)
qed

section \<open>What a round owns is not removed\<close>

definition owned :: "staticpod_Config \<Rightarrow> candidate list \<Rightarrow> string set" where
  "owned config cs = {abs_path es | es. \<exists>c n. c \<in> set cs \<and> placed config c es n}"

definition round_secrets :: "candidate list \<Rightarrow> desired_secrets" where
  "round_secrets cs = map (\<lambda>c. (cd_name c, map (\<lambda>(provider, contents). (provider, map fst contents)) (cd_secrets c))) cs"

definition candidates_ok :: "candidate list \<Rightarrow> bool" where
  "candidates_ok cs \<longleftrightarrow> list_all candidate_ok cs \<and> distinct (map cd_name cs)"

lemma candidates_okD: "candidates_ok cs \<Longrightarrow> c \<in> set cs \<Longrightarrow> candidate_ok c"
  by (simp add: candidates_ok_def list_all_iff)

lemma candidates_unique: "candidates_ok cs \<Longrightarrow> c \<in> set cs \<Longrightarrow> d \<in> set cs \<Longrightarrow> cd_name c = cd_name d \<Longrightarrow> c = d"
  by (auto simp: candidates_ok_def distinct_map inj_on_def)

lemma owned_cases:
  assumes "candidates_ok cs" and "separate_dirs config" and "list_all file_name fs"
    and "p \<in> owned config cs" and "p = abs_path fs \<or> HasPrefix p (abs_path fs @ ''/'')"
  obtains c n rest where "c \<in> set cs" "placed config c (fs @ rest) n" "p = abs_path fs \<longrightarrow> rest = []"
proof -
  from assms(4) obtain es c n where c: "c \<in> set cs" "placed config c es n" "p = abs_path es" by (auto simp: owned_def)
  note names = placed_names[OF c(2) candidates_okD[OF assms(1) c(1)] assms(2)]
  show thesis
  proof (cases "p = abs_path fs")
    case True
    then have "es = fs" using c(3) abs_path_inject[OF names assms(3)] by simp
    then show thesis using that[of c "[]" n] c by simp
  next
    case False
    then obtain rest where "es = fs @ rest" using HasPrefix_abs[OF names assms(3)] assms(5) c(3) by auto
    then show thesis using that[of c rest n] c False by simp
  qed
qed

lemma owned_exact:
  assumes "candidates_ok cs" and "separate_dirs config" and "list_all file_name fs" and "abs_path fs \<in> owned config cs"
  shows "\<exists>c \<in> set cs. \<exists>n. placed config c fs n"
proof -
  obtain c n rest where "c \<in> set cs" "placed config c (fs @ rest) n" "abs_path fs = abs_path fs \<longrightarrow> rest = []"
    by (rule owned_cases[OF assms]) auto
  then show ?thesis by auto
qed

lemma owned_apart:
  assumes "candidates_ok cs" and "separate_dirs config" and "list_all file_name fs"
    and "\<And>c n rest. c \<in> set cs \<Longrightarrow> placed config c (fs @ rest) n \<Longrightarrow> False"
  shows "apart (owned config cs) (abs_path fs)"
  unfolding apart_def using owned_cases[OF assms(1-3)] assms(4) by blast

lemma desired_member:
  assumes "candidates_ok cs" and "c \<in> set cs" and "(provider, contents) \<in> set (cd_secrets c)" and "(key, v) \<in> set contents"
  shows "key \<in> set (desired_keys (round_secrets cs) (cd_name c) provider)"
proof -
  let ?k = "\<lambda>c. map (\<lambda>(provider, contents). (provider, map fst contents)) (cd_secrets c)"
  have d: "distinct (map fst (round_secrets cs))" "distinct (map fst (?k c))"
    using assms(1,2) by (auto simp: candidates_ok_def candidate_ok_def round_secrets_def list_all_iff comp_def case_prod_unfold)
  have "map_of (round_secrets cs) (cd_name c) = Some (?k c)"
    using assms(2) by (intro map_of_is_SomeI d) (auto simp: round_secrets_def)
  moreover have "map_of (?k c) provider = Some (map fst contents)"
    using assms(3) by (intro map_of_is_SomeI d) force
  ultimately show ?thesis using assms(4) by (force simp: desired_keys_def)
qed

lemma dir_joins:
  assumes "separate_dirs config" and "list_all file_name es"
  shows "filepath_Join (sc_StaticDir config # es) = abs_path (clean_elements (sc_StaticDir config) @ es)"
    "filepath_Join (sc_SecretDir config # es) = abs_path (secret_path config es)"
    "file_name x \<Longrightarrow> filepath_Join [abs_path (secret_path config es), x] = abs_path (secret_path config (es @ [x]))"
    "list_all file_name (secret_path config es)" "list_all file_name (clean_elements (sc_StaticDir config) @ es)"
proof -
  have r: "rooted (sc_StaticDir config)" "rooted (sc_SecretDir config)" using assms(1) by (simp_all add: separate_dirs_def)
  show n: "list_all file_name (secret_path config es)" "list_all file_name (clean_elements (sc_StaticDir config) @ es)"
    using clean_elements_names[OF r(1)] clean_elements_names[OF r(2)] assms(2) by simp_all
  show "filepath_Join (sc_StaticDir config # es) = abs_path (clean_elements (sc_StaticDir config) @ es)"
    "filepath_Join (sc_SecretDir config # es) = abs_path (secret_path config es)"
    using Join_rooted[OF r(1) assms(2)] Join_rooted[OF r(2) assms(2)] by simp_all
  show "file_name x \<Longrightarrow> filepath_Join [abs_path (secret_path config es), x] = abs_path (secret_path config (es @ [x]))"
    using Join_rooted[of "abs_path (secret_path config es)" "[x]"] clean_elements_abs[OF n(1)] by simp
qed

lemma secret_placed:
  assumes "separate_dirs config" and "placed config c (secret_path config es) n" and "candidate_ok c"
  shows "hd es = cd_name c" "es \<noteq> []"
    "es ! 1 = ''identity-generations'' \<Longrightarrow> length es = 4 \<and> es ! 2 = cd_identityGeneration c"
    "es ! 1 \<in> {AWSParameterStore, AWSSecretsManager} \<Longrightarrow> length es > 1 \<Longrightarrow>
       \<exists>contents v. (es ! 1, contents) \<in> set (cd_secrets c) \<and> es = [cd_name c, es ! 1, es ! 2] \<and> (es ! 2, v) \<in> set contents"
proof -
  have p: "provider \<noteq> ''identity''" "provider \<noteq> ''identity-generations''" if "(provider, contents) \<in> set (cd_secrets c)" for provider contents
    using that assms(3) provider_names[of provider] by (auto simp: candidate_ok_def)
  have q: "AWSParameterStore \<noteq> ''identity''" "AWSSecretsManager \<noteq> ''identity''" "AWSParameterStore \<noteq> ''identity-generations''" "AWSSecretsManager \<noteq> ''identity-generations''"
    using provider_names by simp_all
  note cases = assms(2)[unfolded placed_secret[OF assms(1)]]
  show "hd es = cd_name c" "es \<noteq> []" using cases by auto
  show "es ! 1 = ''identity-generations'' \<Longrightarrow> length es = 4 \<and> es ! 2 = cd_identityGeneration c"
    using cases p(2) by (elim disjE) auto
  show "es ! 1 \<in> {AWSParameterStore, AWSSecretsManager} \<Longrightarrow> length es > 1 \<Longrightarrow>
       \<exists>contents v. (es ! 1, contents) \<in> set (cd_secrets c) \<and> es = [cd_name c, es ! 1, es ! 2] \<and> (es ! 2, v) \<in> set contents"
    using cases q by (elim disjE) (auto, (metis)+)
qed

lemma owned_spared:
  assumes ok: "candidates_ok cs" and sep: "separate_dirs config"
  shows "spared (owned config cs) (sc_StaticDir config) (sc_SecretDir config) (set (map cd_name cs)) (round_secrets cs)"
proof -
  let ?K = "owned config cs"
  note apart = owned_apart[OF ok sep]
  have "filepath_Join [sc_StaticDir config, name] \<notin> ?K"
    if "file_name name" "HasSuffix name ''.yaml''" "TrimSuffix name ''.yaml'' \<notin> set (map cd_name cs)" for name
  proof
    note nm = that(1) and j = dir_joins(1,5)[OF sep, of "[name]"]
    assume "filepath_Join [sc_StaticDir config, name] \<in> ?K"
    then obtain c n where c: "c \<in> set cs" "placed config c (clean_elements (sc_StaticDir config) @ [name]) n"
      using owned_exact[OF ok sep, of "clean_elements (sc_StaticDir config) @ [name]"] j nm by auto
    from c(2) have "name = cd_name c @ ''.yaml''" by cases (use separate_elements[OF sep] in auto)
    with that(3) c(1) show False by (simp add: TrimSuffix_append)
  qed
  moreover have "apart ?K (filepath_Join [sc_SecretDir config, pod])" if pod: "file_name pod" "pod \<notin> set (map cd_name cs)" for pod
  proof -
    have "apart ?K (abs_path (secret_path config [pod]))"
    proof (rule apart)
      show "list_all file_name (secret_path config [pod])" using dir_joins(4)[OF sep, of "[pod]"] pod(1) by simp
      fix c n rest assume c: "c \<in> set cs" "placed config c (secret_path config [pod] @ rest) n"
      show False using secret_placed(1)[OF sep, of c "pod # rest" n] c candidates_okD[OF ok c(1)] pod(2) by simp
    qed
    then show ?thesis using dir_joins(2)[OF sep, of "[pod]"] pod(1) by simp
  qed
  moreover have "filepath_Join [filepath_Join [sc_SecretDir config, pod, provider], item] \<notin> ?K"
    if "file_name pod" "provider \<in> {AWSParameterStore, AWSSecretsManager}" "file_name item" "item \<notin> set (desired_keys (round_secrets cs) pod provider)"
    for pod provider item
  proof
    have pv: "file_name provider" using provider_names[OF that(2)] by simp
    note nm = that(1-3) and j = dir_joins(2-4)[OF sep, of "[pod, provider]"] dir_joins(4)[OF sep, of "[pod, provider, item]"]
    assume "filepath_Join [filepath_Join [sc_SecretDir config, pod, provider], item] \<in> ?K"
    then have "abs_path (secret_path config [pod, provider, item]) \<in> ?K" using j(1) j(2)[of item] that(1,3) pv by simp
    then obtain c n where c: "c \<in> set cs" "placed config c (secret_path config [pod, provider, item]) n"
      using owned_exact[OF ok sep, of "secret_path config [pod, provider, item]"] j(4) nm(1,3) pv by auto
    note okc = candidates_okD[OF ok c(1)]
    from secret_placed(4)[OF sep c(2) okc] nm(2) obtain contents v where
      "(provider, contents) \<in> set (cd_secrets c)" "(item, v) \<in> set contents" by auto
    moreover have "pod = cd_name c" using secret_placed(1)[OF sep c(2) okc] by simp
    ultimately show False using desired_member[OF ok c(1)] that(4) by blast
  qed
  moreover have "apart ?K (filepath_Join [sc_SecretDir config, pod, provider])"
    if h: "file_name pod" "provider \<in> {AWSParameterStore, AWSSecretsManager}" "desired_keys (round_secrets cs) pod provider = []" for pod provider
  proof -
    have names: "list_all file_name [pod, provider]" using provider_names[OF h(2)] h(1) by simp
    have "apart ?K (abs_path (secret_path config [pod, provider]))"
    proof (rule apart)
      show "list_all file_name (secret_path config [pod, provider])" using dir_joins(4)[OF sep names] .
      fix c n rest assume c: "c \<in> set cs" "placed config c (secret_path config [pod, provider] @ rest) n"
      note okc = candidates_okD[OF ok c(1)]
      have c2: "placed config c (secret_path config (pod # provider # rest)) n" using c(2) by simp
      from secret_placed(4)[OF sep c2 okc] h(2) obtain contents v k where
        "(provider, contents) \<in> set (cd_secrets c)" "(k, v) \<in> set contents" by auto
      then show False using desired_member[OF ok c(1)] secret_placed(1)[OF sep c2 okc] h(3) by fastforce
    qed
    then show ?thesis using dir_joins(2)[OF sep names] by simp
  qed
  ultimately show ?thesis unfolding spared_def by blast
qed

lemma owned_generations:
  assumes ok: "candidates_ok cs" and sep: "separate_dirs config" and "c \<in> set cs" and "file_name name" and "name \<noteq> cd_identityGeneration c"
  shows "apart (owned config cs) (filepath_Join [filepath_Join [sc_SecretDir config, cd_name c, ''identity-generations''], name])"
proof -
  have n: "file_name (cd_name c)" "file_name ''identity-generations''"
    using candidate_names(1)[OF candidates_okD[OF ok assms(3)]] by (simp_all add: file_name_def clean_element_def)
  let ?fs = "secret_path config [cd_name c, ''identity-generations'', name]"
  have "filepath_Join [filepath_Join [sc_SecretDir config, cd_name c, ''identity-generations''], name] = abs_path ?fs"
    using dir_joins(2)[OF sep, of "[cd_name c, ''identity-generations'']"] dir_joins(3)[OF sep, of "[cd_name c, ''identity-generations'']" name] n assms(4) by simp
  moreover have "apart (owned config cs) (abs_path ?fs)"
  proof (rule owned_apart[OF ok sep])
    show "list_all file_name ?fs" using dir_joins(4)[OF sep, of "[cd_name c, ''identity-generations'', name]"] n assms(4) by simp
    fix d m rest assume d: "d \<in> set cs" "placed config d (?fs @ rest) m"
    note okd = candidates_okD[OF ok d(1)]
    have d2: "placed config d (secret_path config (cd_name c # ''identity-generations'' # name # rest)) m" using d(2) by simp
    have "d = c" using secret_placed(1)[OF sep d2 okd] candidates_unique[OF ok d(1) assms(3)] by simp
    then show False using secret_placed(3)[OF sep d2 okd] assms(5) by simp
  qed
  ultimately show ?thesis by simp
qed

end
