(* ===== verification/Staticpod_Publish.thy ===== *)
theory Staticpod_Publish
  imports Staticpod_Round
begin

text \<open>
  What a round does to the files that others read: until it is confirmed it changes temporary
  names only, a commit replaces a file as a whole, and what is removed afterwards is stale.
\<close>

section \<open>A round\<close>

lemma candidate_for_ok:
  assumes "candidate_for ops config stores env r (name, d) c" and "ValidID name"
  shows "candidate_ok c"
proof -
  from assms(1) obtain input bu where c: "cd_name c = name" "cd_secrets c = bu_secrets bu"
    "build ops config stores input (deploymentRevision d) = Inr bu"
    "identityRevision ops (bu_manifest bu) (m_Certificate (cd_identity c)) = Inr (cd_manifest c, cd_identityGeneration c)"
    by (auto simp: candidate_for_def)
  have k: "ValidID key" if "fetched_from config n p store (key, v)" for n p store key v
    using that by (auto simp: fetched_from_def secrets_Name_Inr)
  have "ValidID key" if "(provider, contents) \<in> set (cd_secrets c)" "(key, v) \<in> set contents" for provider contents key v
    using build_secrets[OF c(3)] that c(2) k by (fastforce simp: scoped_secrets_def list_all_iff)
  then show ?thesis using build_secrets[OF c(3)] c(1,2) assms(2) identityRevision_generation[OF c(4)]
    by (auto simp: candidate_ok_def scoped_secrets_def)
qed

lemma build_round_candidates:
  assumes "env_laws env" and "valid_index index" and "build_round ops config stores cl env r index st = Inr rd"
  shows "candidates_ok (rd_candidates rd)"
    "list_all2 (candidate_for ops config stores env r) (selected_deployments config (re_order env index)) (rd_candidates rd)"
    "\<exists>sss. list_all2 (service_for ops) (rd_candidates rd) sss \<and> rd_services rd = concat sss"
proof -
  let ?sel = "selected_deployments config (re_order env index)"
  from build_candidates[OF assms(3)[unfolded build_round_def]] obtain sss where
    all: "list_all2 (candidate_for ops config stores env r) ?sel (rd_candidates rd)" "list_all2 (service_for ops) (rd_candidates rd) sss"
      "rd_services rd = concat sss" "distinct (map cd_name (rd_candidates rd))" by auto
  show "list_all2 (candidate_for ops config stores env r) ?sel (rd_candidates rd)"
    "\<exists>sss. list_all2 (service_for ops) (rd_candidates rd) sss \<and> rd_services rd = concat sss" using all by blast+
  have "candidate_ok c" if "c \<in> set (rd_candidates rd)" for c
  proof -
    from that all(1) obtain name d where "(name, d) \<in> set ?sel" "candidate_for ops config stores env r (name, d) c"
      by (auto simp: list_all2_conv_all_nth in_set_conv_nth) (metis prod.collapse)
    moreover have "set (re_order env index) = set index" using assms(1) by (simp add: env_laws_def)
    ultimately show ?thesis using candidate_for_ok selected_valid[OF assms(2)] by blast
  qed
  then show "candidates_ok (rd_candidates rd)" using all(4) by (simp add: candidates_ok_def list_all_iff)
qed

abbreviation round_actions :: "staticpod_Config \<Rightarrow> round_env \<Rightarrow> candidate list \<Rightarrow> stage_action list" where
  "round_actions config env cs \<equiv> concat (map (candidate_actions config env) cs)"

lemma round_links:
  assumes "candidates_ok cs" and "separate_dirs config"
  shows "distinct (link_temporaries (round_actions config env cs))"
proof -
  have "set (link_temporaries (round_actions config env cs)) \<subseteq>
      (\<lambda>c. abs_path (secret_path config [cd_name c, ''.podmin-link-'' @ cd_identityGeneration c])) ` set cs \<and>
    distinct (link_temporaries (round_actions config env cs))"
    using assms(1)
  proof (induction cs)
    case (Cons c cs)
    let ?l = "\<lambda>c. secret_path config [cd_name c, ''.podmin-link-'' @ cd_identityGeneration c]"
    have ok: "candidate_ok c" "candidates_ok cs" "cd_name c \<notin> cd_name ` set cs" using Cons.prems by (auto simp: candidates_ok_def)
    have names: "list_all file_name (?l d)" if "candidate_ok d" for d
      using candidate_names(1,3)[OF that] dir_joins(4)[OF assms(2), of "[cd_name d, ''.podmin-link-'' @ cd_identityGeneration d]"]
      by (simp add: file_name_def clean_element_def)
    have "abs_path (?l c) \<notin> (\<lambda>c. abs_path (?l c)) ` set cs"
    proof
      assume "abs_path (?l c) \<in> (\<lambda>c. abs_path (?l c)) ` set cs"
      then obtain d where d: "d \<in> set cs" "abs_path (?l c) = abs_path (?l d)" by blast
      with names[OF ok(1)] names[OF candidates_okD[OF ok(2) d(1)]] have "cd_name c = cd_name d" by (simp add: abs_path_inject)
      with ok(3) d(1) show False by blast
    qed
    then show ?case using Cons.IH[OF ok(2)] candidate_links[OF ok(1) assms(2), of env] by auto
  qed simp
  then show ?thesis ..
qed

lemma action_ok_round:
  assumes "candidates_ok cs" and "separate_dirs config" and "a \<in> set (round_actions config env cs)"
  shows "action_ok a"
proof -
  from assms(3) obtain c where c: "c \<in> set cs" "a \<in> set (candidate_actions config env c)" by auto
  note ok = candidates_okD[OF assms(1) c(1)]
  show ?thesis
  proof (cases a)
    case (SLink path target)
    then have "path = filepath_Join [sc_SecretDir config, cd_name c, ''identity'']"
      "target = filepath_Join [''identity-generations'', cd_identityGeneration c]"
      using c(2) by (auto simp: candidate_actions_def split: if_splits)
    moreover have "filepath_Dir (abs_path (secret_path config [cd_name c, ''identity''])) = abs_path (secret_path config [cd_name c])"
      using Dir_abs[of "secret_path config [cd_name c]" "''identity''"] dir_joins(4)[OF assms(2), of "[cd_name c]"] candidate_names(1)[OF ok]
      by (simp add: file_name_def clean_element_def)
    ultimately show ?thesis
      using SLink candidate_paths(4)[OF ok assms(2)] identity_target[OF ok] candidate_names(3)[OF ok] by simp
  qed simp
qed

lemma map_of_functional:
  assumes "(k, v) \<in> set xs" and "\<And>v'. (k, v') \<in> set xs \<Longrightarrow> v' = v"
  shows "map_of xs k = Some v"
proof -
  from assms(1) obtain v' where "map_of xs k = Some v'" by (metis weak_map_of_SomeI)
  with assms(2)[OF map_of_SomeD[OF this]] show ?thesis by simp
qed

text \<open>Distinct places: what is committed under a path is what its candidate places there.\<close>

lemma changes_placed:
  assumes "env_laws env" and "candidates_ok cs" and "separate_dirs config" and "c \<in> set cs" and "placed config c es n"
  shows "cd_publish c \<Longrightarrow> changes (round_actions config env cs) (abs_path es) = Some n"
    "\<not> cd_publish c \<Longrightarrow> changes (round_actions config env cs) (abs_path es) = None"
proof -
  let ?kv = "map (\<lambda>a. (action_path a, action_node a)) (round_actions config env cs)"
  note okc = candidates_okD[OF assms(2,4)]
  have from_candidate: "\<exists>d. d \<in> set cs \<and> cd_publish d \<and> placed config d es m" if m: "(abs_path es, m) \<in> set ?kv" for m
  proof -
    from m obtain a d where a: "d \<in> set cs" "a \<in> set (candidate_actions config env d)" "action_path a = abs_path es" "action_node a = m" by auto
    note okd = candidates_okD[OF assms(2) a(1)]
    from actions_placed[OF assms(1) okd assms(3) a(2)] obtain fs where "action_path a = abs_path fs" "placed config d fs (action_node a)" "cd_publish d" by blast
    moreover from this have "fs = es" using a(3) abs_path_inject placed_names[OF assms(5) okc assms(3)] placed_names[OF _ okd assms(3)] by metis
    ultimately show ?thesis using a(1,4) by blast
  qed
  have same: "d = c" if d: "d \<in> set cs" "placed config d es m" for d m
  proof -
    note okd = candidates_okD[OF assms(2) d(1)]
    show ?thesis
    proof (cases "\<exists>x. es = clean_elements (sc_StaticDir config) @ x")
      case True
      then have "es = static_path config (cd_name c)" "es = static_path config (cd_name d)"
        using assms(5) d(2) separate_elements[OF assms(3)] by (auto elim!: placed.cases)
      then show ?thesis using candidates_unique[OF assms(2) d(1) assms(4)] by simp
    next
      case False
      from assms(5) False obtain x where x: "es = secret_path config x" by cases auto
      from secret_placed(1)[OF assms(3) _ okc, of x n] secret_placed(1)[OF assms(3) _ okd, of x m] x assms(5) d(2)
      have "cd_name c = cd_name d" by simp
      then show ?thesis using candidates_unique[OF assms(2) d(1) assms(4)] by simp
    qed
  qed
  show "changes (round_actions config env cs) (abs_path es) = Some n" if pub: "cd_publish c"
  proof -
    obtain a where "a \<in> set (candidate_actions config env c)" "action_path a = abs_path es" "action_node a = n"
      using placed_actions[OF assms(1) okc assms(3) pub assms(5)] by blast
    then have "(abs_path es, n) \<in> set ?kv" using assms(4) by force
    moreover have "m = n" if m: "(abs_path es, m) \<in> set ?kv" for m
    proof -
      obtain d where d: "d \<in> set cs" "placed config d es m" using from_candidate[OF m] by blast
      then have "placed config c es m" using same[OF d] by simp
      then show ?thesis using placed_unique[OF _ assms(5) okc okc assms(3)] by simp
    qed
    ultimately show ?thesis unfolding changes_def using map_of_functional[of "abs_path es" n "rev ?kv"] unfolding set_rev by blast
  qed
  show "changes (round_actions config env cs) (abs_path es) = None" if "\<not> cd_publish c"
  proof (rule ccontr)
    assume "changes (round_actions config env cs) (abs_path es) \<noteq> None"
    then obtain m where "(abs_path es, m) \<in> set ?kv" unfolding changes_def by (metis map_of_SomeD option.exhaust set_rev)
    from from_candidate[OF this] same that show False by blast
  qed
qed

lemma changes_from:
  assumes "env_laws env" and "candidates_ok cs" and "separate_dirs config"
    and "changes (take k (round_actions config env cs)) p = Some n"
  shows "\<exists>c es. c \<in> set cs \<and> cd_publish c \<and> p = abs_path es \<and> placed config c es n"
proof -
  from assms(4) obtain a where "a \<in> set (take k (round_actions config env cs))" "p = action_path a" "n = action_node a"
    unfolding changes_def by (auto dest!: map_of_SomeD)
  then obtain c where c: "c \<in> set cs" "a \<in> set (candidate_actions config env c)" "p = action_path a" "n = action_node a"
    by (auto dest!: in_set_takeD)
  from actions_placed[OF assms(1) candidates_okD[OF assms(2) c(1)] assms(3) c(2)] c show ?thesis by blast
qed

lemma cleanup_round_removes:
  assumes "env_laws env" and "candidates_ok cs" and "separate_dirs config" and "cleanup_round host config env cs fs = (e, fs')"
  shows "removes_only (owned config cs) fs fs'"
proof -
  obtain e1 fs1 where 1: "cleanup host (sc_StaticDir config) (sc_SecretDir config) (set (map cd_name cs)) (round_secrets cs) fs = (e1, fs1)" by fastforce
  note r1 = cleanup_removes[OF owned_spared[OF assms(2,3)] 1]
  let ?g = "re_generationOrder env (map (\<lambda>c. (cd_name c, cd_identityGeneration c)) cs)"
  obtain e2 fs2 where 2: "cleanupIdentityGenerations host (sc_SecretDir config) ?g fs1 = (e2, fs2)" by fastforce
  have "removes_only (owned config cs) fs1 fs2"
  proof (rule each_fold_removes[OF _ 2[unfolded cleanupIdentityGenerations_def]])
    fix x fs e fs' assume x: "x \<in> set ?g" "cleanup_generations host (sc_SecretDir config) x fs = (e, fs')"
    have "mset ?g = mset (map (\<lambda>c. (cd_name c, cd_identityGeneration c)) cs)" using assms(1) by (simp add: env_laws_def)
    from mset_eq_setD[OF this] x(1) obtain c where c: "c \<in> set cs" "x = (cd_name c, cd_identityGeneration c)" by auto
    show "removes_only (owned config cs) fs fs'"
      by (rule generations_removes[OF owned_generations[OF assms(2,3) c(1)] x(2)[unfolded c(2)]])
  qed
  with r1 have "removes_only (owned config cs) fs fs2" by (rule removes_only_trans)
  with r1 show ?thesis using assms(4) 1 2 by (cases e1) (auto simp: cleanup_round_def round_secrets_def)
qed

lemma commit_all_clears:
  assumes "commit_all host ss fs = (None, ss', fs')"
  shows "discard_all host ss' fs4 = fs4"
proof -
  have "\<forall>s \<in> set ss'. sg_temporary s = []"
    using assms
  proof (induction ss arbitrary: fs ss')
    case (Cons s ss)
    obtain e1 s1 fs1 where 1: "staged_commit host s fs = (e1, s1, fs1)" by (metis prod_cases3)
    with Cons.prems have "e1 = None" by (cases e1) auto
    with 1 have "sg_temporary s1 = []" by (auto simp: staged_commit_def split: prod.splits option.splits)
    with Cons 1 \<open>e1 = None\<close> show ?case by (auto split: prod.splits)
  qed simp
  then show ?thesis by (induction ss') (simp_all add: discard_all_def discard_def)
qed

text \<open>
  The file system after publication: unchanged, or changed by a prefix of the commits, or by
  all of them and by removal; the last two only after the round was confirmed.
\<close>

lemma publish_round_cases:
  assumes laws: "host_laws host" "env_laws env" "separate_dirs config" "candidates_ok (rd_candidates rd)"
    and "publish_round host config cl env indexETag rd r fs = (e, r', published, fs')"
  obtains (unconfirmed) x where "e = Some x" "r' = r\<lparr>rc_health := False\<rparr>" "published = None" "live fs' = live fs"
  | (commits) x k where "e = Some x" "r' = r\<lparr>rc_health := False\<rparr>" "published = None"
      "fst (confirm_round cl env indexETag (rd_store rd)) = None"
      "live fs' = overlay (take k (round_actions config env (rd_candidates rd))) (live fs)"
  | (cleaned) fs1 where "fst (confirm_round cl env indexETag (rd_store rd)) = None"
      "live fs1 = overlay (round_actions config env (rd_candidates rd)) (live fs)"
      "cleanup_round host config env (rd_candidates rd) fs1 = (e, fs')"
      "e = None \<Longrightarrow> r' = round_state env indexETag rd r \<and> published = Some (snapshot_Services (rd_services rd))"
      "e \<noteq> None \<Longrightarrow> r' = r\<lparr>rc_health := False\<rparr> \<and> published = None"
proof -
  let ?as = "round_actions config env (rd_candidates rd)"
  obtain e1 ss fs1 where 1: "stage_all host ?as fs = (e1, ss, fs1)" by (metis prod_cases3)
  have "\<forall>a \<in> set ?as. action_ok a" using action_ok_round[OF laws(4,3)] by blast
  from stage_all_files[OF laws(1) this round_links[OF laws(4,3)] 1]
  have live1: "live fs1 = live fs" and temps: "\<forall>s \<in> set ss. is_temporary (sg_temporary s)"
    and staged: "e1 = None \<Longrightarrow> distinct (map sg_temporary ss) \<and>
       list_all2 (\<lambda>a s. sg_path s = action_path a \<and> files fs1 (sg_temporary s) = Some (action_node a)) ?as ss" by blast+
  have discarded: "live (discard_all host ss fs1) = live fs" using discard_all_live[of ss host fs1] temps live1 by simp
  show thesis
  proof (cases e1)
    case (Some x)
    then show thesis using assms(5) 1 discarded unconfirmed[of x] by (auto simp: publish_round_def)
  next
    case None
    obtain e2 st' where 2: "confirm_round cl env indexETag (rd_store rd) = (e2, st')" by fastforce
    show thesis
    proof (cases e2)
      case (Some x)
      then show thesis using assms(5) 1 2 None discarded unconfirmed[of x] by (auto simp: publish_round_def publish_staged_def)
    next
      case confirmed: None
      obtain e3 ss' fs3 where 3: "commit_all host ss fs1 = (e3, ss', fs3)" by (metis prod_cases3)
      have ss: "list_all2 (staged_for fs1) ?as ss"
        using staged[OF None] temps by (auto simp: staged_for_def list_all2_conv_all_nth)
      have live_paths: "\<forall>a \<in> set ?as. \<not> is_temporary (action_path a)"
        using actions_placed[OF laws(2) candidates_okD[OF laws(4)] laws(3)] placed_live[OF _ candidates_okD[OF laws(4)] laws(3)] by fastforce
      from commit_all_files[OF ss _ live_paths 3] staged[OF None] obtain k where
        k: "e3 = None \<longrightarrow> k = length ?as" "live fs3 = overlay (take k ?as) (live fs)"
        and t: "\<forall>s \<in> set ss'. sg_temporary s \<noteq> [] \<longrightarrow> is_temporary (sg_temporary s)" using live1 by auto
      show thesis
      proof (cases e3)
        case (Some x)
        have "e = Some x" "r' = r\<lparr>rc_health := False\<rparr>" "published = None" "fs' = discard_all host ss' fs3"
          using assms(5) 1 2 3 None confirmed Some by (auto simp: publish_round_def publish_staged_def)
        then show thesis using commits[of x k] 2 confirmed k(2) discard_all_live[OF t] by simp
      next
        case committed: None
        obtain e4 fs4 where 4: "cleanup_round host config env (rd_candidates rd) fs3 = (e4, fs4)" by fastforce
        have keep: "discard_all host ss' fs4 = fs4" using commit_all_clears[OF 3[unfolded committed]] .
        have res: "(e, r', published, fs') = (case e4 of Some x \<Rightarrow> (Some x, r\<lparr>rc_health := False\<rparr>, None, fs4)
            | None \<Rightarrow> (None, round_state env indexETag rd r, Some (snapshot_Services (rd_services rd)), fs4))"
          using assms(5) 1 2 3 4 None confirmed committed keep by (auto simp: publish_round_def publish_staged_def split: option.splits)
        show thesis
          by (rule cleaned[of fs3]) (use 2 4 confirmed k committed res in \<open>auto split: option.splits\<close>)
      qed
    qed
  qed
qed

lemma read_index_valid: "read_index cl st = (Inr (index, indexETag), st1) \<Longrightarrow> valid_index index"
  by (auto simp: read_index_def valid_index_def dest: ParseIndex_valid split: prod.splits sum.splits if_splits)

lemma Reconcile_publishes_round:
  assumes "staticpod_Reconcile ops host config stores cl env r st fs = (e, r', published, fs')"
  obtains (failed) x where "e = Some x" "r' = r\<lparr>rc_health := False\<rparr>" "published = None" "fs' = fs"
  | (current) "e = None" "r' = r" "published = None" "fs' = fs"
  | (round) index indexETag st1 rd where "read_index cl st = (Inr (index, indexETag), st1)"
      "build_round ops config stores cl env r index st1 = Inr rd"
      "publish_round host config cl env indexETag rd r fs = (e, r', published, fs')"
proof -
  obtain got st1 where g: "read_index cl st = (got, st1)" by fastforce
  show thesis
  proof (cases got)
    case (Inl x)
    then show thesis using assms g failed[of x] by (auto simp: staticpod_Reconcile_def)
  next
    case (Inr y)
    obtain index indexETag where y: "y = (index, indexETag)" by (cases y)
    show thesis
    proof (cases "up_to_date env indexETag r")
      case True
      then show thesis using assms g Inr y current by (auto simp: staticpod_Reconcile_def)
    next
      case False
      then show thesis
        using assms g Inr y failed round by (cases "build_round ops config stores cl env r index st1") (auto simp: staticpod_Reconcile_def)
    qed
  qed
qed

section \<open>Properties of reconciliation\<close>

text \<open>
  C36: publication is atomic for every file, whichever call fails. A round that returns an error
  keeps the state of the last one except for the health flag, and publishes no Services. A
  file that a reader sees after the round, with or without an error, is the file of before;
  or, only after the round found the index and the CA unchanged, it holds the complete
  content that one of the candidates has for this place. A file that disappeared belongs to
  no candidate.
\<close>

theorem reconcile_atomic:
  assumes "host_laws host" and "env_laws env" and "separate_dirs config"
    and "staticpod_Reconcile ops host config stores cl env r st fs = (e, r', published, fs')"
  shows "(e \<noteq> None \<longrightarrow> r' = r\<lparr>rc_health := False\<rparr> \<and> published = None) \<and>
    (\<forall>p. live fs' p = live fs p \<or>
       (\<exists>index indexETag st1 rd. read_index cl st = (Inr (index, indexETag), st1) \<and>
          build_round ops config stores cl env r index st1 = Inr rd \<and>
          fst (confirm_round cl env indexETag (rd_store rd)) = None \<and>
          ((\<exists>c es n. c \<in> set (rd_candidates rd) \<and> cd_publish c \<and> p = abs_path es \<and> placed config c es n \<and> live fs' p = Some n) \<or>
           live fs' p = None \<and> p \<notin> owned config (rd_candidates rd))))"
  using assms(4)
proof (cases rule: Reconcile_publishes_round)
  case (round index indexETag st1 rd)
  note ok = build_round_candidates(1)[OF assms(2) read_index_valid[OF round(1)] round(2)]
  let ?cs = "rd_candidates rd"
  have from_commits: "live fs1 p = live fs p \<or>
      (\<exists>c es n. c \<in> set ?cs \<and> cd_publish c \<and> p = abs_path es \<and> placed config c es n \<and> live fs1 p = Some n)"
    if "live fs1 = overlay (take k (round_actions config env ?cs)) (live fs)" for fs1 k p
    using changes_from[OF assms(2) ok assms(3), of k p] that by (auto simp: overlay_def split: option.splits)
  from assms(1-3) ok round(3) show ?thesis
  proof (cases rule: publish_round_cases)
    case (commits x k)
    then show ?thesis using round(1,2) from_commits[OF commits(5)] by auto
  next
    case (cleaned fs1)
    have "live fs1 = overlay (take (length (round_actions config env ?cs)) (round_actions config env ?cs)) (live fs)" using cleaned(2) by simp
    note c1 = from_commits[OF this]
    note r = cleanup_round_removes[OF assms(2) ok assms(3) cleaned(3)]
    have "live fs' p = live fs p \<or> (\<exists>c es n. c \<in> set ?cs \<and> cd_publish c \<and> p = abs_path es \<and> placed config c es n \<and> live fs' p = Some n) \<or>
        live fs' p = None \<and> p \<notin> owned config ?cs" for p
      using c1[of p] removes_only_live[OF r, of p] by metis
    then show ?thesis using cleaned(1,5) round(1,2) by blast
  qed auto
qed auto

text \<open>
  C35: a round that publishes puts the desired state of the index in place. Every deployment of
  the node group has one candidate, built from the Pod object with the digest that the index
  names, and the published Services are the verified Services of the candidates. A changed
  candidate has its manifest, its identity, its secrets and the link to the identity's
  generation in place with the complete content; the files of an unchanged one are as they
  were. No manifest of another Pod is left in the static directory.
\<close>

theorem reconcile_publishes:
  assumes "host_laws host" and "env_laws env" and "separate_dirs config"
    and "staticpod_Reconcile ops host config stores cl env r st fs = (None, r', Some services, fs')"
  shows "\<exists>index indexETag st1 rd sss. read_index cl st = (Inr (index, indexETag), st1) \<and>
    r' = round_state env indexETag rd r \<and> services = concat sss \<and>
    list_all2 (candidate_for ops config stores env r) (selected_deployments config (re_order env index)) (rd_candidates rd) \<and>
    list_all2 (service_for ops) (rd_candidates rd) sss \<and>
    (\<forall>c \<in> set (rd_candidates rd). \<forall>es n. placed config c es n \<longrightarrow>
       live fs' (abs_path es) = (if cd_publish c then Some n else live fs (abs_path es))) \<and>
    (is_dir (fs_nodes fs') (filepath_Clean (sc_StaticDir config)) \<longrightarrow>
       (\<forall>pod. CHR ''/'' \<notin> set pod \<and> pod \<notin> cd_name ` set (rd_candidates rd) \<longrightarrow>
          live fs' (filepath_Join [sc_StaticDir config, pod @ ''.yaml'']) = None))"
  using assms(4)
proof (cases rule: Reconcile_publishes_round)
  case (round index indexETag st1 rd)
  note cands = build_round_candidates[OF assms(2) read_index_valid[OF round(1)] round(2)]
  let ?cs = "rd_candidates rd"
  from assms(1-3) cands(1) round(3) show ?thesis
  proof (cases rule: publish_round_cases)
    case (cleaned fs1)
    note r = cleanup_round_removes[OF assms(2) cands(1) assms(3) cleaned(3)]
    have placed_now: "live fs' (abs_path es) = (if cd_publish c then Some n else live fs (abs_path es))"
      if "c \<in> set ?cs" "placed config c es n" for c es n
    proof -
      have "abs_path es \<in> owned config ?cs" using that by (auto simp: owned_def)
      then have "live fs' (abs_path es) = live fs1 (abs_path es)" using removes_only_live[OF r] by blast
      then show ?thesis using changes_placed[OF assms(2) cands(1) assms(3) that] cleaned(2) by (simp add: overlay_def)
    qed
    have stale: "live fs' (filepath_Join [sc_StaticDir config, pod @ ''.yaml'']) = None"
      if d: "is_dir (fs_nodes fs') (filepath_Clean (sc_StaticDir config))" "CHR ''/'' \<notin> set pod" "pod \<notin> cd_name ` set ?cs" for pod
    proof -
      obtain fs2 where 1: "cleanup host (sc_StaticDir config) (sc_SecretDir config) (set (map cd_name ?cs)) (round_secrets ?cs) fs1 = (None, fs2)"
        and 2: "cleanupIdentityGenerations host (sc_SecretDir config) (re_generationOrder env (map (\<lambda>c. (cd_name c, cd_identityGeneration c)) ?cs)) fs2 = (None, fs')"
        using cleaned(3) by (auto simp: cleanup_round_def round_secrets_def split: prod.splits option.splits)
      have later: "removes_only {} fs2 fs'"
        by (rule each_fold_removes[OF _ 2[unfolded cleanupIdentityGenerations_def]])
          (auto intro!: generations_removes simp: apart_def)
      have "files fs2 (filepath_Join [sc_StaticDir config, pod @ ''.yaml'']) = None"
        using cleanup_stale[OF assms(1) 1, of pod] assms(3) d yaml_file_name[OF d(2)] later by (auto simp: separate_dirs_def removes_only_def)
      then show ?thesis using later unfolding removes_only_def live_def by metis
    qed
    obtain sss where "list_all2 (service_for ops) ?cs sss" "rd_services rd = concat sss" using cands(3) by blast
    moreover have "r' = round_state env indexETag rd r" "services = rd_services rd" using cleaned(4) by (simp_all add: snapshot_Services_def)
    ultimately show ?thesis using round(1) cands(2) placed_now stale by (intro exI[of _ index] exI[of _ indexETag] exI[of _ st1] exI[of _ rd] exI[of _ sss]) auto
  qed auto
qed auto

section \<open>A round on a host without faults\<close>

definition example_host :: host where
  "example_host = \<lparr>h_fault = (\<lambda>n. None), h_temp = (\<lambda>n. ''7''), h_now = (\<lambda>n. int n)\<rparr>"

definition example_env :: round_env where
  "example_env = \<lparr>re_authorityRevision = 1, re_checkRevision = 1, re_confirmRevision = 1, re_checkNow = (\<lambda>name. 0), re_now = (\<lambda>name. 0),
     re_Issue = (\<lambda>namespace pod service now. Inl (errors_New ''workload CA state is not ready'')), re_order = (\<lambda>x. x), re_fileOrder = (\<lambda>x. x),
     re_providerOrder = (\<lambda>x. x), re_generationOrder = (\<lambda>x. x)\<rparr>"

definition example_stores :: secret_readers where
  "example_stores = \<lparr>sr_params = (\<lambda>name. Inl (errors_New ''not found'')), sr_secrets = (\<lambda>name. Inl (errors_New ''not found''))\<rparr>"

definition example_reconciler :: Reconciler where
  "example_reconciler = \<lparr>rc_indexETag = [], rc_health = False, rc_services = [], rc_identities = [], rc_identityMaterial = [],
     rc_deployments = [], rc_identityRevision = 0\<rparr>"

definition example_files :: filesystem where
  "example_files = \<lparr>fs_nodes = [(''/etc/manifests'', FDir 448 0), (''/etc/manifests/old.yaml'', FFile ''old'' 384),
     (''/etc/manifests/notes'', FFile ''notes'' 384), (''/run/workloads'', FDir 493 0), (''/run/workloads/old'', FDir 493 0),
     (''/run/workloads/old/identity'', FLink ''identity-generations/1'')], fs_calls = 0\<rparr>"

lemma example_laws: "host_laws example_host" "env_laws example_env" "separate_dirs example_config"
proof -
  show "host_laws example_host" by (simp add: host_laws_def example_host_def)
  show "env_laws example_env" by (simp add: env_laws_def example_env_def)
  have "clean_elements ''/etc/manifests'' = [''etc'', ''manifests'']" "clean_elements ''/run/workloads'' = [''run'', ''workloads'']" by code_simp+
  then show "separate_dirs example_config" by (simp add: separate_dirs_def example_config_def path_within_def rooted_def)
qed

lemma example_read: "read_index quiet_store empty_store = (Inr ([], []), \<lparr>st_objects = (\<lambda>key. []), st_calls = 1\<rparr>)"
  by (simp add: read_index_def cloud_Get_def quiet_store_def empty_store_def storage_Get_def cloud_ErrNotFound_def Let_def)

lemma example_cleanup:
  "cleanup_round example_host example_config example_env [] example_files = (None, \<lparr>fs_nodes = [(''/etc/manifests'', FDir 448 1),
     (''/etc/manifests/notes'', FFile ''notes'' 384), (''/run/workloads'', FDir 493 3)], fs_calls = 10\<rparr>)"
  by code_simp

lemma example_Reconcile:
  obtains r' fs' where "staticpod_Reconcile example_service_ops example_host example_config example_stores quiet_store example_env
      example_reconciler empty_store example_files = (None, r', Some [], fs')"
    "live fs' ''/etc/manifests/old.yaml'' = None" "live fs' ''/etc/manifests/notes'' = Some (FFile ''notes'' 384)"
    "is_dir (fs_nodes fs') (filepath_Clean (sc_StaticDir example_config))" "rc_health r'"
proof -
  let ?rd = "\<lparr>rd_candidates = [], rd_services = [], rd_names = {}, rd_serviceNames = {}, rd_store = \<lparr>st_objects = (\<lambda>key. []), st_calls = 1\<rparr>\<rparr>"
  have b: "build_round example_service_ops example_config example_stores quiet_store example_env example_reconciler [] (rd_store ?rd) = Inr ?rd"
    by (simp add: build_round_def selected_deployments_def example_env_def)
  have u: "\<not> up_to_date example_env [] example_reconciler" by (simp add: up_to_date_def example_reconciler_def)
  obtain st' where c: "confirm_round quiet_store example_env [] (rd_store ?rd) = (None, st')"
    by (simp add: confirm_round_def cloud_Get_def quiet_store_def storage_Get_def cloud_ErrNotFound_def example_env_def Let_def)
  let ?fs = "\<lparr>fs_nodes = [(''/etc/manifests'', FDir 448 1), (''/etc/manifests/notes'', FFile ''notes'' 384), (''/run/workloads'', FDir 493 3)], fs_calls = 10\<rparr>"
  have "publish_round example_host example_config quiet_store example_env [] ?rd example_reconciler example_files =
      (None, round_state example_env [] ?rd example_reconciler, Some [], ?fs)"
    using c example_cleanup by (simp add: publish_round_def publish_staged_def discard_all_def snapshot_Services_def)
  then have "staticpod_Reconcile example_service_ops example_host example_config example_stores quiet_store example_env
      example_reconciler empty_store example_files = (None, round_state example_env [] ?rd example_reconciler, Some [], ?fs)"
    using example_read b u by (simp add: staticpod_Reconcile_def)
  moreover have "live ?fs ''/etc/manifests/old.yaml'' = None" "live ?fs ''/etc/manifests/notes'' = Some (FFile ''notes'' 384)"
    "is_dir (fs_nodes ?fs) (filepath_Clean (sc_StaticDir example_config))" by code_simp+
  moreover have "rc_health (round_state example_env [] ?rd example_reconciler)" by (simp add: round_state_def)
  ultimately show thesis using that by blast
qed

theorem reconcile_atomic_witness:
  "\<exists>r' fs' rd. staticpod_Reconcile example_service_ops example_host example_config example_stores quiet_store example_env
      example_reconciler empty_store example_files = (None, r', Some [], fs') \<and> live fs' ''/etc/manifests/old.yaml'' = None \<and>
    build_round example_service_ops example_config example_stores quiet_store example_env example_reconciler []
      \<lparr>st_objects = (\<lambda>key. []), st_calls = 1\<rparr> = Inr rd \<and> ''/etc/manifests/old.yaml'' \<notin> owned example_config (rd_candidates rd)"
proof -
  obtain r' fs' where r: "staticpod_Reconcile example_service_ops example_host example_config example_stores quiet_store example_env
      example_reconciler empty_store example_files = (None, r', Some [], fs')" and gone: "live fs' ''/etc/manifests/old.yaml'' = None"
    by (rule example_Reconcile)
  have before: "live example_files ''/etc/manifests/old.yaml'' = Some (FFile ''old'' 384)" by code_simp
  show ?thesis
    using reconcile_atomic[OF example_laws r, THEN conjunct2, THEN spec, of "''/etc/manifests/old.yaml''"] r gone before example_read by auto
qed

theorem reconcile_publishes_witness:
  "\<exists>r' fs'. staticpod_Reconcile example_service_ops example_host example_config example_stores quiet_store example_env
      example_reconciler empty_store example_files = (None, r', Some [], fs') \<and> rc_health r' \<and>
    (\<exists>cs. list_all2 (candidate_for example_service_ops example_config example_stores example_env example_reconciler) [] cs) \<and>
    live fs' ''/etc/manifests/old.yaml'' = None \<and> live fs' ''/etc/manifests/notes'' = Some (FFile ''notes'' 384)"
proof -
  obtain r' fs' where r: "staticpod_Reconcile example_service_ops example_host example_config example_stores quiet_store example_env
      example_reconciler empty_store example_files = (None, r', Some [], fs')"
    and kept: "live fs' ''/etc/manifests/notes'' = Some (FFile ''notes'' 384)"
    and d: "is_dir (fs_nodes fs') (filepath_Clean (sc_StaticDir example_config))" and h: "rc_health r'"
    by (rule example_Reconcile)
  have p: "filepath_Join [sc_StaticDir example_config, ''old'' @ ''.yaml''] = ''/etc/manifests/old.yaml''" by code_simp
  have s: "selected_deployments example_config (re_order example_env []) = []" by (simp add: selected_deployments_def example_env_def)
  from reconcile_publishes[OF example_laws r] example_read s d have
    "(\<exists>cs. list_all2 (candidate_for example_service_ops example_config example_stores example_env example_reconciler) [] cs) \<and>
     live fs' (filepath_Join [sc_StaticDir example_config, ''old'' @ ''.yaml'']) = None"
    by (fastforce simp del: append.simps)
  then show ?thesis using r h kept p by auto
qed

end
