(* ===== verification/Staticpod_Run.thy ===== *)
theory Staticpod_Run
  imports Staticpod_Publish
begin

text \<open>
  The polling loop, \<open>src/internal/agent/staticpod/runtime.go\<close>. The inputs of an iteration are
  what the authority, the clock, the store and the random generator return in it; the loop
  ends when the context is done. A timeout of an attempt is a failure of its calls.
\<close>

section \<open>The loop\<close>

definition convergenceRetryInterval :: int where
  "convergenceRetryInterval = 100000000"

definition run_interval :: "staticpod_Config \<Rightarrow> int" where
  "run_interval config = (if sc_PollInterval config \<le> 0 then 5 * time_Second else sc_PollInterval config)"

definition run_timeout :: "staticpod_Config \<Rightarrow> int" where
  "run_timeout config = (if sc_ReconcileTimeout config \<le> 0 then 30 * time_Second else sc_ReconcileTimeout config)"

text \<open>\<open>random n\<close> is the value of \<open>rand.Int64N(n)\<close>.\<close>

definition jitter :: "(int \<Rightarrow> int) \<Rightarrow> int \<Rightarrow> int" where
  "jitter random delay =
     (let variation = delay div 10
      in if variation = 0 then delay else delay - variation + random (variation * 2 + 1))"

definition run_delay :: "int \<Rightarrow> bool \<Rightarrow> error option \<Rightarrow> bool \<Rightarrow> int \<Rightarrow> int \<times> int" where
  "run_delay interval ready err cancelled failureDelay =
     (if \<not> ready then (convergenceRetryInterval, failureDelay)
      else case err of
             Some e \<Rightarrow>
               if errors_Is e errDesiredStateChanged then (convergenceRetryInterval, failureDelay)
               else if \<not> cancelled
               then let failureDelay' = (if failureDelay < time_Minute div 2 then failureDelay * 2 else time_Minute)
                    in (failureDelay', failureDelay')
               else (interval, interval)
           | None \<Rightarrow> (interval, interval))"

record run_input =
  ri_revision :: "64 word"
  ri_env :: round_env
  ri_objects :: store_state
  ri_cancelled :: bool
  ri_random :: "int \<Rightarrow> int"
  ri_done :: bool

record run_state =
  rs_reconciler :: Reconciler
  rs_files :: filesystem
  rs_failureDelay :: int

definition run_iteration ::
  "('x) service_ops_scheme \<Rightarrow> host \<Rightarrow> staticpod_Config \<Rightarrow> secret_readers \<Rightarrow> cloud_store \<Rightarrow> run_input \<Rightarrow> run_state
     \<Rightarrow> int \<times> manifest_Service list option \<times> run_state" where
  "run_iteration ops host config stores cl i s =
     (let ready = (ri_revision i \<noteq> 0);
          (err, r', published, fs') =
            (if ready then staticpod_Reconcile ops host config stores cl (ri_env i) (rs_reconciler s) (ri_objects i) (rs_files s)
             else (None, rs_reconciler s, None, rs_files s));
          (delay, failureDelay') = run_delay (run_interval config) ready err (ri_cancelled i) (rs_failureDelay s)
      in (jitter (ri_random i) delay, published,
          \<lparr>rs_reconciler = r', rs_files = fs', rs_failureDelay = failureDelay'\<rparr>))"

text \<open>The waits of the loop and the Services it published, up to the last iteration.\<close>

fun run_loop ::
  "('x) service_ops_scheme \<Rightarrow> host \<Rightarrow> staticpod_Config \<Rightarrow> secret_readers \<Rightarrow> cloud_store \<Rightarrow> run_input list \<Rightarrow> run_state
     \<Rightarrow> (int \<times> manifest_Service list option) list \<times> run_state" where
  "run_loop ops host config stores cl [] s = ([], s)"
| "run_loop ops host config stores cl (i # is) s =
     (let (delay, published, s') = run_iteration ops host config stores cl i s
      in if ri_done i then ([(delay, published)], s')
         else let (waits, s'') = run_loop ops host config stores cl is s' in ((delay, published) # waits, s''))"

definition staticpod_Run ::
  "('x) service_ops_scheme \<Rightarrow> host \<Rightarrow> staticpod_Config \<Rightarrow> secret_readers \<Rightarrow> cloud_store \<Rightarrow> run_input list
     \<Rightarrow> Reconciler \<Rightarrow> filesystem \<Rightarrow> (int \<times> manifest_Service list option) list \<times> run_state" where
  "staticpod_Run ops host config stores cl is r fs =
     run_loop ops host config stores cl is \<lparr>rs_reconciler = r, rs_files = fs, rs_failureDelay = run_interval config\<rparr>"

section \<open>Waits\<close>

lemma run_interval_positive: "0 < run_interval config"
  by (simp add: run_interval_def time_Second_def)

lemma jitter_bounds:
  assumes "0 \<le> delay" and "\<And>n. 0 < n \<Longrightarrow> 0 \<le> random n \<and> random n < n"
  shows "delay - delay div 10 \<le> jitter random delay" "jitter random delay \<le> delay + delay div 10"
  using assms(1) assms(2)[of "delay div 10 * 2 + 1"] by (auto simp: jitter_def Let_def pos_imp_zdiv_nonneg_iff)

definition failure_ok :: "int \<Rightarrow> int \<Rightarrow> bool" where
  "failure_ok interval d \<longleftrightarrow> min interval time_Minute \<le> d \<and> d \<le> max interval time_Minute"

lemma run_delay_bounds:
  assumes "0 < interval" and "failure_ok interval d" and "run_delay interval ready err cancelled d = (delay, d')"
  shows "failure_ok interval d'" "delay = convergenceRetryInterval \<or> failure_ok interval delay"
  using assms by (auto simp: run_delay_def failure_ok_def Let_def time_Minute_def time_Second_def split: option.splits if_splits)

section \<open>The loop as a whole\<close>

lemma publish_round_services:
  assumes "publish_round host config cl env indexETag rd r fs = (e, r', published, fs')"
  shows "rc_services r' = (case published of Some services \<Rightarrow> services | None \<Rightarrow> rc_services r)"
  using assms by (auto simp: publish_round_def round_state_def Let_def split: prod.splits option.splits)

lemma Reconcile_services:
  assumes "staticpod_Reconcile ops host config stores cl env r st fs = (e, r', published, fs')"
  shows "rc_services r' = (case published of Some services \<Rightarrow> services | None \<Rightarrow> rc_services r)"
  using assms by (cases rule: Reconcile_publishes_round) (auto dest: publish_round_services)

lemma run_iteration_step:
  assumes "run_iteration ops host config stores cl i s = (wait, published, s')"
    and "failure_ok (run_interval config) (rs_failureDelay s)" and "\<And>n. 0 < n \<Longrightarrow> 0 \<le> ri_random i n \<and> ri_random i n < n"
  shows "rc_services (rs_reconciler s') = (case published of Some services \<Rightarrow> services | None \<Rightarrow> rc_services (rs_reconciler s))"
    "failure_ok (run_interval config) (rs_failureDelay s')"
    "\<exists>delay. (delay = convergenceRetryInterval \<or> failure_ok (run_interval config) delay) \<and>
       delay - delay div 10 \<le> wait \<and> wait \<le> delay + delay div 10"
proof -
  let ?r = "if ri_revision i \<noteq> 0 then staticpod_Reconcile ops host config stores cl (ri_env i) (rs_reconciler s) (ri_objects i) (rs_files s)
    else (None, rs_reconciler s, None, rs_files s)"
  obtain err r' pub fs' where r: "?r = (err, r', pub, fs')" by (metis prod_cases4)
  obtain delay d' where d: "run_delay (run_interval config) (ri_revision i \<noteq> 0) err (ri_cancelled i) (rs_failureDelay s) = (delay, d')" by fastforce
  have res: "wait = jitter (ri_random i) delay" "published = pub" "s' = \<lparr>rs_reconciler = r', rs_files = fs', rs_failureDelay = d'\<rparr>"
    using assms(1) r d by (simp_all add: run_iteration_def Let_def)
  note b = run_delay_bounds[OF run_interval_positive assms(2) d]
  have pos: "0 \<le> delay" using b(2) run_interval_positive[of config]
    by (auto simp: failure_ok_def convergenceRetryInterval_def time_Minute_def time_Second_def)
  show "rc_services (rs_reconciler s') = (case published of Some services \<Rightarrow> services | None \<Rightarrow> rc_services (rs_reconciler s))"
    using r res Reconcile_services by (auto split: if_splits)
  show "failure_ok (run_interval config) (rs_failureDelay s')" using b(1) res(3) by simp
  show "\<exists>delay. (delay = convergenceRetryInterval \<or> failure_ok (run_interval config) delay) \<and>
       delay - delay div 10 \<le> wait \<and> wait \<le> delay + delay div 10"
    using b(2) jitter_bounds[OF pos, of "ri_random i"] assms(3) res(1) by blast
qed

definition last_published :: "manifest_Service list \<Rightarrow> (int \<times> manifest_Service list option) list \<Rightarrow> manifest_Service list" where
  "last_published before waits =
     fold (\<lambda>(_, published) current. case published of Some services \<Rightarrow> services | None \<Rightarrow> current) waits before"

definition wait_ok :: "int \<Rightarrow> int \<Rightarrow> bool" where
  "wait_ok interval wait \<longleftrightarrow>
     min convergenceRetryInterval interval * 9 \<le> wait * 10 \<and> wait * 10 \<le> max interval time_Minute * 11"

lemma run_loop_steps:
  assumes "run_loop ops host config stores cl is s = (waits, s')"
    and "failure_ok (run_interval config) (rs_failureDelay s)"
    and "\<forall>i \<in> set is. \<forall>n. 0 < n \<longrightarrow> 0 \<le> ri_random i n \<and> ri_random i n < n"
  shows "rc_services (rs_reconciler s') = last_published (rc_services (rs_reconciler s)) waits \<and>
    (\<forall>(wait, published) \<in> set waits. wait_ok (run_interval config) wait)"
  using assms
proof (induction "is" arbitrary: s waits)
  case (Cons i "is")
  obtain wait published s1 where i: "run_iteration ops host config stores cl i s = (wait, published, s1)" by (metis prod_cases3)
  have rnd: "\<And>n. 0 < n \<Longrightarrow> 0 \<le> ri_random i n \<and> ri_random i n < n" using Cons.prems(3) by simp
  note step = run_iteration_step[OF i Cons.prems(2) rnd]
  have w: "wait_ok (run_interval config) wait"
    using step(3) run_interval_positive[of config]
    by (auto simp: wait_ok_def failure_ok_def convergenceRetryInterval_def time_Minute_def time_Second_def)
  show ?case
  proof (cases "ri_done i")
    case True
    then have "waits = [(wait, published)]" "s' = s1" using Cons.prems(1) i by simp_all
    with step(1) w show ?thesis by (simp add: last_published_def)
  next
    case False
    obtain waits' where r: "run_loop ops host config stores cl is s1 = (waits', s')" "waits = (wait, published) # waits'"
      using Cons.prems(1) i False by (auto split: prod.splits)
    from Cons.IH[OF r(1) step(2)] Cons.prems(3) step(1) w r(2) show ?thesis by (simp add: last_published_def)
  qed
qed (simp add: last_published_def)

text \<open>
  C38: the polling loop keeps going and keeps what it published. Whatever the rounds return,
  every wait lies between nine tenths of the retry interval (or of a shorter poll interval)
  and eleven tenths of a minute (or of a longer poll interval), so a failing agent retries at
  a bounded rate and never stops; and the Services that the reconciler reports are the ones
  it handed over last.
\<close>

theorem run_waits_and_services:
  assumes "staticpod_Run ops host config stores cl is r fs = (waits, s')"
    and "\<forall>i \<in> set is. \<forall>n. 0 < n \<longrightarrow> 0 \<le> ri_random i n \<and> ri_random i n < n"
  shows "(\<forall>(wait, published) \<in> set waits. wait_ok (run_interval config) wait) \<and>
    reconciler_Services (rs_reconciler s') = last_published (reconciler_Services r) waits \<and>
    length waits = (if \<exists>i \<in> set is. ri_done i then Suc (length (takeWhile (\<lambda>i. \<not> ri_done i) is)) else length is)"
proof -
  have f: "failure_ok (run_interval config) (run_interval config)" by (simp add: failure_ok_def)
  have "length waits = (if \<exists>i \<in> set is. ri_done i then Suc (length (takeWhile (\<lambda>i. \<not> ri_done i) is)) else length is)"
    if "run_loop ops host config stores cl is s = (waits, s')" for s
    using that
  proof (induction "is" arbitrary: s waits)
    case (Cons i "is")
    obtain wait published s1 where i: "run_iteration ops host config stores cl i s = (wait, published, s1)" by (metis prod_cases3)
    obtain waits1 s2 where l: "run_loop ops host config stores cl is s1 = (waits1, s2)" by fastforce
    show ?case
    proof (cases "ri_done i")
      case False
      then have "run_loop ops host config stores cl is s1 = (waits1, s')" "waits = (wait, published) # waits1" using Cons.prems i l by auto
      with Cons.IH False show ?thesis by auto
    qed (use Cons.prems i in auto)
  qed simp
  with run_loop_steps[OF assms(1)[unfolded staticpod_Run_def] _ assms(2)] f assms(1)[unfolded staticpod_Run_def]
  show ?thesis by (auto simp: reconciler_Services_def snapshot_Services_def)
qed

definition example_input :: "bool \<Rightarrow> run_input" where
  "example_input last_one = \<lparr>ri_revision = 1, ri_env = example_env, ri_objects = empty_store, ri_cancelled = False, ri_random = (\<lambda>n. n - 1), ri_done = last_one\<rparr>"

theorem run_waits_and_services_witness:
  "\<exists>waits s'. staticpod_Run example_service_ops example_host example_config example_stores quiet_store [example_input False, example_input True]
      example_reconciler example_files = (waits, s') \<and> length waits = 2 \<and> (\<forall>(wait, published) \<in> set waits. wait_ok (5 * time_Second) wait)"
proof -
  obtain waits s' where r: "staticpod_Run example_service_ops example_host example_config example_stores quiet_store [example_input False, example_input True]
      example_reconciler example_files = (waits, s')" by fastforce
  have "run_interval example_config = 5 * time_Second" by (simp add: run_interval_def example_config_def)
  with run_waits_and_services[OF r] r show ?thesis by (auto simp: example_input_def)
qed

end
