(* ===== verification/Staticpod_Identity.thy ===== *)
theory Staticpod_Identity
  imports Staticpod_Run
begin

text \<open>
  The identities that a node keeps: the reconciler and the workload CA together. The locale is
  the interface \<open>IdentityAuthority\<close> of \<open>src/internal/agent/staticpod/reconciler.go\<close> with what
  the reconciler needs of it, and it is interpreted on \<open>Issue\<close> of the CA model.
\<close>

section \<open>The interface\<close>

text \<open>\<open>issues namespace pod service now m\<close>: at \<open>now\<close> the authority may return \<open>m\<close>.\<close>

locale identity_authority =
  fixes issues :: "string \<Rightarrow> string \<Rightarrow> string \<Rightarrow> int \<Rightarrow> Material \<Rightarrow> bool"
    and named :: "string \<Rightarrow> Material \<Rightarrow> bool"
  assumes issues_named: "issues namespace pod service now m \<Longrightarrow> named pod m"
    and issues_valid: "issues namespace pod service now m \<Longrightarrow> now < m_NotAfter m"
begin

text \<open>Every kept identity names its Pod and is kept with its expiry.\<close>

lemma material_named:
  assumes "identity_material env r bu d = Inr m"
    and "\<And>namespace pod service now m. re_Issue env namespace pod service now = Inr m \<Longrightarrow> issues namespace pod service now m"
    and "\<forall>(pod, m) \<in> set (rc_identityMaterial r). named pod m"
    and "rc_identities r = map (\<lambda>(pod, m). (pod, m_NotAfter m)) (rc_identityMaterial r)"
  shows "named (bu_name bu) m" "re_now env (bu_name bu) < m_NotAfter m"
proof -
  have "named (bu_name bu) m \<and> re_now env (bu_name bu) < m_NotAfter m"
  proof (cases "map_of (rc_identityMaterial r) (bu_name bu)")
    case None
    then show ?thesis using assms(1) issues_named issues_valid assms(2) by (simp add: identity_material_def) blast
  next
    case (Some old)
    show ?thesis
    proof (cases "must_publish env r (bu_name bu) d")
      case True
      then show ?thesis using Some assms(1) issues_named issues_valid assms(2) by (simp add: identity_material_def) blast
    next
      case False
      then have m: "m = old" and n: "\<not> NeedsRenewal (lookup_or time_Zero (rc_identities r) (bu_name bu)) (re_now env (bu_name bu))"
        using Some assms(1) by (auto simp: identity_material_def must_publish_def)
      have "map_of (rc_identities r) (bu_name bu) = Some (m_NotAfter old)"
        unfolding assms(4) using Some map_of_map[of m_NotAfter "rc_identityMaterial r"] by simp
      then have "re_now env (bu_name bu) < m_NotAfter m" using n m by (simp add: lookup_or_def NeedsRenewal_def time_Hour_def time_Minute_def time_Second_def)
      moreover have "named (bu_name bu) m" using assms(3) map_of_SomeD[OF Some] m by blast
      ultimately show ?thesis by simp
    qed
  qed
  then show "named (bu_name bu) m" "re_now env (bu_name bu) < m_NotAfter m" by blast+
qed

lemma Reconcile_named:
  assumes "staticpod_Reconcile ops host config stores cl env r st fs = (e, r', published, fs')"
    and "\<And>namespace pod service now m. re_Issue env namespace pod service now = Inr m \<Longrightarrow> issues namespace pod service now m"
    and "\<forall>(pod, m) \<in> set (rc_identityMaterial r). named pod m"
    and "rc_identities r = map (\<lambda>(pod, m). (pod, m_NotAfter m)) (rc_identityMaterial r)"
    and "distinct (map fst (rc_identityMaterial r))"
  shows "(\<forall>(pod, m) \<in> set (rc_identityMaterial r'). named pod m) \<and>
    rc_identities r' = map (\<lambda>(pod, m). (pod, m_NotAfter m)) (rc_identityMaterial r') \<and> distinct (map fst (rc_identityMaterial r')) \<and>
    (published \<noteq> None \<longrightarrow> (\<forall>(pod, m) \<in> set (rc_identityMaterial r'). re_now env pod < m_NotAfter m))"
  using assms(1)
proof (cases rule: Reconcile_publishes_round)
  case (round index indexETag st1 rd)
  from build_candidates[OF round(2)[unfolded build_round_def]] have
    all: "list_all2 (candidate_for ops config stores env r) (selected_deployments config (re_order env index)) (rd_candidates rd)"
    and d: "distinct (map cd_name (rd_candidates rd))" by auto
  have c: "named (cd_name c) (cd_identity c) \<and> re_now env (cd_name c) < m_NotAfter (cd_identity c)" if "c \<in> set (rd_candidates rd)" for c
  proof -
    from that all obtain x where "candidate_for ops config stores env r x c" by (metis list_all2_conv_all_nth in_set_conv_nth)
    then obtain bu dep where "bu_name bu = cd_name c" "identity_material env r bu dep = Inr (cd_identity c)"
      by (auto simp: candidate_for_def)
    with material_named[OF _ assms(2-4)] show ?thesis by metis
  qed
  have "r' = r\<lparr>rc_health := False\<rparr> \<and> published = None \<or> r' = round_state env indexETag rd r"
    using round(3) by (auto simp: publish_round_def Let_def split: prod.splits option.splits)
  then show ?thesis using assms(3-5) c d by (auto simp: round_state_def comp_def)
qed (use assms(3-5) in auto)

lemma run_loop_named:
  assumes "run_loop ops host config stores cl is s = (waits, s')"
    and "\<forall>i \<in> set is. \<forall>namespace pod service now m. re_Issue (ri_env i) namespace pod service now = Inr m \<longrightarrow> issues namespace pod service now m"
    and "\<forall>(pod, m) \<in> set (rc_identityMaterial (rs_reconciler s)). named pod m"
    and "rc_identities (rs_reconciler s) = map (\<lambda>(pod, m). (pod, m_NotAfter m)) (rc_identityMaterial (rs_reconciler s))"
    and "distinct (map fst (rc_identityMaterial (rs_reconciler s)))"
  shows "(\<forall>(pod, m) \<in> set (rc_identityMaterial (rs_reconciler s')). named pod m) \<and>
    rc_identities (rs_reconciler s') = map (\<lambda>(pod, m). (pod, m_NotAfter m)) (rc_identityMaterial (rs_reconciler s')) \<and>
    distinct (map fst (rc_identityMaterial (rs_reconciler s')))"
  using assms
proof (induction "is" arbitrary: s waits)
  case (Cons i "is")
  let ?r = "if ri_revision i \<noteq> 0 then staticpod_Reconcile ops host config stores cl (ri_env i) (rs_reconciler s) (ri_objects i) (rs_files s)
    else (None, rs_reconciler s, None, rs_files s)"
  obtain err r1 pub fs1 where r: "?r = (err, r1, pub, fs1)" by (metis prod_cases4)
  have kept: "(\<forall>(pod, m) \<in> set (rc_identityMaterial r1). named pod m) \<and>
    rc_identities r1 = map (\<lambda>(pod, m). (pod, m_NotAfter m)) (rc_identityMaterial r1) \<and> distinct (map fst (rc_identityMaterial r1))"
  proof (cases "ri_revision i = 0")
    case False
    then have "staticpod_Reconcile ops host config stores cl (ri_env i) (rs_reconciler s) (ri_objects i) (rs_files s) = (err, r1, pub, fs1)"
      using r by simp
    from Reconcile_named[OF this _ Cons.prems(3-5)] Cons.prems(2) show ?thesis by auto
  qed (use r Cons.prems(3-5) in auto)
  obtain wait published s1 where i: "run_iteration ops host config stores cl i s = (wait, published, s1)" by (metis prod_cases3)
  then have s1: "rs_reconciler s1 = r1" using r by (auto simp: run_iteration_def Let_def split: prod.splits)
  show ?case
  proof (cases "ri_done i")
    case True
    then show ?thesis using Cons.prems(1) i s1 kept by auto
  next
    case False
    then obtain waits' where "run_loop ops host config stores cl is s1 = (waits', s')" using Cons.prems(1) i by (auto split: prod.splits)
    from Cons.IH[OF this] kept s1 Cons.prems(2) show ?thesis by simp
  qed
qed simp

end

section \<open>The workload CA as the authority\<close>

definition ca_issues :: "string \<Rightarrow> string \<Rightarrow> string \<Rightarrow> string \<Rightarrow> int \<Rightarrow> Material \<Rightarrow> bool" where
  "ca_issues cluster namespace pod service now m \<longleftrightarrow>
     (\<exists>ops a keys bytes. a_cluster a = cluster \<and> Issue ops a keys bytes namespace pod service now = Inr m)"

definition pod_named :: "string \<Rightarrow> string \<Rightarrow> Material \<Rightarrow> bool" where
  "pod_named cluster pod m \<longleftrightarrow> (\<exists>namespace. ValidNamespace namespace \<and> ValidID pod \<and> m_SPIFFEID m = pod_spiffe cluster namespace pod)"

interpretation workload_ca: identity_authority "ca_issues cluster" "pod_named cluster" for cluster
proof unfold_locales
  fix namespace pod service now m assume "ca_issues cluster namespace pod service now m"
  then obtain ops a keys bytes where a: "a_cluster a = cluster" "Issue ops a keys bytes namespace pod service now = Inr m"
    by (auto simp: ca_issues_def)
  show "pod_named cluster pod m" by (rule Issue_Inr[OF a(2)]) (use a(1) in \<open>auto simp: pod_named_def\<close>)
  from a(2) show "now < m_NotAfter m" by (rule Issue_Inr)
qed

lemma pod_named_unique: "pod_named cluster pod m \<Longrightarrow> pod_named cluster pod' m' \<Longrightarrow> m_SPIFFEID m = m_SPIFFEID m' \<Longrightarrow> pod = pod'"
  unfolding pod_named_def using pod_spiffe_inject by metis

end
