(* ===== verification/Spec2Isabelle.thy ===== *)
theory Spec2Isabelle
  imports Coordinator_Storage Deploy Staticpod_Identity
begin

text \<open>
  Podmin runs Pods on the nodes of a cluster without a Kubernetes control plane. This library
  is a shallow embedding of its own logic (the Go packages under \<open>src/internal\<close>) with the
  theorems that make it correct.

  \<^bold>\<open>The program and its parts.\<close>
  The command line publishes a deployment: the manifest is checked and put into canonical form
  (\<open>manifest\<close>, \<open>registry\<close>), its payloads are written to object storage under the digest of
  their content, and one index object is replaced under a conditional write (\<open>cli/deploy\<close>).
  On every node the static Pod reconciler (\<open>agent/staticpod\<close>) polls the index, builds the Pods
  of its node group with their parameters and secrets (\<open>secrets\<close>) and with a workload identity
  of the cluster CA (\<open>agent/workload\<close>), and places the manifests and the identity files where
  the kubelet reads them. The desired Services that it read go to the service controller
  (\<open>agent/service\<close>), which also receives the running Pods from the watcher of the kubelet
  (\<open>agent/pods\<close>). Each node reports its Services and endpoints over a stream (\<open>agent/api\<close>) to
  the coordinator that holds the leadership (\<open>agent/coordinator\<close>). The leader merges the
  reports into one snapshot, stores it under a conditional write, and sends it to every node,
  whose controller applies it to DNS and to the service dataplane (\<open>agent/dataplane\<close>).

  \<^bold>\<open>Theories.\<close> The standard library, as far as the code uses it:
  \<^item> \<open>Go_Prelude\<close>: byte strings, decimal and hexadecimal numbers, errors with \<open>%w\<close> and
    \<open>errors.Is\<close>, sorting, and generic lemmas on lists, maps and words;
    \<open>Go_Path\<close>: \<open>path/filepath\<close>; \<open>Go_Json\<close>: \<open>encoding/json\<close>; \<open>Netip\<close>: \<open>net/netip\<close>;
    \<open>Sha512\<close>: \<open>crypto/sha512\<close>.

  \<^noindent> Services at run time:
  \<^item> \<open>Dataplane\<close> (\<open>agent/dataplane/dataplane.go\<close>): \<open>Compile\<close>, \<open>SelectBackend\<close>, \<open>DeriveVIP\<close> and the
    reconciler. The compiled tables implement the snapshot, within the sizes of the kernel
    maps and independently of the order of its content; selection is total and correct;
    a reconciliation that fails keeps the active tables.
  \<^item> \<open>Pods\<close> (\<open>agent/pods/watcher.go\<close>): projection and the watch loop, which publishes complete
    states only. \<open>Service_Dns\<close> (\<open>agent/service/server.go\<close>): the records and the answers.
  \<^item> \<open>Coordination_Api\<close> (\<open>agent/api\<close>): the messages and the stream server; a backend sees one
    greeting and then increasing states of this session.
  \<^item> \<open>Service_Contract\<close>, \<open>Service_Merge\<close>, \<open>Service_Controller\<close> (\<open>agent/service/controller.go\<close>): contracts
    and their digest, validation of node states, the cluster snapshot, and the controller.
    Merging never fails for admitted peers and does not depend on their order; applying a
    snapshot is all or nothing; every snapshot that a leader builds is accepted everywhere.
  \<^item> \<open>Coordinator\<close>, \<open>Coordinator_Invariants\<close>, \<open>Coordinator_Publish\<close>
    (\<open>agent/coordinator/coordinator.go\<close>, \<open>transport.go\<close>): the operations, a transition relation
    with its invariant, and what follows for the nodes: a reported view is published, an
    expired one is withdrawn, a follower without news withdraws its backends, and the applied
    snapshot moves forward only. \<open>Coordinator_Storage\<close>: any number of coordinators on
    one durable object never lose or reorder a generation.

  \<^noindent> Desired state:
  \<^item> \<open>Manifest_Ids\<close>, \<open>Manifest_Yaml\<close>, \<open>Manifest_Pod\<close>, \<open>Manifest_Service\<close>, \<open>Manifest_Deployment\<close>
    (\<open>manifest/manifest.go\<close>), \<open>Registry\<close> (\<open>registry/registry.go\<close>), \<open>Manifest_Index\<close> (\<open>manifest/index.go\<close>):
    identifiers, the YAML check, the Pod policy, Services, deployments and the index. What is
    accepted obeys the policy; transformation is idempotent on what it produced; Services and
    the index round-trip.
  \<^item> \<open>Versioned_Storage\<close>, \<open>Cloud_Store\<close> (\<open>cloud/object.go\<close>): object storage as histories of
    bodies with tags, other writers and failing calls. \<open>Deploy\<close> (\<open>cli/deploy\<close>): \<open>Apply\<close>, \<open>Delete\<close>
    and \<open>List\<close>; a commit replaces exactly one entry of the newest index and refers to
    payloads that are stored.

  \<^noindent> Nodes:
  \<^item> \<open>Workload_Ca\<close> (\<open>agent/workload/workload.go\<close>): the CA document, its rotation in a window, and
    the identities that are issued.
  \<^item> \<open>Secrets\<close> (\<open>secrets/secrets.go\<close>), \<open>Staticpod_Build\<close> (\<open>agent/staticpod/manifest.go\<close>): a Pod
    receives the values that it declares, of its own deployment, and no others.
  \<^item> \<open>Staticpod_Files\<close> (\<open>filesystem.go\<close>), \<open>Staticpod\<close> (\<open>reconciler.go\<close>, \<open>runtime.go\<close>): the
    definitions. \<open>Staticpod_Stage\<close>, \<open>Staticpod_Cleanup\<close>, \<open>Staticpod_Round\<close> hold the lemmas on
    staging, cleanup and the candidates of a round; \<open>Staticpod_Publish\<close> shows that files
    change atomically whichever call fails and that a published round places exactly the
    desired state; \<open>Staticpod_Run\<close> is the polling loop; \<open>Staticpod_Identity\<close> shows which
    identities a node keeps.

  \<^noindent> The properties that span the components are in this theory: the identities of a node
  under the CA of the cluster, and the way of a deployment from \<open>Apply\<close> to the node.

  \<^bold>\<open>Interfaces.\<close> \<open>dataplane_contract\<close> is what the service controller relies on of the dataplane,
  interpreted on the modelled reconciler with any activation platform; \<open>conditional_store\<close> is
  the contract of object storage, interpreted on the modelled store; \<open>identity_authority\<close> is
  what the reconciler relies on of the CA, interpreted on what \<open>Issue\<close> of the workload CA
  returns.

  \<^bold>\<open>Modelling choices.\<close>
  \<^item> A struct is a record, a Go error an \<open>error\<close> value, a fallible function returns \<open>error + 'a\<close>
    or an optional error with the new state. Integers of a width are words where they can
    wrap; lengths and times are natural numbers or integers.
  \<^item> A Go map is a map, or an association list with distinct keys where the code ranges over it.
    The order of a range is an argument, a permutation, and the theorems hold for each.
  \<^item> A call of the operating system or of storage has a number; an argument says for each
    number whether it fails. A failing file system call takes no effect. A failing
    storage write may have taken effect. The directories are free of symbolic links above
    the last element. Other processes may change the objects before any storage call.
  \<^item> Goroutines are the interleavings of a step relation, or the list of inputs of a loop. A
    mutex makes an operation one step.
  \<^item> Libraries that are not part of the repository are arguments: YAML and Kubernetes decoders,
    image references, protobuf, X.509 and keys, the JSON codec of the CA document, the secret
    stores and the activation of the dataplane. Their documented behaviour is a hypothesis where
    a theorem needs it.

  \<^bold>\<open>Bounds and termination.\<close> Every function is total. The index is retried 16 times and the CA
  document 8 times, as in the code; running out is an error value. The JSON reader takes the
  length of the text as fuel, one unit for every value, and each value reads a byte. The YAML
  check ends because it never enters an anchor twice. Loops that run until their context ends
  consume a list of inputs, of any length.

  \<^bold>\<open>Not modelled.\<close> The activation of the dataplane (netlink and BPF maps), the generated code,
  and the wiring around the parts above: the daemon, TLS identities of agents, dialling of
  streams, telemetry, the AWS SDK calls, setup and infrastructure runs, image transfers,
  downloads of dependencies, and the terminal. They are calls of libraries and services
  that the repository does not contain, with string templates between them.
\<close>

section \<open>Properties across components\<close>

lemma fresh_reconciler: "NewReconciler config True True True True = Inr r \<Longrightarrow>
    rc_identityMaterial r = [] \<and> rc_identities r = [] \<and> rc_services r = [] \<and> \<not> rc_health r"
  by (auto simp: NewReconciler_def split: if_splits)



text \<open>
  C40: what is deployed is what the nodes build. After a successful \<open>Apply\<close>, when no other
  process interferes and the reads succeed, the next round of a node of the node group reads
  an index that selects the deployment under its name, and the Pod object it refers to passes
  the check of its digest; the body has the digest of the Pod that was applied.
\<close>

theorem applied_pod_reaches_node:
  assumes "cloud_laws cl" and "others_keep payloads_verified cl" and "payloads_verified (st_objects st)" and "valid_names d"
    and "Apply cl g n d st = (None, st')" and "sc_NodeGroup config = g"
    and "\<And>k. st_calls st' \<le> k \<Longrightarrow> cl_fault cl k = None \<and> (\<forall>objects. cl_other cl k objects = objects)"
    and "\<And>index. set (order index) = set index"
  shows "\<exists>index indexETag st1 body st2. read_index cl st' = (Inr (index, indexETag), st1) \<and> valid_index index \<and>
    (n, applied_entry g d) \<in> set (selected_deployments config (order index)) \<and>
    verified_object cl (id_Pod (applied_entry g d)) st1 = Inr (body, st2) \<and>
    manifest_Digest body = manifest_Digest (dep_Pod d)"
proof -
  obtain body before index index' where c: "st_objects st' index_key = body # before" "ParseIndex body = Inr index'"
    "map_of index' = (map_of index)(DeploymentKey g n \<mapsto> applied_entry g d)" "payload_stored (st_objects st') (pod_key g (dep_Pod d))"
    using Apply_commit[OF assms(1-5)] by blast
  obtain st1 st2 where v: "ValidID g" "ValidID n" by (rule Apply_steps[OF assms(5)])
  have key: "index_key = indexKey" by (simp add: index_key_def indexKey_def)
  let ?st1 = "\<lparr>st_objects = st_objects st', st_calls = Suc (st_calls st')\<rparr>"
  obtain etag where read: "read_index cl st' = (Inr (index', etag), ?st1)"
    using assms(7)[of "st_calls st'"] c(1,2) key by (auto simp: read_index_def cloud_Get_def storage_Get_def Let_def)
  have "(DeploymentKey g n, applied_entry g d) \<in> set index'" using c(3) by (intro map_of_SomeD) simp
  then have sel: "(n, applied_entry g d) \<in> set (selected_deployments config (order index'))"
    using selected_complete[OF assms(8)] v assms(6) by blast
  obtain pod older where pod: "st_objects st' (pod_key g (dep_Pod d)) = pod # older" "Verify (pod_key g (dep_Pod d)) pod = None"
    using c(4) by (cases "st_objects st' (pod_key g (dep_Pod d))") (auto simp: payload_stored_def)
  have "verified_object cl (pod_key g (dep_Pod d)) ?st1 = Inr (pod, \<lparr>st_objects = st_objects st', st_calls = Suc (Suc (st_calls st'))\<rparr>)"
    using assms(7)[of "Suc (st_calls st')"] pod by (simp add: verified_object_def cloud_Get_def storage_Get_def Let_def)
  moreover have "manifest_Digest pod = manifest_Digest (dep_Pod d)"
    using pod(2) pod_key_facts(3)[OF v(1), of "dep_Pod d"] by (auto simp: Verify_def split: prod.splits if_splits)
  moreover have "id_Pod (applied_entry g d) = pod_key g (dep_Pod d)" by (simp add: applied_entry_def)
  ultimately show ?thesis using read sel ParseIndex_valid[OF c(2)] by auto
qed

theorem applied_pod_reaches_node_witness:
  "\<exists>st' index indexETag st1. Apply quiet_store ''workers'' ''web'' example_deployment empty_store = (None, st') \<and>
     read_index quiet_store st' = (Inr (index, indexETag), st1) \<and>
     (''web'', applied_entry ''workers'' example_deployment) \<in> set (selected_deployments example_config index)"
proof -
  obtain st' where st': "Apply quiet_store ''workers'' ''web'' example_deployment empty_store = (None, st')"
    using quiet_Apply by blast
  have a: "payloads_verified (st_objects empty_store)" "valid_names example_deployment" "sc_NodeGroup example_config = ''workers''"
    by (simp_all add: payloads_verified_def empty_store_def valid_names_def example_deployment_def example_config_def)
  have "\<exists>index indexETag st1 body st2. read_index quiet_store st' = (Inr (index, indexETag), st1) \<and> valid_index index \<and>
      (''web'', applied_entry ''workers'' example_deployment) \<in> set (selected_deployments example_config ((\<lambda>x. x) index)) \<and>
      verified_object quiet_store (id_Pod (applied_entry ''workers'' example_deployment)) st1 = Inr (body, st2) \<and>
      manifest_Digest body = manifest_Digest (dep_Pod example_deployment)"
    by (rule applied_pod_reaches_node[OF quiet_laws a(1,2) st' a(3)]) (simp_all add: quiet_store_def)
  with st' show ?thesis by blast
qed

end
